(* ===== verification/Prelude.thy ===== *)
theory Prelude
  imports Main "HOL-Library.Word" "HOL-Library.Product_Lexorder" "HOL-Library.Multiset"
begin

section \<open>Prelude: results, machine integers and shared lemmas\<close>

text \<open>
  Shared by every theory of the development: the result type in which a Rust function
  returns (a value, an error of its own, or a panic), checked arithmetic on machine
  integers as the Rust standard library has it, the byte-array types of the source as words of
  their width, and generic lemmas on lists, words and cardinalities.
\<close>

subsection \<open>Results\<close>

text \<open>
  A Rust function of type \<open>Result<T, E>\<close> returns \<open>Ok\<close> or \<open>Err\<close>; an \<open>expect\<close>, an
  \<open>assert!\<close>, an index out of bounds or a \<open>panic!\<close> ends the call without a value. The panic
  carries a short name of its source message, so that two different panics stay different.
\<close>

datatype ('e, 'a) res = Ok 'a | Err 'e | Panic string

primrec res_bind :: "('e, 'a) res \<Rightarrow> ('a \<Rightarrow> ('e, 'b) res) \<Rightarrow> ('e, 'b) res" where
  "res_bind (Ok x) f = f x"
| "res_bind (Err e) f = Err e"
| "res_bind (Panic m) f = Panic m"

primrec map_err :: "('e \<Rightarrow> 'g) \<Rightarrow> ('e, 'a) res \<Rightarrow> ('g, 'a) res" where
  "map_err f (Ok x) = Ok x"
| "map_err f (Err e) = Err (f e)"
| "map_err f (Panic m) = Panic m"

text \<open>\<open>Option::expect\<close>\<close>

definition expect :: "string \<Rightarrow> 'a option \<Rightarrow> ('e, 'a) res" where
  "expect msg x = (case x of Some y \<Rightarrow> Ok y | None \<Rightarrow> Panic msg)"

text \<open>\<open>assert!\<close> and \<open>assert_eq!\<close>, which stay in release builds.\<close>

definition assert_or_panic :: "string \<Rightarrow> bool \<Rightarrow> ('e, unit) res" where
  "assert_or_panic msg b = (if b then Ok () else Panic msg)"

text \<open>\<open>Result\<close> early return on a failed check.\<close>

definition ensure :: "bool \<Rightarrow> 'e \<Rightarrow> ('e, unit) res" where
  "ensure b e = (if b then Ok () else Err e)"

named_theorems res_simps \<open>inversion of the result combinators\<close>

lemma res_bind_Ok_iff [res_simps]:
  "res_bind m f = Ok y \<longleftrightarrow> (\<exists>x. m = Ok x \<and> f x = Ok y)"
  by (cases m) auto

lemma res_bind_Err_iff:
  "res_bind m f = Err e \<longleftrightarrow> m = Err e \<or> (\<exists>x. m = Ok x \<and> f x = Err e)"
  by (cases m) auto

lemma res_bind_Panic_iff:
  "res_bind m f = Panic s \<longleftrightarrow> m = Panic s \<or> (\<exists>x. m = Ok x \<and> f x = Panic s)"
  by (cases m) auto

lemma map_err_Ok_iff [res_simps]: "map_err f m = Ok y \<longleftrightarrow> m = Ok y"
  by (cases m) auto

lemma map_err_Err_iff: "map_err f m = Err e \<longleftrightarrow> (\<exists>d. m = Err d \<and> e = f d)"
  by (cases m) auto

lemma map_err_Panic_iff: "map_err f m = Panic s \<longleftrightarrow> m = Panic s"
  by (cases m) auto

lemma expect_Ok_iff [res_simps]: "expect s x = Ok y \<longleftrightarrow> x = Some y"
  by (auto simp: expect_def split: option.splits)

lemma expect_Some [simp]: "expect s (Some y) = Ok y"
  by (simp add: expect_def)

lemma expect_None [simp]: "expect s None = Panic s"
  by (simp add: expect_def)

lemma expect_not_Err [simp]: "expect s x \<noteq> Err e"
  by (auto simp: expect_def split: option.splits)

lemma assert_or_panic_Ok_iff [res_simps]: "assert_or_panic s b = Ok y \<longleftrightarrow> b"
  by (auto simp: assert_or_panic_def)

lemma assert_or_panic_simps [simp]:
  "assert_or_panic s True = Ok ()" "assert_or_panic s False = Panic s"
  "assert_or_panic s b \<noteq> Err e"
  by (auto simp: assert_or_panic_def)

lemma ensure_Ok_iff [res_simps]: "ensure b e = Ok y \<longleftrightarrow> b"
  by (auto simp: ensure_def)

lemma ensure_simps [simp]: "ensure True e = Ok ()" "ensure False e = Err e"
  "ensure b e \<noteq> Panic s"
  by (auto simp: ensure_def)

lemma res_bind_assoc: "res_bind (res_bind m f) g = res_bind m (\<lambda>x. res_bind (f x) g)"
  by (cases m) auto

lemma res_bind_Ok_right [simp]: "res_bind m Ok = m"
  by (cases m) auto

text \<open>A loop over a list whose body may fail, stopping at the first failure.\<close>

fun res_fold :: "('a \<Rightarrow> 's \<Rightarrow> ('e, 's) res) \<Rightarrow> 'a list \<Rightarrow> 's \<Rightarrow> ('e, 's) res" where
  "res_fold f [] s = Ok s"
| "res_fold f (x # xs) s = res_bind (f x s) (res_fold f xs)"

lemma res_fold_invariant:
  assumes "res_fold f xs s = Ok t" and "P s"
    and "\<And>x s t. x \<in> set xs \<Longrightarrow> P s \<Longrightarrow> f x s = Ok t \<Longrightarrow> P t"
  shows "P t"
  using assms
proof (induction xs arbitrary: s)
  case Nil
  then show ?case by simp
next
  case (Cons x xs)
  from Cons.prems(1) obtain u where u: "f x s = Ok u" "res_fold f xs u = Ok t"
    by (auto simp: res_simps)
  have "P u" using Cons.prems(2,3) u(1) by auto
  with u(2) Cons.prems(3) show ?case by (auto intro: Cons.IH)
qed

lemma res_fold_total:
  "(\<And>x s. x \<in> set xs \<Longrightarrow> \<exists>t. f x s = Ok t) \<Longrightarrow> \<exists>t. res_fold f xs s = Ok t"
  by (induction xs arbitrary: s) (auto simp: res_bind_Ok_iff, metis list.set_intros(1) res_bind.simps(1))

text \<open>A loop that appends to a list.\<close>

lemma res_fold_append:
  "(\<And>x acc. x \<in> set xs \<Longrightarrow> f x acc = Ok (acc @ h x)) \<Longrightarrow> res_fold f xs acc = Ok (acc @ concat (map h xs))"
  by (induction xs arbitrary: acc) simp_all

text \<open>A loop each of whose steps leaves the state as it is or panics.\<close>

lemma res_fold_guard:
  "(\<And>x. x \<in> set xs \<Longrightarrow> f x s = (if P x then Panic m else Ok s)) \<Longrightarrow>
     res_fold f xs s = (if \<exists>x \<in> set xs. P x then Panic m else Ok s)"
  by (induction xs) auto

subsection \<open>Machine integers\<close>

type_synonym byte = "8 word"

text \<open>\<open>checked_add\<close> and \<open>checked_sub\<close> of the unsigned integer types.\<close>

definition checked_add :: "'a::len word \<Rightarrow> 'a word \<Rightarrow> 'a word option" where
  "checked_add a b = (if unat a + unat b < 2 ^ LENGTH('a) then Some (a + b) else None)"

definition checked_sub :: "'a::len word \<Rightarrow> 'a word \<Rightarrow> 'a word option" where
  "checked_sub a b = (if b \<le> a then Some (a - b) else None)"

lemma checked_add_Some_iff:
  "checked_add a b = Some c \<longleftrightarrow> unat a + unat b < 2 ^ LENGTH('a) \<and> c = a + b"
  for a :: "'a::len word"
  by (auto simp: checked_add_def)

lemma unat_checked_add: "checked_add a b = Some c \<Longrightarrow> unat c = unat a + unat b"
  by (auto simp: checked_add_Some_iff unat_word_ariths)

lemma unat_checked_sub: "checked_sub a b = Some c \<Longrightarrow> unat c = unat a - unat b"
  by (auto simp: checked_sub_def unat_sub split: if_splits)

lemma unat_minus_one_word: "unat (- 1 :: 'a::len word) = 2 ^ LENGTH('a) - 1"
  by (simp add: unsigned_minus_1_eq_mask mask_eq_exp_minus_1)

lemma unat_plus_one: "x \<noteq> - 1 \<Longrightarrow> unat (x + 1) = Suc (unat x)" for x :: "'a::len word"
proof -
  assume "x \<noteq> - 1"
  then have "1 + x \<noteq> 0" by (metis add.commute eq_neg_iff_add_eq_0)
  then have "unat (1 + x) = Suc (unat x)" by (rule unatSuc)
  then show ?thesis by (simp add: add.commute)
qed

lemma checked_add_one: "checked_add x 1 = (if x = - 1 then None else Some (x + 1))"
  for x :: "'a::len word"
proof (cases "x = - 1")
  case True
  then show ?thesis
    by (simp add: checked_add_def unat_minus_one_word)
next
  case False
  have "unat x + 1 = unat (x + 1)" using False by (simp add: unat_plus_one)
  also have "\<dots> < 2 ^ LENGTH('a)" by (rule unsigned_less)
  finally show ?thesis using False by (simp add: checked_add_def)
qed

lemma less_plus_one: "x \<noteq> - 1 \<Longrightarrow> x < x + 1" for x :: "'a::len word"
  by (simp add: word_less_nat_alt unat_plus_one)

lemma less_plus_one_iff: "x \<noteq> - 1 \<Longrightarrow> y < x + 1 \<longleftrightarrow> y \<le> x" for x :: "'a::len word"
  by (simp add: word_less_nat_alt word_le_nat_alt unat_plus_one less_Suc_eq_le)

lemma less_imp_not_max: "x < y \<Longrightarrow> x \<noteq> - 1" for x :: "'a::len word"
  using word_order.extremum_strict by blast

lemma plus_one_le_iff: "x \<noteq> - 1 \<Longrightarrow> x + 1 \<le> y \<longleftrightarrow> x < y" for x :: "'a::len word"
  by (simp add: word_less_nat_alt word_le_nat_alt unat_plus_one Suc_le_eq)

subsection \<open>Lists and cardinalities\<close>

lemma card_less_filter_nth:
  "card {i. i < length xs \<and> P (xs ! i)} = length (filter P xs)"
  by (simp add: length_filter_conv_card)

lemma two_subsets_overlap:
  assumes "finite U" "A \<subseteq> U" "B \<subseteq> U"
  shows "card A + card B \<le> card U + card (A \<inter> B)"
proof -
  have fin: "finite A" "finite B" using assms finite_subset by blast+
  have "card A + card B = card (A \<union> B) + card (A \<inter> B)"
    using fin by (rule card_Un_Int)
  moreover have "card (A \<union> B) \<le> card U" using assms by (intro card_mono) auto
  ultimately show ?thesis by simp
qed

lemma sorted_nth_count_ge:
  assumes "sorted xs" and "k < length xs"
  shows "length xs - k \<le> length (filter (\<lambda>x. xs ! k \<le> x) xs)"
proof -
  have "{k..<length xs} \<subseteq> {i. i < length xs \<and> xs ! k \<le> xs ! i}"
    using assms by (auto intro: sorted_nth_mono)
  then have "card {k..<length xs} \<le> card {i. i < length xs \<and> xs ! k \<le> xs ! i}"
    by (intro card_mono) auto
  then show ?thesis by (simp add: length_filter_conv_card)
qed

lemma sorted_nth_count_gt:
  assumes "sorted xs" and "k < length xs" and "xs ! k < y"
  shows "length (filter (\<lambda>x. y \<le> x) xs) \<le> length xs - Suc k"
proof -
  have "{i. i < length xs \<and> y \<le> xs ! i} \<subseteq> {Suc k..<length xs}"
  proof
    fix i assume i: "i \<in> {i. i < length xs \<and> y \<le> xs ! i}"
    then have "k < i"
      using assms by (metis leD le_less_linear mem_Collect_eq order_le_less_trans sorted_nth_mono)
    with i show "i \<in> {Suc k..<length xs}" by simp
  qed
  then have "card {i. i < length xs \<and> y \<le> xs ! i} \<le> card {Suc k..<length xs}"
    by (intro card_mono) auto
  then show ?thesis by (simp add: length_filter_conv_card)
qed

lemma length_filter_sort: "length (filter P (sort xs)) = length (filter P xs)"
  by (metis mset_filter mset_sort size_mset)

end
