(* ===== verification/Array_Types.thy ===== *)
theory Array_Types
  imports Prelude
begin

section \<open>Fixed-size array types\<close>

text \<open>
  \<open>util-array-type/src/lib.rs\<close>. The macro \<open>array_type_fixed_size_define!\<close> wraps the big-endian
  bytes of an unsigned integer: \<open>BlockRound(u64)\<close>, \<open>BlockSeq(u32)\<close>, \<open>Timestamp(u64)\<close>,
  \<open>BlockPayloadLen(u32)\<close>, \<open>ConsensusVersionMajor(u16)\<close>. Such a value is a word of its
  width; \<open>to_be_bytes\<close> gives the bytes it is stored as. The derived \<open>Ord\<close> compares the bytes
  lexicographically; the lemmas at the end show that this is the order of the numbers, on which
  every range query of the program depends.
\<close>

definition arr_next :: "'a::len word \<Rightarrow> 'a word option" where
  "arr_next x = checked_add x 1"

definition arr_next_expect :: "'a::len word \<Rightarrow> ('e, 'a word) res" where
  "arr_next_expect x = expect ''run out of u64 rounds'' (checked_add x 1)"

definition arr_next_wrapping :: "'a::len word \<Rightarrow> 'a word" where
  "arr_next_wrapping x = x + 1"

definition arr_prev :: "'a::len word \<Rightarrow> 'a word option" where
  "arr_prev x = checked_sub x 1"

fun to_be_bytes :: "nat \<Rightarrow> 'a::len word \<Rightarrow> byte list" where
  "to_be_bytes 0 x = []"
| "to_be_bytes (Suc n) x = ucast (drop_bit (8 * n) x) # to_be_bytes n x"

definition from_be_bytes :: "byte list \<Rightarrow> 'a::len word" where
  "from_be_bytes bs = foldl (\<lambda>acc b. 256 * acc + ucast b) 0 bs"

lemma arr_next_expect_Ok_iff [res_simps]:
  "arr_next_expect x = Ok y \<longleftrightarrow> x \<noteq> - 1 \<and> y = x + 1"
  by (auto simp: arr_next_expect_def res_simps checked_add_one split: if_splits)

lemma arr_next_Some_iff: "arr_next x = Some y \<longleftrightarrow> x \<noteq> - 1 \<and> y = x + 1"
  by (auto simp: arr_next_def checked_add_one split: if_splits)

lemma arr_prev_Some_iff: "arr_prev x = Some y \<longleftrightarrow> x \<noteq> 0 \<and> y = x - 1" for x :: "'a::len word"
  by (auto simp: arr_prev_def checked_sub_def word_le_nat_alt unat_gt_0 Suc_le_eq split: if_splits)

lemma arr_prev_next: "arr_next x = Some y \<Longrightarrow> arr_prev y = Some x" for x :: "'a::len word"
proof -
  assume "arr_next x = Some y"
  then have "x \<noteq> - 1" "y = x + 1" by (auto simp: arr_next_Some_iff)
  then have "unat y = Suc (unat x)" by (simp add: unat_plus_one)
  then have "y \<noteq> 0" by (metis Zero_not_Suc unat_0)
  with \<open>y = x + 1\<close> show ?thesis by (simp add: arr_prev_Some_iff)
qed

subsection \<open>Bytes and numbers\<close>

primrec be_value :: "nat \<Rightarrow> byte list \<Rightarrow> nat" where
  "be_value acc [] = acc"
| "be_value acc (b # bs) = be_value (256 * acc + unat b) bs"

lemma length_to_be_bytes [simp]: "length (to_be_bytes n x) = n"
  by (induction n x rule: to_be_bytes.induct) auto

lemma be_value_acc: "be_value acc bs = acc * 256 ^ length bs + be_value 0 bs"
proof (induction bs arbitrary: acc)
  case (Cons b bs)
  show ?case
    using Cons [of "256 * acc + unat b"] Cons [of "unat b"] by (simp add: algebra_simps)
qed simp

lemma be_value_less: "be_value 0 bs < 256 ^ length bs"
proof (induction bs)
  case (Cons b bs)
  have "unat b < 256" using unsigned_less [of b] by simp
  then have "Suc (unat b) * 256 ^ length bs \<le> 256 * 256 ^ length bs" by (intro mult_right_mono) auto
  moreover have "be_value 0 (b # bs) = unat b * 256 ^ length bs + be_value 0 bs"
    using be_value_acc [of "unat b" bs] by simp
  ultimately show ?case using Cons by (simp only: length_Cons power_Suc mult_Suc)
qed simp

lemma unat_byte_of: "unat (ucast (drop_bit (8 * n) x) :: byte) = (unat x div 256 ^ n) mod 256"
  for x :: "'a::len word"
proof -
  have "unat (ucast (drop_bit (8 * n) x) :: byte) = unat (drop_bit (8 * n) x) mod 2 ^ 8"
    by (simp add: unsigned_ucast_eq take_bit_eq_mod)
  moreover have "unat (drop_bit (8 * n) x) = drop_bit (8 * n) (unat x)"
    by (simp only: unsigned_drop_bit_eq)
      (metis drop_bit_take_bit take_bit_length_eq unsigned_take_bit_eq)
  moreover have "drop_bit (8 * n) (unat x) = unat x div 256 ^ n"
    by (simp add: drop_bit_eq_div power_mult)
  ultimately show ?thesis by simp
qed

lemma be_value_to_be_bytes: "be_value 0 (to_be_bytes n x) = unat x mod 256 ^ n"
proof (induction n)
  case (Suc n)
  have "be_value 0 (to_be_bytes (Suc n) x) =
      ((unat x div 256 ^ n) mod 256) * 256 ^ n + unat x mod 256 ^ n"
    using Suc be_value_acc [of "(unat x div 256 ^ n) mod 256" "to_be_bytes n x"]
    by (simp add: unat_byte_of)
  also have "\<dots> = unat x mod (256 ^ n * 256)" by (simp add: mod_mult2_eq)
  finally show ?case by (simp add: mult.commute)
qed simp

lemma from_be_bytes_value: "from_be_bytes bs = (of_nat (be_value 0 bs) :: 'a::len word)"
proof -
  have "foldl (\<lambda>acc b. 256 * acc + ucast b) (of_nat n :: 'a word) bs = of_nat (be_value n bs)" for n
  proof (induction bs arbitrary: n)
    case (Cons b bs)
    have "256 * (of_nat n :: 'a word) + ucast b = of_nat (256 * n + unat b)"
      by simp
    then show ?case using Cons [of "256 * n + unat b"] by simp
  qed simp
  from this [of 0] show ?thesis by (simp add: from_be_bytes_def)
qed

lemma unat_less_bytes: "8 * n = LENGTH('a) \<Longrightarrow> unat (x :: 'a::len word) < 256 ^ n"
proof -
  assume "8 * n = LENGTH('a)"
  then have e: "(2::nat) ^ LENGTH('a) = 256 ^ n" using power_mult [of "2::nat" 8 n] by simp
  have "unat x < 2 ^ LENGTH('a)" by (rule unsigned_less)
  with e show ?thesis by simp
qed

lemma lex_bytes_value:
  "length bs = length cs \<Longrightarrow> ord_class.lexordp bs cs \<longleftrightarrow> be_value 0 bs < be_value 0 cs"
proof (induction bs cs rule: list_induct2)
  case (Cons b bs c cs)
  have b: "be_value 0 (b # bs) = unat b * 256 ^ length bs + be_value 0 bs"
    using be_value_acc [of "unat b" bs] by simp
  have c: "be_value 0 (c # cs) = unat c * 256 ^ length bs + be_value 0 cs"
    using be_value_acc [of "unat c" cs] Cons.hyps by simp
  have lb: "be_value 0 bs < 256 ^ length bs" by (rule be_value_less)
  have lc: "be_value 0 cs < 256 ^ length bs" using be_value_less [of cs] Cons.hyps by simp
  consider "b < c" | "b = c" | "c < b" by fastforce
  then show ?case
  proof cases
    case 1
    then have "Suc (unat b) * 256 ^ length bs \<le> unat c * 256 ^ length bs"
      by (intro mult_right_mono) (auto simp: word_less_nat_alt)
    with lb 1 show ?thesis unfolding b c by simp
  next
    case 2
    with Cons.IH show ?thesis unfolding b c by simp
  next
    case 3
    then have "Suc (unat c) * 256 ^ length bs \<le> unat b * 256 ^ length bs"
      by (intro mult_right_mono) (auto simp: word_less_nat_alt)
    with lc 3 show ?thesis unfolding b c by (auto simp: not_less_iff_gr_or_eq)
  qed
qed simp

lemma be_value_append: "be_value a (xs @ ys) = be_value (be_value a xs) ys"
  by (induction xs arbitrary: a) auto

lemma from_be_bytes_prefix: "from_be_bytes (xs @ to_be_bytes 32 h) = (h :: 256 word)"
proof -
  have u: "unat h < 256 ^ 32" using unat_less_bytes [of 32, where 'a = 256, of h] by simp
  have "be_value 0 (xs @ to_be_bytes 32 h) = be_value 0 xs * 256 ^ 32 + unat h"
    using u be_value_acc [of "be_value 0 xs" "to_be_bytes 32 h"]
    by (simp only: be_value_append be_value_to_be_bytes length_to_be_bytes) simp
  moreover have "(of_nat (256 ^ 32) :: 256 word) = 0" by simp
  ultimately show ?thesis by (simp only: from_be_bytes_value of_nat_add of_nat_mult) simp
qed

subsection \<open>Properties\<close>

text \<open>The bytes in which a fixed-size number is stored determine it: \<open>to_number\<close> inverts
  \<open>from_number\<close> for every width that is a whole number of bytes.\<close>

lemma be_bytes_roundtrip:
  "8 * n = LENGTH('a) \<Longrightarrow> from_be_bytes (to_be_bytes n x) = (x :: 'a::len word)"
proof -
  assume n: "8 * n = LENGTH('a)"
  have "from_be_bytes (to_be_bytes n x) = (of_nat (unat x mod 256 ^ n) :: 'a word)"
    by (simp only: from_be_bytes_value be_value_to_be_bytes)
  also have "unat x mod 256 ^ n = unat x" using unat_less_bytes [OF n, of x] by simp
  finally show ?thesis by simp
qed

text \<open>The derived byte order of the fixed-size numbers is the order of the numbers, so that a
  range over stored keys is a range over rounds.\<close>

lemma be_bytes_order:
  "8 * n = LENGTH('a) \<Longrightarrow>
     ord_class.lexordp (to_be_bytes n x) (to_be_bytes n y) \<longleftrightarrow> x < (y :: 'a::len word)"
proof -
  assume n: "8 * n = LENGTH('a)"
  have "ord_class.lexordp (to_be_bytes n x) (to_be_bytes n y) \<longleftrightarrow>
      be_value 0 (to_be_bytes n x) < be_value 0 (to_be_bytes n y)"
    by (rule lex_bytes_value) simp
  also have "\<dots> \<longleftrightarrow> unat x < unat y"
    using unat_less_bytes [OF n, of x] unat_less_bytes [OF n, of y] by (simp add: be_value_to_be_bytes)
  finally show ?thesis by (simp add: word_less_nat_alt)
qed

end
