(* ===== verification/Num_Peers.thy ===== *)
theory Num_Peers
  imports Array_Types
begin

section \<open>Numbers of peers, faults and thresholds\<close>

text \<open>
  \<open>consensus-core/src/num_peers.rs\<close> and the index types of \<open>consensus-core/src/peer.rs\<close>. A
  federation has at most 255 peers; \<open>NumPeers\<close> is a byte. The locale \<open>quorum_system\<close> states what
  the consensus needs of the three numbers and proves the intersection lemmas of Byzantine quorums
  from it; it is interpreted on the functions of the source.
\<close>

type_synonym num_peers = "8 word"
type_synonym peer_idx = "8 word"
type_synonym peer_pubkey = "256 word"

definition total :: "num_peers \<Rightarrow> nat" where
  "total n = unat n"

definition max_faulty :: "num_peers \<Rightarrow> nat" where
  "max_faulty n = (total n - 1) div 3"

definition threshold :: "num_peers \<Rightarrow> nat" where
  "threshold n = total n - max_faulty n"

definition peer_idx_iter :: "num_peers \<Rightarrow> peer_idx list" where
  "peer_idx_iter n = map of_nat [0..<unat n]"

text \<open>\<open>ToNumPeers for [T]\<close>: a slice longer than 255 panics.\<close>

definition to_num_peers :: "'a list \<Rightarrow> ('e, num_peers) res" where
  "to_num_peers xs =
     expect ''ToNumPeers used for Vec of size larger than u8''
       (if length xs \<le> 255 then Some (of_nat (length xs)) else None)"

subsection \<open>Quorums\<close>

locale quorum_system =
  fixes tot faulty thr :: "'n \<Rightarrow> nat"
  assumes thr_faulty: "thr n + faulty n = tot n"
    and faulty_bound: "0 < tot n \<Longrightarrow> 3 * faulty n < tot n"
begin

lemma thr_pos: "0 < tot n \<Longrightarrow> 0 < thr n"
  using thr_faulty [of n] faulty_bound [of n] by linarith

lemma faulty_less_thr: "0 < tot n \<Longrightarrow> 2 * faulty n < thr n"
  using thr_faulty [of n] faulty_bound [of n] by linarith

lemma quorums_overlap:
  assumes "finite U" "card U = tot n" "A \<subseteq> U" "B \<subseteq> U" "thr n \<le> card A" "thr n \<le> card B" "U \<noteq> {}"
  shows "faulty n < card (A \<inter> B)"
proof -
  have "card A + card B \<le> tot n + card (A \<inter> B)"
    using two_subsets_overlap [OF assms(1,3,4)] assms(2) by simp
  moreover have "0 < tot n" using assms by (metis card_gt_0_iff)
  ultimately show ?thesis
    using thr_faulty [of n] faulty_bound [of n] assms(5,6) by linarith
qed

lemma honest_in_both:
  assumes "finite U" "card U = tot n" "A \<subseteq> U" "B \<subseteq> U" "thr n \<le> card A" "thr n \<le> card B" "U \<noteq> {}"
    and "finite F" "card F \<le> faulty n"
  shows "\<exists>p. p \<in> A \<and> p \<in> B \<and> p \<notin> F"
proof (rule ccontr)
  assume "\<nexists>p. p \<in> A \<and> p \<in> B \<and> p \<notin> F"
  then have "A \<inter> B \<subseteq> F" by blast
  then have "card (A \<inter> B) \<le> card F" using assms(8) by (intro card_mono)
  with quorums_overlap [OF assms(1-7)] assms(9) show False by linarith
qed

lemma honest_quorum:
  assumes "finite U" "card U = tot n" "F \<subseteq> U" "card F \<le> faulty n"
  shows "thr n \<le> card (U - F)"
proof -
  have "card (U - F) = card U - card F"
    using assms finite_subset by (intro card_Diff_subset) auto
  then show ?thesis using assms thr_faulty [of n] by linarith
qed

end

lemma threshold_le_total: "threshold n \<le> total n"
  by (simp add: threshold_def)

interpretation np: quorum_system total max_faulty threshold
proof
  fix n
  show "threshold n + max_faulty n = total n"
    by (simp add: threshold_def max_faulty_def)
  show "3 * max_faulty n < total n" if "0 < total n"
    using that by (simp add: max_faulty_def)
qed

lemma total_le: "total n \<le> 255"
  using unsigned_less [of n, where 'a=nat] by (simp add: total_def)

lemma to_num_peers_Ok_iff [res_simps]:
  "to_num_peers xs = Ok n \<longleftrightarrow> length xs \<le> 255 \<and> n = of_nat (length xs)"
  by (auto simp: to_num_peers_def res_simps)

lemma total_to_num_peers: "to_num_peers xs = Ok n \<Longrightarrow> total n = length xs"
  by (auto simp: res_simps total_def unat_of_nat)

lemma to_num_peers_cases:
  "to_num_peers xs = (if length xs \<le> 255 then Ok (of_nat (length xs))
     else Panic ''ToNumPeers used for Vec of size larger than u8'')"
  by (simp add: to_num_peers_def)

lemma peer_idx_iter_set: "set (peer_idx_iter n) = {i. unat i < total n}"
proof -
  have "i \<in> set (peer_idx_iter n) \<longleftrightarrow> unat i < total n" for i
  proof
    assume "i \<in> set (peer_idx_iter n)"
    then obtain k where "k < unat n" "i = of_nat k" by (auto simp: peer_idx_iter_def)
    moreover have "unat n < 256" using unsigned_less [of n, where 'a=nat] by simp
    ultimately show "unat i < total n" by (simp add: total_def unat_of_nat)
  next
    assume "unat i < total n"
    then show "i \<in> set (peer_idx_iter n)"
      by (force simp: peer_idx_iter_def total_def intro!: image_eqI [of i of_nat "unat i"])
  qed
  then show ?thesis by blast
qed

lemma card_peer_range: "k \<le> 256 \<Longrightarrow> card {i :: peer_idx. unat i < k} = k"
proof -
  assume k: "k \<le> 256"
  have "{i :: peer_idx. unat i < k} = of_nat ` {0..<k}"
  proof (intro set_eqI iffI)
    fix i :: peer_idx assume "i \<in> {i. unat i < k}"
    then show "i \<in> of_nat ` {0..<k}" by (intro image_eqI [of i of_nat "unat i"]) auto
  next
    fix i :: peer_idx assume "i \<in> of_nat ` {0..<k}"
    then show "i \<in> {i. unat i < k}" using k by (auto simp: unat_of_nat)
  qed
  moreover have "inj_on (of_nat :: nat \<Rightarrow> peer_idx) {0..<k}"
    using k by (auto intro!: inj_onI dest!: arg_cong [of _ _ unat] simp: unat_of_nat)
  ultimately show ?thesis by (simp add: card_image)
qed

lemma peer_idx_iter_distinct: "distinct (peer_idx_iter n)"
proof -
  have "card (set (peer_idx_iter n)) = total n"
    using total_le [of n] by (simp add: peer_idx_iter_set card_peer_range)
  then show ?thesis
    by (intro card_distinct) (simp add: peer_idx_iter_def total_def)
qed

subsection \<open>Properties\<close>

text \<open>C6. Quorum intersection: of a federation of \<open>n\<close> peers, any two sets of at least
  \<open>threshold n\<close> peers have a peer in common that is not among the faulty ones, as long as at most
  \<open>max_faulty n\<close> are faulty; and the peers that are not faulty are themselves a quorum.\<close>

theorem quorum_intersection:
  assumes "n \<noteq> 0" "A \<subseteq> set (peer_idx_iter n)" "B \<subseteq> set (peer_idx_iter n)" "F \<subseteq> set (peer_idx_iter n)"
    and "threshold n \<le> card A" "threshold n \<le> card B" "card F \<le> max_faulty n"
  shows "(\<exists>p. p \<in> A \<and> p \<in> B \<and> p \<notin> F) \<and> threshold n \<le> card (set (peer_idx_iter n) - F)"
proof -
  let ?U = "set (peer_idx_iter n)"
  have U: "card ?U = total n"
    using total_le [of n] by (simp add: peer_idx_iter_set card_peer_range)
  moreover have "0 < total n" using assms(1) by (simp add: total_def unat_gt_0)
  ultimately have ne: "?U \<noteq> {}" by fastforce
  show ?thesis
    using np.honest_in_both [OF _ U assms(2,3,5,6) ne _ assms(7)] np.honest_quorum [OF _ U assms(4,7)]
    by simp
qed

lemma peer_idx_iter_4: "set (peer_idx_iter 4) = {0, 1, 2, 3 :: peer_idx}"
proof -
  have "[0..<4] = [0, 1, 2, 3 :: nat]" by (simp add: upt_rec)
  then show ?thesis by (simp add: peer_idx_iter_def)
qed

lemma quorum_numbers_4: "threshold 4 = 3" "max_faulty 4 = 1"
  by (simp_all add: threshold_def max_faulty_def total_def)

theorem quorum_intersection_witness:
  "(\<exists>p. p \<in> {0, 1, 2 :: peer_idx} \<and> p \<in> {1, 2, 3} \<and> p \<notin> {1}) \<and>
     threshold 4 \<le> card (set (peer_idx_iter 4) - {1})"
proof -
  have "threshold 4 \<le> card {0, 1, 2 :: peer_idx}" "threshold 4 \<le> card {1, 2, 3 :: peer_idx}"
    "card {1 :: peer_idx} \<le> max_faulty 4"
    by (simp_all add: quorum_numbers_4)
  then show ?thesis
    by (intro quorum_intersection) (auto simp: peer_idx_iter_4)
qed

end
