(* ===== verification/Vote_Set.thy ===== *)
theory Vote_Set
  imports Num_Peers
begin

unbundle bit_operations_syntax

section \<open>Sets of voters as bit arrays\<close>

text \<open>
  \<open>consensus/src/vote_set.rs\<close>: 256 bits in 32 bytes, peer 0 in the lowest bit of the last byte.
  The locale \<open>finite_set_impl\<close> is the contract of an implementation of finite sets; it is
  interpreted here on the bit array, with \<open>vs_set\<close> as the set that an array stands for.
\<close>

type_synonym vote_set = "byte list"

definition vs_zero :: vote_set where
  "vs_zero = replicate 32 0"

definition vs_byte_pos :: "peer_idx \<Rightarrow> nat" where
  "vs_byte_pos i = 31 - drop_bit 3 (unat i)"

definition vs_bit :: "peer_idx \<Rightarrow> byte" where
  "vs_bit i = push_bit (unat i AND 7) 1"

definition vs_insert :: "peer_idx \<Rightarrow> vote_set \<Rightarrow> vote_set" where
  "vs_insert i s = s[vs_byte_pos i := (s ! vs_byte_pos i) OR vs_bit i]"

definition vs_remove :: "peer_idx \<Rightarrow> vote_set \<Rightarrow> vote_set" where
  "vs_remove i s = s[vs_byte_pos i := (s ! vs_byte_pos i) AND NOT (vs_bit i)]"

definition vs_contains :: "vote_set \<Rightarrow> peer_idx \<Rightarrow> bool" where
  "vs_contains s i \<longleftrightarrow> (s ! vs_byte_pos i) AND vs_bit i \<noteq> 0"

definition count_ones :: "byte \<Rightarrow> nat" where
  "count_ones b = length (filter (bit b) [0..<8])"

definition vs_len :: "vote_set \<Rightarrow> nat" where
  "vs_len s = foldl (\<lambda>acc b. acc + count_ones b) 0 s"

definition vs_is_empty :: "vote_set \<Rightarrow> bool" where
  "vs_is_empty s \<longleftrightarrow> vs_len s = 0"

definition vs_bitor :: "vote_set \<Rightarrow> vote_set \<Rightarrow> vote_set" where
  "vs_bitor s t = fold (\<lambda>i res. res[i := (res ! i) OR (t ! i)]) [0..<length s] s"

subsection \<open>The contract of a finite set\<close>

locale finite_set_impl =
  fixes valid :: "'s \<Rightarrow> bool"
    and abs :: "'s \<Rightarrow> 'a set"
    and empty :: 's
    and ins del :: "'a \<Rightarrow> 's \<Rightarrow> 's"
    and mem :: "'s \<Rightarrow> 'a \<Rightarrow> bool"
    and size :: "'s \<Rightarrow> nat"
  assumes valid_empty: "valid empty" and abs_empty: "abs empty = {}"
    and valid_ins: "valid s \<Longrightarrow> valid (ins x s)"
    and abs_ins: "valid s \<Longrightarrow> abs (ins x s) = insert x (abs s)"
    and valid_del: "valid s \<Longrightarrow> valid (del x s)"
    and abs_del: "valid s \<Longrightarrow> abs (del x s) = abs s - {x}"
    and mem_abs: "valid s \<Longrightarrow> mem s x \<longleftrightarrow> x \<in> abs s"
    and finite_abs: "valid s \<Longrightarrow> finite (abs s)"
    and size_card: "valid s \<Longrightarrow> size s = card (abs s)"
begin

lemma valid_fold: "valid s \<Longrightarrow> valid (fold ins xs s)"
  by (induction xs arbitrary: s) (simp_all add: valid_ins)

lemma abs_fold: "valid s \<Longrightarrow> abs (fold ins xs s) = set xs \<union> abs s"
  by (induction xs arbitrary: s) (auto simp: valid_ins abs_ins)

text \<open>Collecting a list of elements, as the callers do, counts its distinct elements.\<close>

lemma size_collect: "size (fold ins xs empty) = card (set xs)"
  using size_card [OF valid_fold [OF valid_empty]] abs_fold [OF valid_empty]
  by (simp add: abs_empty)

lemma size_ins: "valid s \<Longrightarrow> size (ins x s) = (if mem s x then size s else Suc (size s))"
  by (simp add: size_card valid_ins abs_ins mem_abs finite_abs card_insert_if)

lemma size_del: "valid s \<Longrightarrow> size (del x s) = (if mem s x then size s - 1 else size s)"
  by (simp add: size_card valid_del abs_del mem_abs finite_abs card_Diff_singleton_if)

lemma mem_ins: "valid s \<Longrightarrow> mem (ins x s) y \<longleftrightarrow> y = x \<or> mem s y"
  by (simp add: mem_abs valid_ins abs_ins)

lemma mem_del: "valid s \<Longrightarrow> mem (del x s) y \<longleftrightarrow> y \<noteq> x \<and> mem s y"
  by (auto simp: mem_abs valid_del abs_del)

end

subsection \<open>The bit array is such a set\<close>

definition vs_valid :: "vote_set \<Rightarrow> bool" where
  "vs_valid s \<longleftrightarrow> length s = 32"

definition vs_set :: "vote_set \<Rightarrow> peer_idx set" where
  "vs_set s = {i. bit (s ! vs_byte_pos i) (unat i mod 8)}"

lemma peer_idx_less [simp]: "unat (i :: peer_idx) < 256"
  using unsigned_less [of i, where 'a=nat] by simp

lemma unat_and_7: "unat (i :: peer_idx) AND 7 = unat i mod 8"
  using take_bit_eq_mask [of 3 "unat i"] by (simp add: take_bit_eq_mod mask_eq_exp_minus_1)

lemma byte_pos_less [simp]: "vs_byte_pos i < 32"
  by (simp add: vs_byte_pos_def)

lemma byte_pos_eq: "vs_byte_pos i = vs_byte_pos j \<longleftrightarrow> unat i div 8 = unat j div 8"
proof -
  have "unat i div 8 < 32" "unat j div 8 < 32"
    using peer_idx_less [of i] peer_idx_less [of j] by linarith+
  then show ?thesis by (auto simp: vs_byte_pos_def drop_bit_eq_div)
qed

lemma same_slot: "vs_byte_pos i = vs_byte_pos j \<and> unat i mod 8 = unat j mod 8 \<longleftrightarrow> i = j"
  unfolding byte_pos_eq by (metis div_mult_mod_eq word_unat_eq_iff)

lemma bit_vs_bit: "bit (vs_bit i) n \<longleftrightarrow> n = unat i mod 8"
  by (auto simp: vs_bit_def unat_and_7 bit_simps)

lemma contains_bit: "vs_contains s i \<longleftrightarrow> bit (s ! vs_byte_pos i) (unat i mod 8)"
proof -
  have "vs_contains s i \<longleftrightarrow> (\<exists>n. bit ((s ! vs_byte_pos i) AND vs_bit i) n)"
    unfolding vs_contains_def by (metis bit_0_eq bit_eqI bot_apply bot_bool_def)
  then show ?thesis by (auto simp: bit_and_iff bit_vs_bit)
qed

lemma set_insert: "vs_valid s \<Longrightarrow> vs_set (vs_insert i s) = insert i (vs_set s)"
  by (auto simp: vs_valid_def vs_set_def vs_insert_def nth_list_update bit_or_iff bit_vs_bit
      same_slot [symmetric] simp flip: same_slot split: if_splits)

lemma set_remove: "vs_valid s \<Longrightarrow> vs_set (vs_remove i s) = vs_set s - {i}"
  by (auto simp: vs_valid_def vs_set_def vs_remove_def nth_list_update bit_and_iff bit_not_iff
      bit_vs_bit simp flip: same_slot split: if_splits)

lemma set_zero: "vs_set vs_zero = {}"
  by (simp add: vs_set_def vs_zero_def)

lemma count_ones_card: "count_ones b = card {n. n < 8 \<and> bit b n}"
proof -
  have "count_ones b = card (set (filter (bit b) [0..<8]))"
    unfolding count_ones_def by (intro distinct_card [symmetric]) simp
  also have "set (filter (bit b) [0..<8]) = {n. n < 8 \<and> bit b n}" by auto
  finally show ?thesis .
qed

lemma foldl_sum: "foldl (\<lambda>acc b. acc + f b) n xs = n + sum_list (map f xs)" for n :: nat
  by (induction xs arbitrary: n) auto

lemma len_card: "vs_valid s \<Longrightarrow> vs_len s = card (vs_set s)"
proof -
  assume v: "vs_valid s"
  let ?S = "SIGMA k:{0..<32}. {n. n < 8 \<and> bit (s ! k) n}"
  have "vs_len s = (\<Sum>k = 0..<32. count_ones (s ! k))"
    using v by (simp add: vs_len_def foldl_sum vs_valid_def sum_list_sum_nth)
  also have "\<dots> = card ?S" by (simp add: count_ones_card)
  also have "\<dots> = card (vs_set s)"
  proof (rule bij_betw_same_card [symmetric])
    show "bij_betw (\<lambda>i. (vs_byte_pos i, unat i mod 8)) (vs_set s) ?S"
    proof (rule bij_betw_imageI)
      show "inj_on (\<lambda>i. (vs_byte_pos i, unat i mod 8)) (vs_set s)"
        by (rule inj_onI) (simp add: same_slot)
      show "(\<lambda>i. (vs_byte_pos i, unat i mod 8)) ` vs_set s = ?S"
      proof (intro set_eqI iffI)
        fix e assume "e \<in> (\<lambda>i. (vs_byte_pos i, unat i mod 8)) ` vs_set s"
        then show "e \<in> ?S" by (auto simp: vs_set_def)
      next
        fix e assume e: "e \<in> ?S"
        obtain k n where kn: "e = (k, n)" by fastforce
        let ?i = "of_nat ((31 - k) * 8 + n) :: peer_idx"
        have b: "k < 32" "n < 8" "bit (s ! k) n" using e kn by auto
        then have "(31 - k) * 8 + n < 256" by simp
        then have u: "unat ?i = (31 - k) * 8 + n"
          by (simp add: unat_of_nat del: of_nat_add of_nat_mult of_nat_diff)
        have "((31 - k) * 8 + n) div 8 = 31 - k" using b by simp
        then have "vs_byte_pos ?i = k" using b unfolding vs_byte_pos_def u drop_bit_eq_div by simp
        moreover have "unat ?i mod 8 = n" using b unfolding u by simp
        ultimately show "e \<in> (\<lambda>i. (vs_byte_pos i, unat i mod 8)) ` vs_set s"
          using b kn by (intro image_eqI [of _ _ ?i]) (auto simp: vs_set_def)
      qed
    qed
  qed
  finally show ?thesis .
qed

interpretation vs: finite_set_impl vs_valid vs_set vs_zero vs_insert vs_remove vs_contains vs_len
  by unfold_locales
    (simp_all add: set_insert set_remove set_zero contains_bit len_card,
     simp_all add: vs_valid_def vs_zero_def vs_insert_def vs_remove_def vs_set_def)

lemma bitor_prefix:
  "k \<le> length s \<Longrightarrow>
     length (fold (\<lambda>i res. res[i := (res ! i) OR (t ! i)]) [0..<k] s) = length s \<and>
     (\<forall>j < length s. fold (\<lambda>i res. res[i := (res ! i) OR (t ! i)]) [0..<k] s ! j =
        (if j < k then (s ! j) OR (t ! j) else s ! j))"
  by (induction k) (auto simp: nth_list_update less_Suc_eq)

lemma set_bitor: "vs_valid s \<Longrightarrow> vs_set (vs_bitor s t) = vs_set s \<union> vs_set t"
  using bitor_prefix [of "length s" s t]
  by (auto simp: vs_valid_def vs_set_def vs_bitor_def bit_or_iff)

lemma bitor_valid: "vs_valid s \<Longrightarrow> vs_valid (vs_bitor s t)"
  using bitor_prefix [of "length s" s t] by (simp add: vs_valid_def vs_bitor_def)

lemma contains_set: "vs_contains s i \<longleftrightarrow> i \<in> vs_set s"
  by (simp add: contains_bit vs_set_def)

lemma contains_collect: "vs_contains (fold (\<lambda>e. vs_insert (f e)) es vs_zero) i \<longleftrightarrow> i \<in> f ` set es"
proof -
  have "fold (\<lambda>e. vs_insert (f e)) es vs_zero = fold vs_insert (map f es) vs_zero" by (simp add: fold_map comp_def)
  then show ?thesis by (simp add: contains_set vs.abs_fold vs.valid_empty vs.abs_empty)
qed

subsection \<open>Properties\<close>

text \<open>C28. A \<open>VoteSet\<close> into which peers are inserted is the set of these peers: its length counts
  the different ones, membership and removal are those of the set, and the union of two is
  computed bit by bit.\<close>

theorem vote_set_is_set:
  "vs_len (fold vs_insert ps vs_zero) = card (set ps) \<and>
   (vs_contains (fold vs_insert ps vs_zero) i \<longleftrightarrow> i \<in> set ps) \<and>
   vs_len (vs_remove i (fold vs_insert ps vs_zero)) = card (set ps - {i}) \<and>
   (vs_is_empty (fold vs_insert ps vs_zero) \<longleftrightarrow> ps = []) \<and>
   (vs_contains (vs_bitor (fold vs_insert ps vs_zero) (fold vs_insert qs vs_zero)) i \<longleftrightarrow>
      i \<in> set ps \<union> set qs)"
proof -
  have v: "vs_valid (fold vs_insert ps vs_zero)" "vs_valid (fold vs_insert qs vs_zero)"
    by (simp_all add: vs.valid_fold vs.valid_empty)
  have a: "vs_set (fold vs_insert ps vs_zero) = set ps" "vs_set (fold vs_insert qs vs_zero) = set qs"
    by (simp_all add: vs.abs_fold vs.valid_empty vs.abs_empty)
  show ?thesis
    using v a by (simp add: vs.size_collect vs.mem_abs vs.size_card vs.valid_del vs.abs_del
        bitor_valid set_bitor vs_is_empty_def)
qed

end
