(* ===== verification/Peer_Set.thy ===== *)
theory Peer_Set
  imports Vote_Set
begin

section \<open>Sets of peers as sorted vectors\<close>

text \<open>
  \<open>consensus-core/src/peer_set.rs\<close>: a vector of public keys that insertion and removal keep
  sorted, looked up by the binary search of the standard library. The contract \<open>finite_set_impl\<close>
  is interpreted on it; the well-formedness \<open>ps_valid\<close> is that the vector is strictly increasing.
\<close>

type_synonym peer_set = "peer_pubkey list"

text \<open>
  \<open>slice::binary_search\<close>: \<open>base\<close> and \<open>sz\<close> delimit the part still searched; \<open>Inl\<close> is the
  index of a match, \<open>Inr\<close> the position at which the key could be inserted.
\<close>

function search_base :: "('a::linorder) list \<Rightarrow> 'a \<Rightarrow> nat \<Rightarrow> nat \<Rightarrow> nat" where
  "search_base xs x base sz =
     (if sz \<le> 1 then base
      else let half = sz div 2; mid = base + half in
        search_base xs x (if x < xs ! mid then base else mid) (sz - half))"
  by pat_completeness auto
termination by (relation "measure (\<lambda>(_, _, _, sz). sz)") auto

declare search_base.simps [simp del]

definition binary_search :: "('a::linorder) list \<Rightarrow> 'a \<Rightarrow> nat + nat" where
  "binary_search xs x =
     (if xs = [] then Inr 0
      else let base = search_base xs x 0 (length xs) in
        if xs ! base = x then Inl base
        else Inr (base + (if xs ! base < x then 1 else 0)))"

text \<open>\<open>Vec::swap_remove\<close>: the last element takes the place of the removed one.\<close>

definition swap_remove :: "nat \<Rightarrow> 'a list \<Rightarrow> 'a list" where
  "swap_remove i xs = butlast (xs[i := last xs])"

definition ps_new :: peer_set where
  "ps_new = []"

definition ps_insert :: "peer_pubkey \<Rightarrow> peer_set \<Rightarrow> bool \<times> peer_set" where
  "ps_insert k s = (case binary_search s k of
      Inl _ \<Rightarrow> (False, s)
    | Inr _ \<Rightarrow> (True, sort (s @ [k])))"

definition ps_remove :: "peer_pubkey \<Rightarrow> peer_set \<Rightarrow> bool \<times> peer_set" where
  "ps_remove k s = (case binary_search s k of
      Inl i \<Rightarrow> (True, sort (swap_remove i s))
    | Inr _ \<Rightarrow> (False, s))"

definition ps_from_iter :: "peer_pubkey list \<Rightarrow> peer_set" where
  "ps_from_iter ks = sort ks"

definition ps_valid :: "peer_set \<Rightarrow> bool" where
  "ps_valid s \<longleftrightarrow> sorted_wrt (<) s"

subsection \<open>Binary search\<close>

lemma search_base_correct:
  assumes "sorted xs" "0 < sz" "base + sz \<le> length xs"
    and "x \<in> set xs \<Longrightarrow> \<exists>i. base \<le> i \<and> i < base + sz \<and> xs ! i = x"
  shows "search_base xs x base sz < length xs \<and>
    (x \<in> set xs \<longrightarrow> xs ! search_base xs x base sz = x)"
  using assms
proof (induction xs x base sz rule: search_base.induct)
  case (1 xs x base sz)
  show ?case
  proof (cases "sz \<le> 1")
    case True
    then have "search_base xs x base sz = base" by (simp add: search_base.simps)
    moreover have "sz = 1" using True "1.prems" by simp
    ultimately show ?thesis using "1.prems" by (auto simp: less_Suc_eq_le)
  next
    case False
    define half where "half = sz div 2"
    define mid where "mid = base + half"
    define base' where "base' = (if x < xs ! mid then base else mid)"
    have h: "0 < half" "half < sz" using False by (auto simp: half_def)
    have eq: "search_base xs x base sz = search_base xs x base' (sz - half)"
      using False by (subst search_base.simps) (simp add: Let_def half_def mid_def base'_def)
    have "\<exists>i. base' \<le> i \<and> i < base' + (sz - half) \<and> xs ! i = x" if "x \<in> set xs"
    proof -
      from "1.prems"(4) [OF that]
      obtain i where i: "base \<le> i" "i < base + sz" "xs ! i = x" by (elim exE conjE)
      show ?thesis
      proof (cases "x < xs ! mid")
        case True
        have "\<not> mid \<le> i"
        proof
          assume "mid \<le> i"
          then have "xs ! mid \<le> xs ! i" using i "1.prems"(1,3) by (intro sorted_nth_mono) auto
          with True i show False by simp
        qed
        then have "i < base + half" by (simp add: mid_def)
        moreover have "half \<le> sz - half" by (simp add: half_def)
        ultimately show ?thesis using i True by (intro exI [of _ i]) (simp add: base'_def)
      next
        case False
        have "mid < length xs" using h "1.prems"(3) by (simp add: mid_def)
        show ?thesis
        proof (cases "mid \<le> i")
          case True
          then show ?thesis using i False h by (intro exI [of _ i]) (simp add: base'_def mid_def)
        next
          case gt: False
          then have "xs ! i \<le> xs ! mid"
            using \<open>mid < length xs\<close> "1.prems"(1) by (intro sorted_nth_mono) auto
          then have "xs ! mid = x" using False i by simp
          then show ?thesis using False h by (intro exI [of _ mid]) (simp add: base'_def)
        qed
      qed
    qed
    moreover have "base' + (sz - half) \<le> length xs"
      using h "1.prems"(3) by (auto simp: base'_def mid_def)
    ultimately show ?thesis
      unfolding eq using "1.IH" [OF False half_def mid_def] "1.prems"(1) h
      unfolding base'_def by simp
  qed
qed

lemma binary_search_Inl:
  assumes "sorted xs" and "binary_search xs x = Inl i"
  shows "i < length xs \<and> xs ! i = x"
proof -
  have "xs \<noteq> []" using assms(2) by (auto simp: binary_search_def)
  then have "search_base xs x 0 (length xs) < length xs"
    using search_base_correct [of xs "length xs" 0 x] assms(1) by (auto simp: in_set_conv_nth)
  then show ?thesis using assms(2) by (auto simp: binary_search_def Let_def split: if_splits)
qed

lemma binary_search_Inr:
  assumes "sorted xs" and "binary_search xs x = Inr i"
  shows "x \<notin> set xs"
proof
  assume "x \<in> set xs"
  then have "xs ! search_base xs x 0 (length xs) = x"
    using search_base_correct [of xs "length xs" 0 x] assms(1)
    by (metis add_0 in_set_conv_nth le_refl length_pos_if_in_set zero_le)
  then show False
    using assms(2) \<open>x \<in> set xs\<close> by (auto simp: binary_search_def Let_def split: if_splits)
qed

subsection \<open>The sorted vector is a set\<close>

lemma ps_valid_iff: "ps_valid s \<longleftrightarrow> sorted s \<and> distinct s"
  by (simp add: ps_valid_def strict_sorted_iff)

lemma mset_swap_remove: "i < length xs \<Longrightarrow> mset (swap_remove i xs) = mset xs - {#xs ! i#}"
proof -
  assume i: "i < length xs"
  then have ne: "xs \<noteq> []" by auto
  let ?ys = "xs[i := last xs]"
  have "last ?ys = last xs"
    using i ne by (cases "i = length xs - 1") (auto simp: last_list_update last_conv_nth)
  moreover have "?ys \<noteq> []" using ne by simp
  ultimately have "mset ?ys = mset (butlast ?ys) + {#last xs#}"
    by (metis append_butlast_last_id mset.simps(1) mset.simps(2) mset_append)
  moreover have "mset ?ys = add_mset (last xs) (mset xs - {#xs ! i#})"
    using i by (simp add: mset_update)
  ultimately show ?thesis by (simp add: swap_remove_def)
qed

lemma ps_insert_valid: "ps_valid s \<Longrightarrow> ps_valid (snd (ps_insert k s))"
  by (auto simp: ps_insert_def ps_valid_iff dest: binary_search_Inr split: sum.splits)

lemma ps_insert_set: "ps_valid s \<Longrightarrow> set (snd (ps_insert k s)) = insert k (set s)"
  by (auto simp: ps_insert_def ps_valid_iff dest: binary_search_Inl split: sum.splits)

lemma ps_insert_result: "ps_valid s \<Longrightarrow> fst (ps_insert k s) \<longleftrightarrow> k \<notin> set s"
  by (auto simp: ps_insert_def ps_valid_iff dest: binary_search_Inl binary_search_Inr
      split: sum.splits)

lemma ps_remove_mset:
  "ps_valid s \<Longrightarrow> mset (snd (ps_remove k s)) = mset s - {#k#}"
proof (cases "binary_search s k")
  case (Inl i)
  assume "ps_valid s"
  then have "i < length s" "s ! i = k"
    using binary_search_Inl [OF _ Inl] by (auto simp: ps_valid_iff)
  then show ?thesis using Inl by (simp add: ps_remove_def mset_swap_remove)
next
  case (Inr i)
  assume "ps_valid s"
  then have "k \<notin> set s" using binary_search_Inr [OF _ Inr] by (simp add: ps_valid_iff)
  then show ?thesis using Inr by (simp add: ps_remove_def diff_single_trivial)
qed

lemma ps_remove_sorted: "ps_valid s \<Longrightarrow> sorted (snd (ps_remove k s))"
  by (auto simp: ps_remove_def ps_valid_iff split: sum.splits)

lemma ps_remove_valid: "ps_valid s \<Longrightarrow> ps_valid (snd (ps_remove k s))"
proof -
  assume v: "ps_valid s"
  have "distinct (snd (ps_remove k s))"
    using ps_remove_mset [OF v, of k] v
    by (metis ps_valid_iff distinct_remove1 mset_remove1 mset_eq_imp_distinct_iff)
  then show ?thesis using ps_remove_sorted [OF v] by (simp add: ps_valid_iff)
qed

lemma ps_remove_set: "ps_valid s \<Longrightarrow> set (snd (ps_remove k s)) = set s - {k}"
proof -
  assume v: "ps_valid s"
  have "set (snd (ps_remove k s)) = set (remove1 k s)"
    using ps_remove_mset [OF v, of k] by (metis mset_remove1 mset_eq_setD)
  then show ?thesis using v by (simp add: ps_valid_iff)
qed

lemma ps_remove_result: "ps_valid s \<Longrightarrow> fst (ps_remove k s) \<longleftrightarrow> k \<in> set s"
  by (auto simp: ps_remove_def ps_valid_iff dest: binary_search_Inl binary_search_Inr
      split: sum.splits)

interpretation ps: finite_set_impl ps_valid set ps_new "\<lambda>k s. snd (ps_insert k s)"
    "\<lambda>k s. snd (ps_remove k s)" "\<lambda>s k. k \<in> set s" length
  by unfold_locales
    (simp_all add: ps_insert_valid ps_insert_set ps_remove_valid ps_remove_set,
     simp_all add: ps_new_def ps_valid_iff distinct_card)

lemma ps_from_iter_props:
  "sorted (ps_from_iter ks)" "set (ps_from_iter ks) = set ks"
  "length (ps_from_iter ks) = length ks"
  by (simp_all add: ps_from_iter_def)

subsection \<open>Properties\<close>

text \<open>The binary search on which \<open>PeerSet\<close> relies finds a key of a sorted vector exactly when
  it is there, and then returns an index that holds it.\<close>

lemma binary_search_correct:
  fixes xs :: "peer_pubkey list"
  assumes "sorted xs"
  shows "case binary_search xs x of Inl i \<Rightarrow> i < length xs \<and> xs ! i = x | Inr _ \<Rightarrow> x \<notin> set xs"
  using binary_search_Inl [OF assms] binary_search_Inr [OF assms] by (auto split: sum.splits)

text \<open>C31. Inserting into and removing from a \<open>PeerSet\<close> keeps it strictly sorted, changes the set of
  its peers accordingly, and reports whether it changed.\<close>

theorem peer_set_operations:
  assumes "ps_valid s"
  shows "ps_valid (snd (ps_insert k s)) \<and> set (snd (ps_insert k s)) = insert k (set s) \<and>
    (fst (ps_insert k s) \<longleftrightarrow> k \<notin> set s) \<and>
    ps_valid (snd (ps_remove k s)) \<and> set (snd (ps_remove k s)) = set s - {k} \<and>
    (fst (ps_remove k s) \<longleftrightarrow> k \<in> set s) \<and>
    length (snd (ps_insert k s)) = (if k \<in> set s then length s else Suc (length s)) \<and>
    length (snd (ps_remove k s)) = (if k \<in> set s then length s - 1 else length s)"
  using assms
  by (simp add: ps_insert_valid ps_insert_set ps_insert_result ps_remove_valid ps_remove_set
      ps_remove_result ps.size_ins ps.size_del)

theorem peer_set_operations_witness:
  "ps_valid [2, 5 :: peer_pubkey] \<and> set (snd (ps_insert 3 [2, 5 :: peer_pubkey])) = {2, 3, 5}"
proof -
  have "ps_valid [2, 5 :: peer_pubkey]" by (simp add: ps_valid_def)
  with peer_set_operations [of "[2, 5]" 3] show ?thesis by auto
qed

end
