(* ===== verification/Block.thy ===== *)
theory Block
  imports Peer_Set
begin

section \<open>Blocks and consensus parameters\<close>

text \<open>
  \<open>consensus-core/src/block.rs\<close>, \<open>consensus_params.rs\<close>, \<open>ver.rs\<close>, \<open>bincode.rs\<close> and the index types
  of \<open>module.rs\<close>. Hashing, signature checking and the byte encodings come from the crates
  \<open>blake3\<close>, \<open>ed25519_dalek\<close> and \<open>bincode\<close>; they are the fields of the record \<open>crypto\<close>, an argument
  of every definition that hashes, signs or encodes.
\<close>

type_synonym block_round = "64 word"
type_synonym timestamp = "64 word"
type_synonym block_seq = "32 word"
type_synonym payload_len = "32 word"
type_synonym params_len = "32 word"
type_synonym hash = "256 word"
type_synonym signature = "512 word"
type_synonym peer_seckey = "256 word"
type_synonym payload = "byte list"

datatype consensus_version = ConsensusVersion (major: "16 word") (minor: "16 word")

text \<open>The derived order of \<open>ConsensusVersion\<close>: major first, then minor.\<close>

definition version_le :: "consensus_version \<Rightarrow> consensus_version \<Rightarrow> bool" where
  "version_le v w \<longleftrightarrow> major v < major w \<or> major v = major w \<and> minor v \<le> minor w"

lemma version_le_order:
  "version_le v v" "version_le v w \<Longrightarrow> version_le w x \<Longrightarrow> version_le v x"
  "version_le v w \<Longrightarrow> version_le w v \<Longrightarrow> v = w" "version_le v w \<or> version_le w v"
  unfolding version_le_def by (auto intro: consensus_version.expand)

instantiation consensus_version :: linorder
begin

definition less_eq_consensus_version :: "consensus_version \<Rightarrow> consensus_version \<Rightarrow> bool" where
  "less_eq_consensus_version = version_le"

definition less_consensus_version :: "consensus_version \<Rightarrow> consensus_version \<Rightarrow> bool" where
  "less_consensus_version v w \<longleftrightarrow> version_le v w \<and> \<not> version_le w v"

instance
  using version_le_order
  by intro_classes (auto simp: less_consensus_version_def less_eq_consensus_version_def)

end

record consensus_params =
  consensus_params_format_version :: "8 word"
  init_core_module_cons_version :: consensus_version
  cp_timestamp :: timestamp
  schedule_round :: block_round
  apply_round :: block_round
  prev_mid_block :: "(block_round \<times> hash) option"
  peers :: peer_set

record block_header =
  header_version :: "8 word"
  padding :: "24 word"
  bh_seq :: block_seq
  bh_round :: block_round
  bh_timestamp :: timestamp
  bh_payload_len :: payload_len
  consensus_params_len :: params_len
  prev_block_hash :: hash
  consensus_params_hash :: hash
  payload_hash :: hash

text \<open>
  The third-party functions: \<open>blake3\<close> of a byte string, the encodings that \<open>bincode\<close> derives for
  the hashed types and the decoding of parameters, \<open>VerifyingKey::from_bytes\<close>, \<open>verify_strict\<close>
  and \<open>SigningKey::sign\<close> of \<open>ed25519_dalek\<close>.
\<close>

record crypto =
  blake3 :: "byte list \<Rightarrow> hash"
  enc_header :: "block_header \<Rightarrow> byte list"
  enc_params :: "consensus_params \<Rightarrow> byte list"
  dec_params :: "byte list \<Rightarrow> consensus_params option"
  enc_round :: "block_round \<Rightarrow> byte list"
  enc_finality :: "block_round \<Rightarrow> byte list"
  verifying_key_ok :: "peer_pubkey \<Rightarrow> bool"
  verify_strict :: "peer_pubkey \<Rightarrow> hash \<Rightarrow> signature \<Rightarrow> bool"
  sign :: "peer_seckey \<Rightarrow> hash \<Rightarrow> signature"

subsection \<open>Rounds\<close>

definition leader_idx :: "crypto \<Rightarrow> block_round \<Rightarrow> num_peers \<Rightarrow> ('e, peer_idx) res" where
  "leader_idx cr r n =
     (if total n = 0 then Panic ''attempt to divide by zero''
      else Ok (of_nat (unat (blake3 cr (enc_round cr r)) mod total n)))"

definition half :: "block_round \<Rightarrow> block_round" where
  "half r = r div 2"

subsection \<open>Payloads\<close>

definition payload_hash_of :: "crypto \<Rightarrow> payload \<Rightarrow> hash" where
  "payload_hash_of cr p = blake3 cr p"

definition raw_len :: "byte list \<Rightarrow> ('e, 32 word) res" where
  "raw_len p = expect ''Can't fail'' (if length p < 2 ^ 32 then Some (of_nat (length p)) else None)"

definition payload_empty :: payload where
  "payload_empty = []"

subsection \<open>Consensus parameters\<close>

definition FORMAT_VERSION :: "8 word" where
  "FORMAT_VERSION = 0"

definition CONSENSUS_PARAMS_CORE_APPLY_DELAY_BASE :: "64 word" where
  "CONSENSUS_PARAMS_CORE_APPLY_DELAY_BASE = 32"

definition num_peers :: "consensus_params \<Rightarrow> ('e, num_peers) res" where
  "num_peers p = to_num_peers (peers p)"

definition consensus_params_schedulign_delay :: "consensus_params \<Rightarrow> ('e, 64 word) res" where
  "consensus_params_schedulign_delay p =
     res_bind (num_peers p) (\<lambda>n. Ok (of_nat (total n) + CONSENSUS_PARAMS_CORE_APPLY_DELAY_BASE))"

definition make_change ::
  "consensus_params \<Rightarrow> block_round \<Rightarrow> timestamp \<Rightarrow> peer_set \<Rightarrow> (block_round \<times> hash) option \<Rightarrow>
     ('e, consensus_params) res" where
  "make_change p sched ts ps mid =
     res_bind (consensus_params_schedulign_delay p) (\<lambda>delay.
     res_bind (expect ''Can't ran out of u64 of rounds'' (checked_add sched delay)) (\<lambda>apply_r.
       Ok (p\<lparr>peers := ps, cp_timestamp := ts, prev_mid_block := mid,
             schedule_round := sched, apply_round := apply_r\<rparr>)))"

definition params_leader_idx :: "crypto \<Rightarrow> consensus_params \<Rightarrow> block_round \<Rightarrow> ('e, peer_idx) res"
  where "params_leader_idx cr p r = res_bind (num_peers p) (leader_idx cr r)"

definition params_hash :: "crypto \<Rightarrow> consensus_params \<Rightarrow> hash" where
  "params_hash cr p = blake3 cr (enc_params cr p)"

definition to_raw :: "crypto \<Rightarrow> consensus_params \<Rightarrow> byte list" where
  "to_raw cr p = enc_params cr p"

definition params_len :: "crypto \<Rightarrow> consensus_params \<Rightarrow> ('e, params_len) res" where
  "params_len cr p = raw_len (to_raw cr p)"

definition hash_and_len :: "crypto \<Rightarrow> consensus_params \<Rightarrow> ('e, hash \<times> params_len) res" where
  "hash_and_len cr p =
     (let raw = to_raw cr p; h = blake3 cr raw in
      res_bind (raw_len raw) (\<lambda>len. Ok (h, len)))"

datatype params_decode_error = Bincode | MismatchedFormatVersion "8 word"

definition from_raw :: "crypto \<Rightarrow> byte list \<Rightarrow> (params_decode_error, consensus_params) res" where
  "from_raw cr raw = (case dec_params cr raw of
      None \<Rightarrow> Err Bincode
    | Some p \<Rightarrow> if consensus_params_format_version p \<noteq> 0
        then Err (MismatchedFormatVersion (consensus_params_format_version p)) else Ok p)"

text \<open>
  The iterators over the peers number them with \<open>u8::try_from(i).expect\<close>; \<open>find\<close> stops at the
  first match.
\<close>

definition peer_idx_of_pos :: "nat \<Rightarrow> ('e, peer_idx) res" where
  "peer_idx_of_pos i = expect ''Can't overflow'' (if i < 256 then Some (of_nat i) else None)"

fun find_pos :: "'a \<Rightarrow> 'a list \<Rightarrow> nat option" where
  "find_pos x [] = None"
| "find_pos x (y # ys) = (if y = x then Some 0 else map_option Suc (find_pos x ys))"

definition find_peer_idx :: "consensus_params \<Rightarrow> peer_pubkey \<Rightarrow> ('e, peer_idx option) res" where
  "find_peer_idx p k = (case find_pos k (peers p) of
      None \<Rightarrow> Ok None
    | Some i \<Rightarrow> res_bind (peer_idx_of_pos i) (\<lambda>j. Ok (Some j)))"

definition iter_peers :: "consensus_params \<Rightarrow> ('e, (peer_idx \<times> peer_pubkey) list) res" where
  "iter_peers p = res_fold (\<lambda>(i, k) acc. res_bind (peer_idx_of_pos i) (\<lambda>j. Ok (acc @ [(j, k)])))
     (enumerate 0 (peers p)) []"

subsection \<open>Block headers\<close>

definition header_hash :: "crypto \<Rightarrow> block_header \<Rightarrow> hash" where
  "header_hash cr h = blake3 cr (enc_header cr h)"

definition header_new ::
  "crypto \<Rightarrow> block_header option \<Rightarrow> timestamp \<Rightarrow> block_round \<Rightarrow> consensus_params \<Rightarrow> payload \<Rightarrow>
     ('e, block_header) res" where
  "header_new cr prev ts r params p =
     res_bind (raw_len p) (\<lambda>plen.
     res_bind (params_len cr params) (\<lambda>clen.
       Ok \<lparr>header_version = 0, padding = 0,
           bh_seq = (case prev of Some q \<Rightarrow> arr_next_wrapping (bh_seq q) | None \<Rightarrow> 0),
           bh_round = r, bh_timestamp = ts, bh_payload_len = plen, consensus_params_len = clen,
           prev_block_hash = (case prev of Some q \<Rightarrow> header_hash cr q | None \<Rightarrow> 0),
           consensus_params_hash = params_hash cr params, payload_hash = payload_hash_of cr p\<rparr>))"

definition new_dummy :: "crypto \<Rightarrow> block_round \<Rightarrow> consensus_params \<Rightarrow> ('e, block_header) res" where
  "new_dummy cr r params =
     res_bind (hash_and_len cr params) (\<lambda>(chash, clen).
       Ok \<lparr>header_version = 0, padding = 0, bh_seq = 0, bh_round = r, bh_timestamp = 0,
           bh_payload_len = 0, consensus_params_len = clen, prev_block_hash = 0,
           consensus_params_hash = chash, payload_hash = 0\<rparr>)"

definition is_dummy :: "block_header \<Rightarrow> bool" where
  "is_dummy h \<longleftrightarrow>
     bh_seq h = 0 \<and> prev_block_hash h = 0 \<and> payload_hash h = 0 \<and> bh_payload_len h = 0"

datatype verify_with_content_error =
  PayloadHashMismatch | PayloadLenMismatch | ConsensusHashMismatch | UnknownVersion
| ConsensusLenMismatch | ConsensusVersionMismatch

definition verify_with_content ::
  "crypto \<Rightarrow> block_header \<Rightarrow> hash \<Rightarrow> params_len \<Rightarrow> payload \<Rightarrow> (verify_with_content_error, unit) res"
  where
  "verify_with_content cr h chash clen p =
     res_bind (raw_len p) (\<lambda>plen.
     res_bind
       (if is_dummy h then ensure (plen = 0) PayloadLenMismatch
        else res_bind (ensure (payload_hash_of cr p = payload_hash h) PayloadHashMismatch) (\<lambda>_.
          ensure (plen = bh_payload_len h) PayloadLenMismatch)) (\<lambda>_.
     res_bind (ensure (header_version h = 0) UnknownVersion) (\<lambda>_.
     res_bind (ensure (consensus_params_hash h = chash) ConsensusHashMismatch) (\<lambda>_.
     ensure (consensus_params_len h = clen) ConsensusLenMismatch))))"

definition does_directly_extend :: "crypto \<Rightarrow> block_header \<Rightarrow> block_header option \<Rightarrow> bool" where
  "does_directly_extend cr h prev = (case prev of
      Some q \<Rightarrow> arr_next_wrapping (bh_seq q) = bh_seq h \<and> bh_round q < bh_round h
        \<and> header_hash cr q = prev_block_hash h
    | None \<Rightarrow> bh_seq h = 0 \<and> prev_block_hash h = 0)"

subsection \<open>Lemmas\<close>

lemma raw_len_Ok_iff [res_simps]:
  "raw_len p = Ok n \<longleftrightarrow> length p < 2 ^ 32 \<and> n = of_nat (length p)"
  by (auto simp: raw_len_def res_simps)

lemma raw_len_Nil [simp]: "raw_len [] = Ok 0"
  by (simp add: raw_len_def)

lemma num_peers_Ok_iff [res_simps]:
  "num_peers p = Ok n \<longleftrightarrow> length (peers p) \<le> 255 \<and> n = of_nat (length (peers p))"
  by (simp add: num_peers_def to_num_peers_Ok_iff)

lemma total_of_num_peers: "num_peers p = Ok n \<Longrightarrow> total n = length (peers p)"
  by (simp add: num_peers_def total_to_num_peers)

lemma total_of_nat [simp]: "k \<le> 255 \<Longrightarrow> total (of_nat k) = k"
  by (simp add: total_def unat_of_nat)

lemma params_len_eq: "params_len cr p = raw_len (enc_params cr p)"
  by (simp add: params_len_def to_raw_def)

lemma params_len_Ok_iff [res_simps]:
  "params_len cr p = Ok n \<longleftrightarrow> length (enc_params cr p) < 2 ^ 32 \<and> n = of_nat (length (enc_params cr p))"
  by (simp add: params_len_eq raw_len_Ok_iff)

lemma hash_and_len_Ok_iff [res_simps]:
  "hash_and_len cr p = Ok hl \<longleftrightarrow> length (enc_params cr p) < 2 ^ 32 \<and>
     hl = (params_hash cr p, of_nat (length (enc_params cr p)))"
  by (cases hl) (auto simp: hash_and_len_def params_hash_def to_raw_def res_simps Let_def)

lemma new_dummy_Ok_iff [res_simps]:
  "new_dummy cr r p = Ok h \<longleftrightarrow> length (enc_params cr p) < 2 ^ 32 \<and>
     h = \<lparr>header_version = 0, padding = 0, bh_seq = 0, bh_round = r, bh_timestamp = 0,
       bh_payload_len = 0, consensus_params_len = of_nat (length (enc_params cr p)),
       prev_block_hash = 0, consensus_params_hash = params_hash cr p, payload_hash = 0\<rparr>"
  by (auto simp: new_dummy_def res_simps)

lemma new_dummy_is_dummy: "new_dummy cr r p = Ok h \<Longrightarrow> is_dummy h \<and> bh_round h = r"
  by (auto simp: res_simps is_dummy_def)

lemma header_new_Ok_iff [res_simps]:
  "header_new cr prev ts r params p = Ok h \<longleftrightarrow>
     length p < 2 ^ 32 \<and> length (enc_params cr params) < 2 ^ 32 \<and>
     h = \<lparr>header_version = 0, padding = 0,
           bh_seq = (case prev of Some q \<Rightarrow> arr_next_wrapping (bh_seq q) | None \<Rightarrow> 0),
           bh_round = r, bh_timestamp = ts, bh_payload_len = of_nat (length p),
           consensus_params_len = of_nat (length (enc_params cr params)),
           prev_block_hash = (case prev of Some q \<Rightarrow> header_hash cr q | None \<Rightarrow> 0),
           consensus_params_hash = params_hash cr params, payload_hash = payload_hash_of cr p\<rparr>"
  by (auto simp: header_new_def res_simps)

lemma of_nat_len_zero: "length p < 2 ^ 32 \<Longrightarrow> (of_nat (length p) :: 32 word) = 0 \<longleftrightarrow> p = []"
proof -
  assume "length p < 2 ^ 32"
  then have "unat (of_nat (length p) :: 32 word) = length p" by (simp add: unat_of_nat)
  then show ?thesis using unat_0_iff [of "of_nat (length p) :: 32 word"] by auto
qed

lemma verify_with_content_Ok_iff [res_simps]:
  "verify_with_content cr h chash clen p = Ok u \<longleftrightarrow>
     length p < 2 ^ 32 \<and>
     (if is_dummy h then p = []
      else payload_hash_of cr p = payload_hash h \<and> bh_payload_len h = of_nat (length p)) \<and>
     header_version h = 0 \<and> consensus_params_hash h = chash \<and> consensus_params_len h = clen"
  using of_nat_len_zero [of p]
  by (auto simp: verify_with_content_def res_simps split: if_splits)

lemma find_pos_Some_iff:
  "find_pos x xs = Some i \<longleftrightarrow> i < length xs \<and> xs ! i = x \<and> (\<forall>j < i. xs ! j \<noteq> x)"
proof (induction xs arbitrary: i)
  case (Cons y ys)
  show ?case
    using Cons by (cases i) (auto simp: All_less_Suc2 nth_Cons')
qed simp

lemma find_pos_None_iff: "find_pos x xs = None \<longleftrightarrow> x \<notin> set xs"
  by (induction xs) auto

lemma make_change_Ok_iff [res_simps]:
  "make_change p sched ts ps mid = Ok q \<longleftrightarrow>
     length (peers p) \<le> 255 \<and> unat sched + length (peers p) + 32 < 2 ^ 64 \<and>
     q = p\<lparr>peers := ps, cp_timestamp := ts, prev_mid_block := mid, schedule_round := sched,
           apply_round := sched + (of_nat (length (peers p)) + 32)\<rparr>"
proof -
  have "unat (of_nat (length (peers p)) + 32 :: 64 word) = length (peers p) + 32"
    if "length (peers p) \<le> 255"
    using that by (simp add: unat_word_ariths unat_of_nat)
  then show ?thesis
    by (auto simp: make_change_def consensus_params_schedulign_delay_def
        CONSENSUS_PARAMS_CORE_APPLY_DELAY_BASE_def res_simps checked_add_Some_iff add.assoc)
qed

lemma leader_idx_less: "leader_idx cr r n = Ok i \<Longrightarrow> unat i < total n"
proof -
  assume "leader_idx cr r n = Ok i"
  then have n: "total n \<noteq> 0" and i: "i = of_nat (unat (blake3 cr (enc_round cr r)) mod total n)"
    by (auto simp: leader_idx_def split: if_splits)
  have "unat (blake3 cr (enc_round cr r)) mod total n < total n" using n by simp
  moreover have "total n \<le> 255" by (rule total_le)
  ultimately show ?thesis unfolding i by (simp add: unat_of_nat)
qed

subsection \<open>Properties\<close>

text \<open>A header made by the builder passes every check that its receivers make: it verifies
  against its parameters and payload, extends the block it was built on (when the round is later),
  and commits to the successor of its sequence number.\<close>

lemma header_new_verifies:
  assumes "header_new cr prev ts r params p = Ok h"
    and "\<And>q. prev = Some q \<Longrightarrow> bh_round q < r"
  shows "verify_with_content cr h (params_hash cr params) (of_nat (length (enc_params cr params))) p = Ok ()
    \<and> does_directly_extend cr h prev \<and> bh_round h = r"
  using assms of_nat_len_zero [of p]
  by (auto simp: header_new_Ok_iff verify_with_content_Ok_iff does_directly_extend_def is_dummy_def
      payload_hash_of_def split: option.splits)

text \<open>A stand-in for the third-party functions, used to evaluate closed instances.\<close>

definition test_crypto :: crypto where
  "test_crypto = \<lparr>blake3 = (\<lambda>bs. of_nat (length bs) + 1), enc_header = (\<lambda>h. []),
     enc_params = (\<lambda>p. []), dec_params = (\<lambda>bs. None), enc_round = (\<lambda>r. replicate (unat r) 0),
     enc_finality = (\<lambda>r. []), verifying_key_ok = (\<lambda>k. True), verify_strict = (\<lambda>k h s. True),
     sign = (\<lambda>k h. 0)\<rparr>"

definition test_params :: "peer_set \<Rightarrow> consensus_params" where
  "test_params ps = \<lparr>consensus_params_format_version = 0,
     init_core_module_cons_version = ConsensusVersion 0 0, cp_timestamp = 0, schedule_round = 0,
     apply_round = 0, prev_mid_block = None, peers = ps\<rparr>"

lemmas test_crypto_simps [simp] = test_crypto_def [THEN arg_cong [of _ _ blake3], simplified]
  test_crypto_def [THEN arg_cong [of _ _ enc_header], simplified]
  test_crypto_def [THEN arg_cong [of _ _ enc_params], simplified]
  test_crypto_def [THEN arg_cong [of _ _ enc_round], simplified]
  test_crypto_def [THEN arg_cong [of _ _ enc_finality], simplified]
  test_crypto_def [THEN arg_cong [of _ _ verifying_key_ok], simplified]
  test_crypto_def [THEN arg_cong [of _ _ verify_strict], simplified]

text \<open>The dummy block of a round is recognised as dummy and passes the content check of its
  receivers with the empty payload, and with no other.\<close>

lemma new_dummy_verifies:
  assumes "new_dummy cr r params = Ok h"
  shows "is_dummy h \<and> bh_round h = r \<and>
    (verify_with_content cr h (params_hash cr params) (of_nat (length (enc_params cr params))) p = Ok ()
      \<longleftrightarrow> p = payload_empty)"
  using assms by (auto simp: new_dummy_Ok_iff verify_with_content_Ok_iff is_dummy_def payload_empty_def)

text \<open>\<open>make_change\<close> schedules the new parameters one delay after the round in which they were
  decided: the number of peers plus 32 rounds, strictly later, without wrap-around; it panics when the
  64-bit rounds run out.\<close>

lemma make_change_delay:
  assumes "length (peers p) \<le> 255"
  shows "(\<forall>q. make_change p sched ts ps mid = (Ok q :: ('e, _) res) \<longrightarrow>
       unat (apply_round q) = unat sched + length (peers p) + 32 \<and> sched < apply_round q \<and>
       peers q = ps \<and> schedule_round q = sched) \<and>
    ((\<exists>q. make_change p sched ts ps mid = (Ok q :: ('e, _) res)) \<longleftrightarrow>
       unat sched + length (peers p) + 32 < 2 ^ 64)"
proof -
  let ?n = "length (peers p)"
  have n: "unat (of_nat ?n + 32 :: 64 word) = ?n + 32"
    using assms by (simp add: unat_word_ariths unat_of_nat)
  have "unat (sched + (of_nat ?n + 32)) = unat sched + ?n + 32" if "unat sched + ?n + 32 < 2 ^ 64"
    using that n by (simp add: unat_word_ariths(1) [of sched])
  then show ?thesis
    using assms by (auto simp: make_change_Ok_iff word_less_nat_alt)
qed

text \<open>The leader of a round is one of the peers, and every node with the same parameters
  computes the same one; a round has no leader only when there is no peer.\<close>

lemma leader_is_peer:
  assumes "length (peers p) \<le> 255"
  shows "case params_leader_idx cr p r :: ('e, _) res of
      Ok i \<Rightarrow> unat i < length (peers p) | Err _ \<Rightarrow> False | Panic _ \<Rightarrow> peers p = []"
proof -
  have np: "num_peers p = (Ok (of_nat (length (peers p))) :: ('e, _) res)"
    using assms by (simp add: num_peers_Ok_iff)
  show ?thesis
  proof (cases "peers p = []")
    case True
    then show ?thesis by (simp add: params_leader_idx_def num_peers_def to_num_peers_def leader_idx_def total_def)
  next
    case False
    then obtain i where i: "leader_idx cr r (of_nat (length (peers p))) = (Ok i :: ('e, _) res)"
      using assms by (simp add: leader_idx_def)
    from leader_idx_less [OF i] i np assms show ?thesis by (simp add: params_leader_idx_def)
  qed
qed

text \<open>A peer's index and its key determine each other: \<open>find_peer_idx\<close> returns the index of a
  key exactly when the key is among the peers, and the peer at that index is the key.\<close>

lemma find_peer_idx_correct:
  assumes "length (peers p) \<le> 255"
  shows "case find_peer_idx p k :: ('e, _) res of
      Ok None \<Rightarrow> k \<notin> set (peers p)
    | Ok (Some i) \<Rightarrow> unat i < length (peers p) \<and> peers p ! unat i = k
    | _ \<Rightarrow> False"
proof -
  have pos: "peer_idx_of_pos j = (Ok (of_nat j) :: ('e, _) res)" "unat (of_nat j :: peer_idx) = j"
    if "find_pos k (peers p) = Some j" for j
    using that assms by (auto simp: peer_idx_of_pos_def find_pos_Some_iff unat_of_nat)
  show ?thesis
    using pos find_pos_None_iff [of k "peers p"]
    by (auto simp: find_peer_idx_def find_pos_Some_iff split: option.splits)
qed

end
