(* ===== verification/Tables.thy ===== *)
theory Tables
  imports Prelude
begin

section \<open>Ordered key-value tables\<close>

text \<open>
  Every piece of persistent state of the program is a table declared with \<open>def_table!\<close>
  (\<open>util-db/src/lib.rs\<close>): a finite map from keys to values, read in key order by \<open>range\<close>.
  The interface the code relies on is the locale \<open>ordered_table\<close>: the documented behaviour of
  \<open>get\<close>, \<open>insert\<close>, \<open>remove\<close>, \<open>retain\<close> and of an ordered scan. The lemmas on the first and the
  last entry of a range and on the number of entries of a range are proved once inside it.
  The model of the state is the type \<open>table\<close> of association lists with strictly increasing keys,
  on which the locale is interpreted.
\<close>

subsection \<open>Scans of a key-ordered list of entries\<close>

definition range_entries :: "('k \<Rightarrow> bool) \<Rightarrow> ('k \<times> 'v) list \<Rightarrow> ('k \<times> 'v) list" where
  "range_entries p xs = filter (\<lambda>e. p (fst e)) xs"

definition first_entry :: "('k \<Rightarrow> bool) \<Rightarrow> ('k \<times> 'v) list \<Rightarrow> ('k \<times> 'v) option" where
  "first_entry p xs = (case range_entries p xs of [] \<Rightarrow> None | e # _ \<Rightarrow> Some e)"

definition last_entry :: "('k \<Rightarrow> bool) \<Rightarrow> ('k \<times> 'v) list \<Rightarrow> ('k \<times> 'v) option" where
  "last_entry p xs = (case range_entries p xs of [] \<Rightarrow> None | e # es \<Rightarrow> Some (last (e # es)))"

lemma sorted_keys_filter:
  "sorted_wrt (<) (map fst xs) \<Longrightarrow> sorted_wrt (<) (map fst (filter P xs))"
  by (induction xs) auto

lemma sorted_keys_distinct:
  "sorted_wrt (<) (map fst xs) \<Longrightarrow> distinct (map fst xs)" for xs :: "('k::linorder \<times> 'v) list"
  using strict_sorted_iff by blast

lemma last_greatest:
  "sorted_wrt (<) (map fst (xs :: ('k::linorder \<times> 'v) list)) \<Longrightarrow> xs \<noteq> [] \<Longrightarrow> e \<in> set xs \<Longrightarrow>
     fst e \<le> fst (last xs)"
  by (induction xs) (auto simp: less_imp_le)

lemma first_entry_eq_Some:
  assumes "sorted_wrt (<) (map fst (xs :: ('k::linorder \<times> 'v) list))"
  shows "first_entry p xs = Some (k, v) \<longleftrightarrow>
    (k, v) \<in> set xs \<and> p k \<and> (\<forall>e \<in> set xs. p (fst e) \<longrightarrow> k \<le> fst e)"
proof (cases "range_entries p xs")
  case Nil
  then have "\<forall>e \<in> set xs. \<not> p (fst e)" by (simp add: range_entries_def filter_empty_conv)
  with Nil show ?thesis by (force simp: first_entry_def)
next
  case (Cons e es)
  have s: "sorted_wrt (<) (map fst (e # es))"
    using sorted_keys_filter [OF assms, of "\<lambda>e. p (fst e)"] Cons by (simp add: range_entries_def)
  have set: "set (e # es) = {x \<in> set xs. p (fst x)}"
    using Cons by (metis range_entries_def set_filter)
  have min: "\<And>x. x \<in> set (e # es) \<Longrightarrow> fst e \<le> fst x" using s by (auto simp: less_imp_le)
  have d: "distinct (map fst xs)" using assms by (rule sorted_keys_distinct)
  show ?thesis
  proof
    assume "first_entry p xs = Some (k, v)"
    then have "e = (k, v)" using Cons by (simp add: first_entry_def)
    moreover have "e \<in> {x \<in> set xs. p (fst x)}" using set by auto
    ultimately show "(k, v) \<in> set xs \<and> p k \<and> (\<forall>e \<in> set xs. p (fst e) \<longrightarrow> k \<le> fst e)"
      using set min by auto
  next
    assume r: "(k, v) \<in> set xs \<and> p k \<and> (\<forall>e \<in> set xs. p (fst e) \<longrightarrow> k \<le> fst e)"
    then have "k \<le> fst e" "fst e \<le> k" using set min by auto
    then have "fst e = k" by simp
    then have "e = (k, v)"
      using d r set by (metis eq_key_imp_eq_value insertI1 list.simps(15) mem_Collect_eq prod.collapse)
    then show "first_entry p xs = Some (k, v)" using Cons by (simp add: first_entry_def)
  qed
qed

lemma last_entry_eq_Some:
  assumes "sorted_wrt (<) (map fst (xs :: ('k::linorder \<times> 'v) list))"
  shows "last_entry p xs = Some (k, v) \<longleftrightarrow>
    (k, v) \<in> set xs \<and> p k \<and> (\<forall>e \<in> set xs. p (fst e) \<longrightarrow> fst e \<le> k)"
proof (cases "range_entries p xs")
  case Nil
  then have "\<forall>e \<in> set xs. \<not> p (fst e)" by (simp add: range_entries_def filter_empty_conv)
  with Nil show ?thesis by (force simp: last_entry_def)
next
  case (Cons e es)
  let ?l = "last (e # es)"
  have s: "sorted_wrt (<) (map fst (e # es))"
    using sorted_keys_filter [OF assms, of "\<lambda>e. p (fst e)"] Cons by (simp add: range_entries_def)
  have set: "set (e # es) = {x \<in> set xs. p (fst x)}"
    using Cons by (metis range_entries_def set_filter)
  have max: "\<And>x. x \<in> set (e # es) \<Longrightarrow> fst x \<le> fst ?l" using last_greatest [OF s] by blast
  have lin: "?l \<in> set (e # es)" by (metis last_in_set list.distinct(1))
  have d: "distinct (map fst xs)" using assms by (rule sorted_keys_distinct)
  show ?thesis
  proof
    assume "last_entry p xs = Some (k, v)"
    then have "?l = (k, v)" using Cons by (simp add: last_entry_def)
    then show "(k, v) \<in> set xs \<and> p k \<and> (\<forall>e \<in> set xs. p (fst e) \<longrightarrow> fst e \<le> k)"
      using set max lin by auto
  next
    assume r: "(k, v) \<in> set xs \<and> p k \<and> (\<forall>e \<in> set xs. p (fst e) \<longrightarrow> fst e \<le> k)"
    then have "k \<le> fst ?l" "fst ?l \<le> k" using set max lin by auto
    then have "fst ?l = k" by simp
    then have "?l = (k, v)"
      using d r lin set by (metis eq_key_imp_eq_value mem_Collect_eq prod.collapse)
    then show "last_entry p xs = Some (k, v)" using Cons by (simp add: last_entry_def)
  qed
qed

lemma range_entries_eq_Nil: "range_entries p xs = [] \<longleftrightarrow> (\<forall>e \<in> set xs. \<not> p (fst e))"
  by (simp add: range_entries_def filter_empty_conv)

lemma first_entry_eq_None: "first_entry p xs = None \<longleftrightarrow> (\<forall>e \<in> set xs. \<not> p (fst e))"
  unfolding range_entries_eq_Nil [symmetric] by (simp add: first_entry_def split: list.splits)

lemma last_entry_eq_None: "last_entry p xs = None \<longleftrightarrow> (\<forall>e \<in> set xs. \<not> p (fst e))"
  unfolding range_entries_eq_Nil [symmetric] by (simp add: last_entry_def split: list.splits)

subsection \<open>The interface\<close>

locale ordered_table =
  fixes empty :: 't
    and get :: "'t \<Rightarrow> 'k::linorder \<Rightarrow> 'v option"
    and put :: "'k \<Rightarrow> 'v \<Rightarrow> 't \<Rightarrow> 't"
    and del :: "'k \<Rightarrow> 't \<Rightarrow> 't"
    and keep :: "('k \<Rightarrow> 'v \<Rightarrow> bool) \<Rightarrow> 't \<Rightarrow> 't"
    and scan :: "'t \<Rightarrow> ('k \<times> 'v) list"
  assumes get_empty: "get empty k = None"
    and get_put: "get (put k v t) k' = (if k' = k then Some v else get t k')"
    and get_del: "get (del k t) k' = (if k' = k then None else get t k')"
    and get_keep: "get (keep p t) k = (case get t k of None \<Rightarrow> None
        | Some v \<Rightarrow> if p k v then Some v else None)"
    and scan_sorted: "sorted_wrt (<) (map fst (scan t))"
    and scan_get: "(k, v) \<in> set (scan t) \<longleftrightarrow> get t k = Some v"
begin

lemma get_keep_Some: "get (keep p t) k = Some v \<longleftrightarrow> get t k = Some v \<and> p k v"
  by (auto simp: get_keep split: option.splits)

lemma get_keep_None: "get (keep p t) k = None \<longleftrightarrow> (\<forall>v. get t k = Some v \<longrightarrow> \<not> p k v)"
  by (auto simp: get_keep split: option.splits)

lemma dom_scan: "{k. get t k \<noteq> None} = fst ` set (scan t)"
  by (force simp: scan_get [symmetric])

lemma finite_dom: "finite {k. get t k \<noteq> None}"
  by (subst dom_scan) simp

lemma ball_scan: "(\<forall>e \<in> set (scan t). P (fst e)) \<longleftrightarrow> (\<forall>k v. get t k = Some v \<longrightarrow> P k)"
  by (force simp: scan_get [symmetric])

lemma first_Some:
  "first_entry p (scan t) = Some (k, v) \<longleftrightarrow>
     get t k = Some v \<and> p k \<and> (\<forall>k' v'. get t k' = Some v' \<longrightarrow> p k' \<longrightarrow> k \<le> k')"
  using ball_scan [of t "\<lambda>k'. p k' \<longrightarrow> k \<le> k'"]
  by (simp add: first_entry_eq_Some [OF scan_sorted] scan_get)

lemma last_Some:
  "last_entry p (scan t) = Some (k, v) \<longleftrightarrow>
     get t k = Some v \<and> p k \<and> (\<forall>k' v'. get t k' = Some v' \<longrightarrow> p k' \<longrightarrow> k' \<le> k)"
  using ball_scan [of t "\<lambda>k'. p k' \<longrightarrow> k' \<le> k"]
  by (simp add: last_entry_eq_Some [OF scan_sorted] scan_get)

lemma first_None: "first_entry p (scan t) = None \<longleftrightarrow> (\<forall>k v. get t k = Some v \<longrightarrow> \<not> p k)"
  using ball_scan [of t "\<lambda>k. \<not> p k"] by (simp add: first_entry_eq_None)

lemma last_None: "last_entry p (scan t) = None \<longleftrightarrow> (\<forall>k v. get t k = Some v \<longrightarrow> \<not> p k)"
  using ball_scan [of t "\<lambda>k. \<not> p k"] by (simp add: last_entry_eq_None)

lemma range_set: "(k, v) \<in> set (range_entries p (scan t)) \<longleftrightarrow> get t k = Some v \<and> p k"
  by (auto simp: range_entries_def scan_get)

lemma range_sorted: "sorted_wrt (<) (map fst (range_entries p (scan t)))"
  unfolding range_entries_def by (rule sorted_keys_filter) (rule scan_sorted)

lemma range_length: "length (range_entries p (scan t)) = card {k. p k \<and> get t k \<noteq> None}"
proof -
  let ?r = "range_entries p (scan t)"
  have "distinct (map fst ?r)" using range_sorted by (rule sorted_keys_distinct)
  then have "card (fst ` set ?r) = length ?r" by (metis distinct_card length_map list.set_map)
  moreover have "fst ` set ?r = {k. p k \<and> get t k \<noteq> None}"
    using range_set [of _ _ p t] by force
  ultimately show ?thesis by simp
qed

lemma range_map_of: "map_of (range_entries p (scan t)) k = (if p k then get t k else None)"
proof -
  let ?r = "range_entries p (scan t)"
  have d: "distinct (map fst ?r)" using range_sorted by (rule sorted_keys_distinct)
  show ?thesis
  proof (cases "if p k then get t k else None")
    case None
    then have "k \<notin> fst ` set ?r" by (auto simp: range_set split: if_splits)
    then have "map_of ?r k = None" by (simp add: map_of_eq_None_iff)
    with None show ?thesis by simp
  next
    case (Some v)
    then have "(k, v) \<in> set ?r" by (simp add: range_set split: if_splits)
    with d have "map_of ?r k = Some v" by (rule map_of_is_SomeI)
    with Some show ?thesis by simp
  qed
qed

end

subsection \<open>The table type\<close>

typedef (overloaded) ('k, 'v) table =
  "{xs :: ('k::linorder \<times> 'v) list. sorted_wrt (<) (map fst xs)}"
  morphisms entries Table
  by (rule exI [of _ "[]"]) simp

setup_lifting type_definition_table

fun put_entry :: "'k::linorder \<Rightarrow> 'v \<Rightarrow> ('k \<times> 'v) list \<Rightarrow> ('k \<times> 'v) list" where
  "put_entry k v [] = [(k, v)]"
| "put_entry k v ((k', v') # es) =
     (if k < k' then (k, v) # (k', v') # es
      else if k = k' then (k, v) # es
      else (k', v') # put_entry k v es)"

lemma put_entry_keys: "fst ` set (put_entry k v es) = insert k (fst ` set es)"
  by (induction k v es rule: put_entry.induct) auto

lemma put_entry_sorted:
  "sorted_wrt (<) (map fst es) \<Longrightarrow> sorted_wrt (<) (map fst (put_entry k v es))"
proof (induction k v es rule: put_entry.induct)
  case (1 k v)
  then show ?case by simp
next
  case (2 k v k' v' es)
  have ks: "set (map fst (put_entry k v es)) = insert k (fst ` set es)"
    by (simp add: put_entry_keys)
  show ?case using 2 ks by (auto simp: image_iff dest: order.strict_trans)
qed

lemma map_of_put_entry:
  "sorted_wrt (<) (map fst es) \<Longrightarrow>
     map_of (put_entry k v es) k' = (if k' = k then Some v else map_of es k')"
  by (induction k v es rule: put_entry.induct) auto

lift_definition tbl_empty :: "('k::linorder, 'v) table" is "[]" by simp

lift_definition tbl_insert :: "'k::linorder \<Rightarrow> 'v \<Rightarrow> ('k, 'v) table \<Rightarrow> ('k, 'v) table"
  is put_entry by (rule put_entry_sorted)

lift_definition tbl_remove :: "'k::linorder \<Rightarrow> ('k, 'v) table \<Rightarrow> ('k, 'v) table"
  is "\<lambda>k. filter (\<lambda>e. fst e \<noteq> k)" by (rule sorted_keys_filter)

lift_definition tbl_retain :: "('k \<Rightarrow> 'v \<Rightarrow> bool) \<Rightarrow> ('k::linorder, 'v) table \<Rightarrow> ('k, 'v) table"
  is "\<lambda>p. filter (\<lambda>e. p (fst e) (snd e))" by (rule sorted_keys_filter)

definition tbl_get :: "('k::linorder, 'v) table \<Rightarrow> 'k \<Rightarrow> 'v option" where
  "tbl_get t k = map_of (entries t) k"

lemma entries_sorted: "sorted_wrt (<) (map fst (entries t))"
  by transfer

lemma map_of_filter_remove:
  "map_of (filter (\<lambda>e. fst e \<noteq> k) es) k' = (if k' = k then None else map_of es k')"
  by (induction es) auto

lemma map_of_filter_retain:
  "distinct (map fst es) \<Longrightarrow> map_of (filter (\<lambda>e. p (fst e) (snd e)) es) k =
     (case map_of es k of None \<Rightarrow> None | Some v \<Rightarrow> if p k v then Some v else None)"
  by (induction es) (auto split: option.splits simp: map_of_eq_None_iff image_iff)

interpretation tb: ordered_table tbl_empty tbl_get tbl_insert tbl_remove tbl_retain entries
proof (unfold_locales, goal_cases)
  case (1 k)
  show ?case by (simp add: tbl_get_def tbl_empty.rep_eq)
next
  case (2 k v t k')
  show ?case by (simp add: tbl_get_def tbl_insert.rep_eq map_of_put_entry [OF entries_sorted])
next
  case (3 k t k')
  show ?case by (simp add: tbl_get_def tbl_remove.rep_eq map_of_filter_remove)
next
  case (4 p t k)
  show ?case
    using map_of_filter_retain [OF sorted_keys_distinct [OF entries_sorted]]
    by (simp add: tbl_get_def tbl_retain.rep_eq)
next
  case (5 t)
  show ?case by (rule entries_sorted)
next
  case (6 k v t)
  show ?case
    using sorted_keys_distinct [OF entries_sorted, of t] by (simp add: tbl_get_def)
qed

lemmas tbl_simps [simp] = tb.get_empty tb.get_put tb.get_del tb.get_keep_Some

text \<open>Evaluation of closed tables by the simplifier.\<close>

lemmas tbl_eval = tbl_get_def tbl_empty.rep_eq tbl_insert.rep_eq tbl_remove.rep_eq
  tbl_retain.rep_eq first_entry_def last_entry_def range_entries_def

end
