(* ===== verification/Signed_Msg.thy ===== *)
theory Signed_Msg
  imports Block Tables
begin

section \<open>Signed and notarized messages\<close>

text \<open>
  \<open>consensus-core/src/signed.rs\<close> and \<open>consensus-core/src/msg.rs\<close>. The trait \<open>Signable\<close> gives a type a
  hash and a four-byte tag; here a signable value is passed as its hash together with its tag. The
  signatures of a \<open>Notarized\<close> value are a \<open>BTreeMap\<close>, an ordered table keyed by peer index.
\<close>

definition bytes_of_string :: "string \<Rightarrow> byte list" where
  "bytes_of_string s = map of_char s"

definition sign_hash :: "crypto \<Rightarrow> string \<Rightarrow> hash \<Rightarrow> hash" where
  "sign_hash cr tag h =
     blake3 cr (bytes_of_string ''bfte'' @ bytes_of_string tag @ to_be_bytes 32 h)"

definition HEADER_TAG :: string where "HEADER_TAG = ''blhd''"

definition FINALITY_TAG :: string where "FINALITY_TAG = ''furu''"

definition header_sign_hash :: "crypto \<Rightarrow> block_header \<Rightarrow> hash" where
  "header_sign_hash cr h = sign_hash cr HEADER_TAG (header_hash cr h)"

definition finality_sign_hash :: "crypto \<Rightarrow> block_round \<Rightarrow> hash" where
  "finality_sign_hash cr r = sign_hash cr FINALITY_TAG (blake3 cr (enc_finality cr r))"

datatype invalid_signature_error = InvalidSignatureError

definition sign_with :: "crypto \<Rightarrow> hash \<Rightarrow> peer_seckey \<Rightarrow> signature" where
  "sign_with cr sh sk = sign cr sk sh"

definition verify_hash_signature ::
  "crypto \<Rightarrow> hash \<Rightarrow> peer_pubkey \<Rightarrow> signature \<Rightarrow> (invalid_signature_error, unit) res" where
  "verify_hash_signature cr sh k sig =
     (if \<not> verifying_key_ok cr k then Panic ''At this point pubkeys must be valid''
      else ensure (verify_strict cr k sh sig) InvalidSignatureError)"

record 'a signed =
  inner :: 'a
  sig :: signature

definition new_sign :: "crypto \<Rightarrow> ('a \<Rightarrow> hash) \<Rightarrow> 'a \<Rightarrow> peer_seckey \<Rightarrow> 'a signed" where
  "new_sign cr sh x sk = \<lparr>inner = x, sig = sign_with cr (sh x) sk\<rparr>"

text \<open>Indexing a slice out of bounds panics.\<close>

definition index :: "'a list \<Rightarrow> nat \<Rightarrow> ('e, 'a) res" where
  "index xs i = expect ''index out of bounds'' (if i < length xs then Some (xs ! i) else None)"

definition verify_sig_peer_idx ::
  "crypto \<Rightarrow> ('a \<Rightarrow> hash) \<Rightarrow> 'a signed \<Rightarrow> peer_idx \<Rightarrow> peer_pubkey list \<Rightarrow>
     (invalid_signature_error, unit) res" where
  "verify_sig_peer_idx cr sh s i keys =
     res_bind (index keys (unat i)) (\<lambda>k. verify_hash_signature cr (sh (inner s)) k (sig s))"

definition verify_sig_peer_pubkey ::
  "crypto \<Rightarrow> ('a \<Rightarrow> hash) \<Rightarrow> 'a signed \<Rightarrow> peer_pubkey \<Rightarrow> (invalid_signature_error, unit) res" where
  "verify_sig_peer_pubkey cr sh s k = verify_hash_signature cr (sh (inner s)) k (sig s)"

record 'a notarized =
  n_inner :: 'a
  sigs :: "(peer_idx, signature) table"

definition notarized_new :: "'a \<Rightarrow> (peer_idx \<times> signature) list \<Rightarrow> 'a notarized" where
  "notarized_new x ss = \<lparr>n_inner = x, sigs = fold (\<lambda>(i, s). tbl_insert i s) ss tbl_empty\<rparr>"

datatype invalid_notarization_error = NotEnoughSignatures | InvalidPeerSignature peer_idx

definition verify_sigs ::
  "crypto \<Rightarrow> ('a \<Rightarrow> hash) \<Rightarrow> 'a notarized \<Rightarrow> consensus_params \<Rightarrow>
     (invalid_notarization_error, unit) res" where
  "verify_sigs cr sh n params =
     res_bind (num_peers params) (\<lambda>np.
     res_bind (ensure (\<not> length (entries (sigs n)) < threshold np) NotEnoughSignatures) (\<lambda>_.
     let h = sh (n_inner n) in
     res_fold (\<lambda>(i, s) _.
         res_bind (index (peers params) (unat i)) (\<lambda>k.
         map_err (\<lambda>_. InvalidPeerSignature i) (verify_hash_signature cr h k s)))
       (entries (sigs n)) ()))"

subsection \<open>Messages\<close>

datatype wait_vote_response =
  Proposal (proposal_block: "block_header signed") (proposal_payload: payload)
| Vote (vote_block: "block_header signed")

definition response_block :: "wait_vote_response \<Rightarrow> block_header signed" where
  "response_block r = (case r of Proposal b _ \<Rightarrow> b | Vote b \<Rightarrow> b)"

definition is_proposal :: "wait_vote_response \<Rightarrow> bool" where
  "is_proposal r = (case r of Proposal _ _ \<Rightarrow> True | Vote _ \<Rightarrow> False)"

text \<open>The signed request and response bodies of the finality votes and notarized blocks.\<close>

record wait_notarized_block_response =
  wn_block :: "block_header notarized"
  wn_payload :: payload

subsection \<open>Lemmas\<close>

lemma index_Ok_iff [res_simps]: "index xs i = Ok x \<longleftrightarrow> i < length xs \<and> x = xs ! i"
  by (auto simp: index_def res_simps)

lemma index_not_Err [simp]: "index xs i \<noteq> Err e"
  by (simp add: index_def)

lemma verify_hash_signature_Ok_iff [res_simps]:
  "verify_hash_signature cr h k s = Ok u \<longleftrightarrow> verifying_key_ok cr k \<and> verify_strict cr k h s"
  by (auto simp: verify_hash_signature_def res_simps)

text \<open>A signature of the peer with an index, as the verifier sees it.\<close>

definition sig_valid ::
  "crypto \<Rightarrow> peer_pubkey list \<Rightarrow> hash \<Rightarrow> peer_idx \<Rightarrow> signature \<Rightarrow> bool" where
  "sig_valid cr keys h i s \<longleftrightarrow> unat i < length keys \<and> verifying_key_ok cr (keys ! unat i)
     \<and> verify_strict cr (keys ! unat i) h s"

lemma verify_sig_peer_idx_Ok_iff [res_simps]:
  "verify_sig_peer_idx cr sh s i keys = Ok u \<longleftrightarrow> sig_valid cr keys (sh (inner s)) i (sig s)"
  by (auto simp: verify_sig_peer_idx_def sig_valid_def res_simps)

lemma res_fold_unit_Ok_iff:
  "res_fold (\<lambda>x _. f x) xs () = Ok u \<longleftrightarrow> (\<forall>x \<in> set xs. f x = Ok ())"
  by (induction xs) (auto simp: res_simps)

lemma verify_sigs_Ok_iff [res_simps]:
  "verify_sigs cr sh n params = Ok u \<longleftrightarrow>
     length (peers params) \<le> 255 \<and>
     threshold (of_nat (length (peers params))) \<le> length (entries (sigs n)) \<and>
     (\<forall>i s. tbl_get (sigs n) i = Some s \<longrightarrow> sig_valid cr (peers params) (sh (n_inner n)) i s)"
  unfolding verify_sigs_def Let_def split_def res_fold_unit_Ok_iff
  by (auto simp: res_simps res_fold_unit_Ok_iff sig_valid_def not_less simp flip: tb.scan_get)

lemma entries_card: "length (entries t) = card {k. tbl_get t k \<noteq> None}"
  using tb.range_length [of "\<lambda>_. True" t] by (simp add: range_entries_def)

lemma verified_signers:
  assumes "verify_sigs cr sh n params = Ok u"
  shows "{i. tbl_get (sigs n) i \<noteq> None} \<subseteq> {i. unat i < length (peers params)}"
    and "threshold (of_nat (length (peers params))) \<le> card {i. tbl_get (sigs n) i \<noteq> None}"
  using assms by (auto simp: res_simps sig_valid_def entries_card)

text \<open>
  A notarization that verifies carries valid signatures of a quorum, so two of them share more
  peers than may be faulty.
\<close>

lemma notarizations_share_honest:
  assumes "verify_sigs cr sh m params = Ok u" "verify_sigs cr sh' n params = Ok v"
    and "peers params \<noteq> []" "card F \<le> max_faulty (of_nat (length (peers params)))"
  shows "\<exists>i s t. i \<notin> F \<and> tbl_get (sigs m) i = Some s \<and> tbl_get (sigs n) i = Some t \<and>
    sig_valid cr (peers params) (sh (n_inner m)) i s \<and>
    sig_valid cr (peers params) (sh' (n_inner n)) i t"
proof -
  let ?U = "{i :: peer_idx. unat i < length (peers params)}"
  have le: "length (peers params) \<le> 255" using assms(1) by (simp add: res_simps)
  have U: "card ?U = total (of_nat (length (peers params)))" using le by (simp add: card_peer_range)
  have "of_nat 0 \<in> ?U" using assms(3) by simp
  then have ne: "?U \<noteq> {}" by blast
  obtain i where i: "i \<in> {i. tbl_get (sigs m) i \<noteq> None}" "i \<in> {i. tbl_get (sigs n) i \<noteq> None}" "i \<notin> F"
    using np.honest_in_both [OF _ U verified_signers(1) [OF assms(1)] verified_signers(1) [OF assms(2)]
      verified_signers(2) [OF assms(1)] verified_signers(2) [OF assms(2)] ne _ assms(4)] by auto
  then show ?thesis using assms(1,2) by (auto simp: res_simps)
qed

subsection \<open>Properties\<close>

text \<open>Two notarizations that verify under the same parameters carry valid signatures of a common peer that is
  not among the faulty ones, when at most \<open>max_faulty\<close> peers are faulty.\<close>

lemma notarizations_overlap:
  assumes "verify_sigs cr (header_sign_hash cr) m params = Ok ()"
    and "verify_sigs cr (header_sign_hash cr) n params = Ok ()"
    and "peers params \<noteq> []" "card F \<le> max_faulty (of_nat (length (peers params)))"
  shows "\<exists>i s t. i \<notin> F \<and> sig_valid cr (peers params) (header_sign_hash cr (n_inner m)) i s \<and>
    sig_valid cr (peers params) (header_sign_hash cr (n_inner n)) i t"
  using notarizations_share_honest [OF assms] by blast

definition test_header :: "block_seq \<Rightarrow> block_round \<Rightarrow> hash \<Rightarrow> block_header" where
  "test_header q r prev = \<lparr>header_version = 0, padding = 0, bh_seq = q, bh_round = r,
     bh_timestamp = 0, bh_payload_len = 0, consensus_params_len = 0, prev_block_hash = prev,
     consensus_params_hash = 1, payload_hash = 1\<rparr>"

lemma test_verify_sigs:
  "verify_sigs test_crypto sh (notarized_new b [(0, 5)]) (test_params [7]) = Ok ()"
  by (simp add: verify_sigs_def notarized_new_def test_params_def num_peers_def to_num_peers_def
      threshold_def max_faulty_def total_def tbl_empty.rep_eq tbl_insert.rep_eq index_def
      verify_hash_signature_def)

text \<open>A notarization whose first signature names a peer that does not exist is not rejected: the
  check indexes the peers out of bounds and panics, whatever the other signatures are.\<close>

lemma verify_sigs_unknown_peer_panics:
  assumes "entries (sigs n) = (i, s) # rest" "length (peers params) \<le> unat i"
    and "length (peers params) \<le> 255"
    and "threshold (of_nat (length (peers params))) \<le> length (entries (sigs n))"
  shows "verify_sigs cr sh n params = Panic ''index out of bounds''"
proof -
  have "num_peers params = (Ok (of_nat (length (peers params))) :: (invalid_notarization_error, _) res)"
    using assms(3) by (simp add: res_simps)
  then show ?thesis using assms(1,2,4) by (simp add: verify_sigs_def index_def)
qed

end
