(* ===== verification/Db.thy ===== *)
theory Db
  imports Prelude
begin

section \<open>Database transactions and commit hooks\<close>

text \<open>
  \<open>db/src/lib.rs\<close> and \<open>db/src/ctx.rs\<close>. A write transaction works on a private copy of the
  database and collects closures to be run after the commit. When the body returns an error (or
  panics) the transaction is dropped: neither the database nor any watch channel changes. On
  success the copy becomes the database and the hooks run in the order in which they were
  registered; the source holds \<open>commit_hook_order_lock\<close> over the commit and the hooks, so the hooks
  of two transactions never interleave.

  The type \<open>'d\<close> is the database, \<open>'c\<close> the in-memory channels, \<open>'h\<close> the closures, as data; \<open>run\<close>
  says what a closure does to the channels. Failures of the storage engine, on which the source
  panics, are in \<open>Db_Layer\<close>.
\<close>

record ('d, 'h) wtx =
  dbtx :: 'd
  on_commit_hooks :: "'h list"

definition wtx_new :: "'d \<Rightarrow> ('d, 'h) wtx" where
  "wtx_new d = \<lparr>dbtx = d, on_commit_hooks = []\<rparr>"

definition on_commit :: "'h \<Rightarrow> ('d, 'h) wtx \<Rightarrow> ('d, 'h) wtx" where
  "on_commit h tx = tx\<lparr>on_commit_hooks := on_commit_hooks tx @ [h]\<rparr>"

definition commit :: "('h \<Rightarrow> 'c \<Rightarrow> 'c) \<Rightarrow> ('d, 'h) wtx \<Rightarrow> 'c \<Rightarrow> 'd \<times> 'c" where
  "commit run tx c = (dbtx tx, fold run (on_commit_hooks tx) c)"

definition write_with_expect_falliable ::
  "('h \<Rightarrow> 'c \<Rightarrow> 'c) \<Rightarrow> (('d, 'h) wtx \<Rightarrow> ('e, 'a \<times> ('d, 'h) wtx) res) \<Rightarrow> 'd \<times> 'c \<Rightarrow>
     ('e, 'a) res \<times> ('d \<times> 'c)" where
  "write_with_expect_falliable run f s =
     (case f (wtx_new (fst s)) of
        Ok (a, tx) \<Rightarrow> (Ok a, commit run tx (snd s))
      | Err e \<Rightarrow> (Err e, s)
      | Panic m \<Rightarrow> (Panic m, s))"

definition read_with_expect :: "('d \<Rightarrow> 'a) \<Rightarrow> 'd \<times> 'c \<Rightarrow> 'a" where
  "read_with_expect f s = f (fst s)"

lemma wtx_simps [simp]:
  "dbtx (wtx_new d) = d" "on_commit_hooks (wtx_new d) = []"
  "dbtx (on_commit h tx) = dbtx tx"
  "on_commit_hooks (on_commit h tx) = on_commit_hooks tx @ [h]"
  by (simp_all add: wtx_new_def on_commit_def)

lemma write_with_cases:
  obtains (committed) a tx where "f (wtx_new (fst s)) = Ok (a, tx)"
      "write_with_expect_falliable run f s = (Ok a, commit run tx (snd s))"
  | (rolled_back) e where "f (wtx_new (fst s)) = Err e"
      "write_with_expect_falliable run f s = (Err e, s)"
  | (panicked) m where "f (wtx_new (fst s)) = Panic m"
      "write_with_expect_falliable run f s = (Panic m, s)"
  by (cases "f (wtx_new (fst s))") (auto simp: write_with_expect_falliable_def)

lemma write_with_Ok_iff:
  "fst (write_with_expect_falliable run f s) = Ok a \<longleftrightarrow> (\<exists>tx. f (wtx_new (fst s)) = Ok (a, tx))"
  by (rule write_with_cases [of f s run]) auto

subsection \<open>Histories of transactions\<close>

text \<open>
  A component is a family of transaction bodies, one per kind of input. \<open>tx_component\<close> is the
  contract between a component and the database layer: when every committed transaction keeps an
  invariant over database and channels, every history of admissible calls keeps it, whatever
  fails on the way.
\<close>

locale tx_component =
  fixes run :: "'h \<Rightarrow> 'c \<Rightarrow> 'c"
    and body :: "'i \<Rightarrow> ('d, 'h) wtx \<Rightarrow> ('e, 'a \<times> ('d, 'h) wtx) res"
    and admissible :: "'i \<Rightarrow> bool"
    and inv :: "'d \<times> 'c \<Rightarrow> bool"
  assumes committed_inv: "inv (d, c) \<Longrightarrow> admissible i \<Longrightarrow> body i (wtx_new d) = Ok (a, tx) \<Longrightarrow>
    inv (commit run tx c)"
begin

lemma write_inv:
  "inv s \<Longrightarrow> admissible i \<Longrightarrow> inv (snd (write_with_expect_falliable run (body i) s))"
proof (rule write_with_cases [of "body i" s run])
  fix a tx
  assume "inv s" "admissible i" and "body i (wtx_new (fst s)) = Ok (a, tx)"
    and w: "write_with_expect_falliable run (body i) s = (Ok a, commit run tx (snd s))"
  then have "inv (commit run tx (snd s))" by (intro committed_inv [of "fst s"]) simp_all
  with w show ?thesis by simp
qed simp_all

lemma history_inv:
  "inv s \<Longrightarrow> list_all admissible is \<Longrightarrow>
     inv (fold (\<lambda>i s. snd (write_with_expect_falliable run (body i) s)) is s)"
  by (induction "is" arbitrary: s) (simp_all add: write_inv)

end

end
