(* ===== verification/Cons_Db.thy ===== *)
theory Cons_Db
  imports Signed_Msg Db
begin

section \<open>The consensus database\<close>

text \<open>
  \<open>consensus/src/tables.rs\<close> and \<open>consensus/src/consensus/ctx.rs\<close>: the tables of the consensus, as a
  record of ordered tables, and the read and write operations on them that every handler uses.
  A table keyed by \<open>()\<close> is an option. Range scans follow the bounds of the source, an inclusive
  or exclusive end included.
\<close>

record cons_db =
  cons_current_round :: "block_round option"
  cons_finality_consensus :: "block_round option"
  cons_finality_votes :: "(peer_pubkey, block_round) table"
  cons_params_schedule :: "(block_round, hash) table"
  cons_params :: "(hash, consensus_params) table"
  cons_blocks_proposals :: "(block_round, block_header) table"
  cons_blocks_notarized :: "(block_round, block_header) table"
  cons_blocks_pinned :: "(block_round, hash) table"
  cons_blocks_payloads :: "(hash, payload) table"
  cons_votes_block :: "(block_round \<times> peer_idx, block_header signed) table"
  cons_votes_dummy :: "(block_round \<times> peer_idx, signature) table"

definition cons_db_empty :: cons_db where
  "cons_db_empty = \<lparr>cons_current_round = None, cons_finality_consensus = None,
     cons_finality_votes = tbl_empty, cons_params_schedule = tbl_empty, cons_params = tbl_empty,
     cons_blocks_proposals = tbl_empty, cons_blocks_notarized = tbl_empty,
     cons_blocks_pinned = tbl_empty, cons_blocks_payloads = tbl_empty,
     cons_votes_block = tbl_empty, cons_votes_dummy = tbl_empty\<rparr>"

datatype 'a insert_outcome = Inserted | AlreadyPresent 'a

definition outcome_map :: "('a \<Rightarrow> 'b) \<Rightarrow> 'a insert_outcome \<Rightarrow> 'b insert_outcome" where
  "outcome_map f out = (case out of Inserted \<Rightarrow> Inserted | AlreadyPresent t \<Rightarrow> AlreadyPresent (f t))"

text \<open>A table's \<open>insert\<close> returns the value it replaced.\<close>

definition outcome_of :: "'a option \<Rightarrow> 'a insert_outcome" where
  "outcome_of old = (case old of None \<Rightarrow> Inserted | Some x \<Rightarrow> AlreadyPresent x)"

subsection \<open>Reads\<close>

definition get_current_round :: "cons_db \<Rightarrow> block_round" where
  "get_current_round d = (case cons_current_round d of Some r \<Rightarrow> r | None \<Rightarrow> 0)"

definition get_vote_dummy :: "cons_db \<Rightarrow> block_round \<Rightarrow> peer_idx \<Rightarrow> signature option" where
  "get_vote_dummy d r i = tbl_get (cons_votes_dummy d) (r, i)"

definition get_vote_block :: "cons_db \<Rightarrow> block_round \<Rightarrow> peer_idx \<Rightarrow> block_header signed option" where
  "get_vote_block d r i = tbl_get (cons_votes_block d) (r, i)"

text \<open>The range \<open>(round, PeerIdx::MIN)..=(round, PeerIdx::MAX)\<close>.\<close>

definition round_keys :: "block_round \<Rightarrow> block_round \<times> peer_idx \<Rightarrow> bool" where
  "round_keys r k \<longleftrightarrow> (r, 0) \<le> k \<and> k \<le> (r, 255)"

definition get_peers_with_proposal_votes :: "cons_db \<Rightarrow> block_round \<Rightarrow> vote_set" where
  "get_peers_with_proposal_votes d r =
     fold (\<lambda>e s. vs_insert (snd (fst e)) s)
       (range_entries (round_keys r) (entries (cons_votes_block d))) vs_zero"

definition get_peers_with_dummy_votes :: "cons_db \<Rightarrow> block_round \<Rightarrow> vote_set" where
  "get_peers_with_dummy_votes d r =
     fold (\<lambda>e s. vs_insert (snd (fst e)) s)
       (range_entries (round_keys r) (entries (cons_votes_dummy d))) vs_zero"

definition get_consensus_params_opt ::
  "cons_db \<Rightarrow> block_round \<Rightarrow> ('e, consensus_params option) res" where
  "get_consensus_params_opt d r =
     (case last_entry (\<lambda>k. k \<le> r) (entries (cons_params_schedule d)) of
        None \<Rightarrow> Ok None
      | Some (_, h) \<Rightarrow>
          res_bind (expect ''Must always have params for a given hash'' (tbl_get (cons_params d) h))
            (\<lambda>p. Ok (Some p)))"

definition get_consensus_params :: "cons_db \<Rightarrow> block_round \<Rightarrow> ('e, consensus_params) res" where
  "get_consensus_params d r =
     res_bind (get_consensus_params_opt d r)
       (expect ''Initialized consensus database must set consensus params for round 0'')"

definition has_pending_consensus_params_change :: "cons_db \<Rightarrow> block_round \<Rightarrow> ('e, bool) res" where
  "has_pending_consensus_params_change d r =
     res_bind (arr_next_expect r) (\<lambda>r'.
       Ok (first_entry (\<lambda>k. r' \<le> k) (entries (cons_params_schedule d)) \<noteq> None))"

definition get_finality_consensus :: "cons_db \<Rightarrow> block_round option" where
  "get_finality_consensus d = cons_finality_consensus d"

definition get_finality_vote :: "cons_db \<Rightarrow> peer_pubkey \<Rightarrow> block_round option" where
  "get_finality_vote d k = tbl_get (cons_finality_votes d) k"

definition get_block_payload :: "cons_db \<Rightarrow> hash \<Rightarrow> payload option" where
  "get_block_payload d h = tbl_get (cons_blocks_payloads d) h"

definition get_proposal :: "cons_db \<Rightarrow> block_round \<Rightarrow> ('e, block_header option) res" where
  "get_proposal d r = (case tbl_get (cons_blocks_proposals d) r of
      Some b \<Rightarrow> res_bind (assert_or_panic ''v.round == round'' (bh_round b = r)) (\<lambda>_. Ok (Some b))
    | None \<Rightarrow> Ok None)"

definition has_notarized_non_dummy_block :: "cons_db \<Rightarrow> block_round \<Rightarrow> bool" where
  "has_notarized_non_dummy_block d r \<longleftrightarrow> tbl_get (cons_blocks_notarized d) r \<noteq> None"

definition get_notarized_block :: "cons_db \<Rightarrow> block_round \<Rightarrow> block_header option" where
  "get_notarized_block d r = tbl_get (cons_blocks_notarized d) r"

definition get_pinned_block :: "cons_db \<Rightarrow> block_round \<Rightarrow> hash option" where
  "get_pinned_block d r = tbl_get (cons_blocks_pinned d) r"

definition get_prev_notarized_block :: "cons_db \<Rightarrow> block_round \<Rightarrow> block_header option" where
  "get_prev_notarized_block d r =
     map_option snd (last_entry (\<lambda>k. k < r) (entries (cons_blocks_notarized d)))"

definition get_next_notarized_block :: "cons_db \<Rightarrow> block_round \<Rightarrow> block_header option" where
  "get_next_notarized_block d r =
     map_option snd (first_entry (\<lambda>k. r \<le> k) (entries (cons_blocks_notarized d)))"

definition get_num_votes_dummy :: "cons_db \<Rightarrow> block_round \<Rightarrow> nat" where
  "get_num_votes_dummy d r = length (range_entries (round_keys r) (entries (cons_votes_dummy d)))"

definition get_num_votes_proposal :: "cons_db \<Rightarrow> block_round \<Rightarrow> nat" where
  "get_num_votes_proposal d r = length (range_entries (round_keys r) (entries (cons_votes_block d)))"

definition get_votes_dummy :: "cons_db \<Rightarrow> block_round \<Rightarrow> (peer_idx \<times> signature) list" where
  "get_votes_dummy d r =
     map (\<lambda>((_, i), s). (i, s)) (range_entries (round_keys r) (entries (cons_votes_dummy d)))"

definition get_votes_proposal :: "cons_db \<Rightarrow> block_round \<Rightarrow> (peer_idx \<times> signature) list" where
  "get_votes_proposal d r =
     map (\<lambda>((_, i), v). (i, sig v)) (range_entries (round_keys r) (entries (cons_votes_block d)))"

subsection \<open>Writes\<close>

definition insert_consensus_params ::
  "crypto \<Rightarrow> block_round \<Rightarrow> consensus_params \<Rightarrow> cons_db \<Rightarrow> hash insert_outcome \<times> cons_db" where
  "insert_consensus_params cr r p d =
     (let h = params_hash cr p;
          old = tbl_get (cons_params_schedule d) r;
          d1 = d\<lparr>cons_params_schedule := tbl_insert r h (cons_params_schedule d)\<rparr> in
      case old of
        Some existing \<Rightarrow> (AlreadyPresent existing, d1)
      | None \<Rightarrow> (Inserted, d1\<lparr>cons_params := tbl_insert h p (cons_params d1)\<rparr>))"

text \<open>
  \<open>retain_in\<close> on \<open>(round, PeerIdx::MIN)..(round, PeerIdx::MAX)\<close>, whose end is exclusive: a vote
  of the peer with index 255 is not looked at.
\<close>

definition retain_votes :: "block_round \<Rightarrow> block_header \<Rightarrow> cons_db \<Rightarrow> cons_db" where
  "retain_votes r b d = d\<lparr>cons_votes_block :=
     tbl_retain (\<lambda>k v. (r, 0) \<le> k \<and> k < (r, 255) \<longrightarrow> inner v = b) (cons_votes_block d)\<rparr>"

definition insert_block_proposal ::
  "block_round \<Rightarrow> block_header \<Rightarrow> payload \<Rightarrow> cons_db \<Rightarrow>
     ('e, block_header insert_outcome \<times> cons_db) res" where
  "insert_block_proposal r b p d =
     res_bind (assert_or_panic ''block.round == round'' (bh_round b = r)) (\<lambda>_.
     case tbl_get (cons_blocks_proposals d) r of
       Some existing \<Rightarrow> Ok (AlreadyPresent existing, d)
     | None \<Rightarrow>
         Ok (Inserted, retain_votes r b
           (d\<lparr>cons_blocks_proposals := tbl_insert r b (cons_blocks_proposals d),
              cons_blocks_payloads := tbl_insert (payload_hash b) p (cons_blocks_payloads d)\<rparr>)))"

definition update_finality_consensus :: "block_round \<Rightarrow> cons_db \<Rightarrow> block_round option \<times> cons_db" where
  "update_finality_consensus r d = (cons_finality_consensus d, d\<lparr>cons_finality_consensus := Some r\<rparr>)"

definition prune_dummy_votes :: "block_round \<Rightarrow> cons_db \<Rightarrow> cons_db" where
  "prune_dummy_votes r d =
     d\<lparr>cons_votes_dummy := tbl_retain (\<lambda>k v. \<not> ((0, 0) \<le> k \<and> k < (r, 0))) (cons_votes_dummy d)\<rparr>"

definition update_finality_vote ::
  "peer_pubkey \<Rightarrow> block_round \<Rightarrow> cons_db \<Rightarrow> block_round option \<times> cons_db" where
  "update_finality_vote k r d =
     (tbl_get (cons_finality_votes d) k, d\<lparr>cons_finality_votes := tbl_insert k r (cons_finality_votes d)\<rparr>)"

definition insert_notarized_block ::
  "block_round \<Rightarrow> block_header \<Rightarrow> payload option \<Rightarrow> cons_db \<Rightarrow>
     ('e, block_header insert_outcome \<times> cons_db) res" where
  "insert_notarized_block r b p d =
     res_bind (assert_or_panic ''block.round == round'' (bh_round b = r)) (\<lambda>_.
     res_bind (assert_or_panic ''!block.is_dummy()'' (\<not> is_dummy b)) (\<lambda>_.
     case tbl_get (cons_blocks_notarized d) r of
       Some existing \<Rightarrow> Ok (AlreadyPresent existing, d)
     | None \<Rightarrow>
         (let d1 = d\<lparr>cons_blocks_notarized := tbl_insert r b (cons_blocks_notarized d)\<rparr>;
              d2 = (case p of None \<Rightarrow> d1 | Some pl \<Rightarrow>
                d1\<lparr>cons_blocks_payloads := tbl_insert (payload_hash b) pl (cons_blocks_payloads d1)\<rparr>) in
          Ok (Inserted, retain_votes r b d2))))"

definition insert_pinned_block ::
  "block_round \<Rightarrow> hash \<Rightarrow> cons_db \<Rightarrow> hash insert_outcome \<times> cons_db" where
  "insert_pinned_block r h d = (outcome_of (tbl_get (cons_blocks_pinned d) r),
     d\<lparr>cons_blocks_pinned := tbl_insert r h (cons_blocks_pinned d)\<rparr>)"

definition delete_notarized_block :: "block_round \<Rightarrow> cons_db \<Rightarrow> cons_db" where
  "delete_notarized_block r d =
     d\<lparr>cons_blocks_notarized := tbl_remove r (cons_blocks_notarized d)\<rparr>"

definition insert_dummy_vote ::
  "block_round \<Rightarrow> peer_idx \<Rightarrow> signature \<Rightarrow> cons_db \<Rightarrow> signature insert_outcome \<times> cons_db" where
  "insert_dummy_vote r i s d = (outcome_of (tbl_get (cons_votes_dummy d) (r, i)),
     d\<lparr>cons_votes_dummy := tbl_insert (r, i) s (cons_votes_dummy d)\<rparr>)"

definition insert_block_vote ::
  "block_round \<Rightarrow> peer_idx \<Rightarrow> block_header signed \<Rightarrow> cons_db \<Rightarrow>
     block_header signed insert_outcome \<times> cons_db" where
  "insert_block_vote r i v d = (outcome_of (tbl_get (cons_votes_block d) (r, i)),
     d\<lparr>cons_votes_block := tbl_insert (r, i) v (cons_votes_block d)\<rparr>)"

definition set_current_round :: "block_round \<Rightarrow> cons_db \<Rightarrow> cons_db" where
  "set_current_round r d = d\<lparr>cons_current_round := Some r\<rparr>"

subsection \<open>What the reads return\<close>

lemma le_peer_idx_max [simp]: "i \<le> (255 :: peer_idx)"
proof -
  have "unat i \<le> 255" using peer_idx_less [of i] by linarith
  then show ?thesis by (simp add: word_le_nat_alt)
qed

lemma round_keys_iff: "round_keys r k \<longleftrightarrow> fst k = r"
  by (cases k) (auto simp: round_keys_def less_eq_prod_def)

lemma round_range_length:
  "length (range_entries (round_keys r) (entries t)) = card {i. tbl_get t (r, i) \<noteq> None}"
proof -
  have "{k. round_keys r k \<and> tbl_get t k \<noteq> None} = Pair r ` {i. tbl_get t (r, i) \<noteq> None}"
    by (auto simp: round_keys_iff image_iff)
  moreover have "inj_on (Pair r) {i. tbl_get t (r, i) \<noteq> None}" by (rule inj_onI) simp
  ultimately show ?thesis unfolding tb.range_length by (simp only: card_image)
qed

lemma num_votes_proposal:
  "get_num_votes_proposal d r = card {i. tbl_get (cons_votes_block d) (r, i) \<noteq> None}"
  unfolding get_num_votes_proposal_def by (rule round_range_length)

lemma num_votes_dummy:
  "get_num_votes_dummy d r = card {i. tbl_get (cons_votes_dummy d) (r, i) \<noteq> None}"
  unfolding get_num_votes_dummy_def by (rule round_range_length)

lemma prev_notarized_Some_iff:
  assumes "\<And>r b. tbl_get (cons_blocks_notarized d) r = Some b \<Longrightarrow> bh_round b = r"
  shows "get_prev_notarized_block d r = Some b \<longleftrightarrow>
    tbl_get (cons_blocks_notarized d) (bh_round b) = Some b \<and> bh_round b < r \<and>
    (\<forall>k b'. tbl_get (cons_blocks_notarized d) k = Some b' \<longrightarrow> k < r \<longrightarrow> k \<le> bh_round b)"
  using assms by (auto simp: get_prev_notarized_block_def tb.last_Some)

lemma prev_notarized_None_iff:
  "get_prev_notarized_block d r = None \<longleftrightarrow>
    (\<forall>k b. tbl_get (cons_blocks_notarized d) k = Some b \<longrightarrow> \<not> k < r)"
  by (simp add: get_prev_notarized_block_def tb.last_None)

lemma next_notarized_Some_iff:
  assumes "\<And>r b. tbl_get (cons_blocks_notarized d) r = Some b \<Longrightarrow> bh_round b = r"
  shows "get_next_notarized_block d r = Some b \<longleftrightarrow>
    tbl_get (cons_blocks_notarized d) (bh_round b) = Some b \<and> r \<le> bh_round b \<and>
    (\<forall>k b'. tbl_get (cons_blocks_notarized d) k = Some b' \<longrightarrow> r \<le> k \<longrightarrow> bh_round b \<le> k)"
  using assms by (auto simp: get_next_notarized_block_def tb.first_Some)

lemma map_of_round_entries:
  "\<forall>e \<in> set es. fst (fst e) = r \<Longrightarrow>
     map_of (map (\<lambda>((_, i), v). (i, f v)) es) i = map_option f (map_of es (r, i))"
  by (induction es) auto

lemma round_range_map_of:
  "map_of (map (\<lambda>((_, i), v). (i, f v)) (range_entries (round_keys r) (entries t))) i =
     map_option f (tbl_get t (r, i))"
proof -
  have "\<forall>e \<in> set (range_entries (round_keys r) (entries t)). fst (fst e) = r"
    by (auto simp: range_entries_def round_keys_iff)
  from map_of_round_entries [OF this, of f i] show ?thesis
    by (simp add: tb.range_map_of round_keys_iff)
qed

lemma votes_proposal_map_of:
  "map_of (get_votes_proposal d r) i = map_option sig (tbl_get (cons_votes_block d) (r, i))"
  unfolding get_votes_proposal_def by (rule round_range_map_of)

lemma votes_dummy_map_of:
  "map_of (get_votes_dummy d r) i = tbl_get (cons_votes_dummy d) (r, i)"
  using round_range_map_of [of "\<lambda>v. v"] by (simp add: get_votes_dummy_def option.map_ident)

end
