(* ===== verification/Module_Core.thy ===== *)
theory Module_Core
  imports Cons_Db
begin

section \<open>Modules, consensus items and effects\<close>

text \<open>
  What the application layer and its modules share: \<open>consensus-core/src/{module,citem}.rs\<close> and
  \<open>module/src\<close>. A finalized block carries consensus items (\<open>CItem\<close>); an item is routed to a module
  by its \<open>ModuleId\<close>; processing it yields effects, encoded values tagged with the identifier of
  their kind. A module constructor (\<open>IModuleInit\<close>) is data: whether its kind may be installed once
  only, and the versions it supports. Each module sees its own tables: \<open>ModuleWriteTransactionCtx\<close>
  prefixes every table name with the module identifier, and \<open>module_table_name_inj\<close> shows
  that two modules never share a table.

  The third-party encoder \<open>bincode\<close> is a parameter of the definitions that encode.
\<close>

type_synonym module_id = "32 word"
type_synonym module_kind = "32 word"
type_synonym effect_id = "32 word"
type_synonym whatever = string

record module_config =
  mc_kind :: module_kind
  mc_version :: consensus_version

definition MODULE_KIND_CONSENSUS_CTRL :: module_kind where
  "MODULE_KIND_CONSENSUS_CTRL = 0"

definition MODULE_KIND_META :: module_kind where
  "MODULE_KIND_META = 1"

record citem_effect =
  effect_eid :: effect_id
  effect_raw :: "byte list"

record module_citem_effect =
  effect_module_kind :: module_kind
  effect_inner :: citem_effect

definition effect_encode :: "effect_id \<Rightarrow> byte list \<Rightarrow> citem_effect" where
  "effect_encode eid encoded = \<lparr>effect_eid = eid, effect_raw = encoded\<rparr>"

datatype decode_error = EffectIdMismatch | MalformedEffect

definition effect_decode ::
  "(byte list \<Rightarrow> 'a option) \<Rightarrow> effect_id \<Rightarrow> citem_effect \<Rightarrow> (decode_error, 'a) res" where
  "effect_decode dec eid e =
     (if effect_eid e \<noteq> eid then Err EffectIdMismatch
      else case dec (effect_raw e) of Some a \<Rightarrow> Ok a | None \<Rightarrow> Err MalformedEffect)"

subsection \<open>Consensus items\<close>

record 'a module_dyn =
  md_module_id :: module_id
  md_inner :: 'a

record transaction =
  tx_nonce :: "64 word"
  tx_inputs :: "byte list module_dyn list"
  tx_outputs :: "byte list module_dyn list"
  tx_signature :: "256 word"

datatype citem = PeerCItem "byte list module_dyn" | Transaction transaction

subsection \<open>Module constructors\<close>

type_synonym supported_versions = "(16 word, 16 word) table"

record module_init =
  init_singleton :: bool
  init_supported_versions :: supported_versions

type_synonym modules_inits = "(module_kind, module_init) table"

datatype module_init_error =
    InvalidConfig
  | UnsupportedVersion consensus_version consensus_version
  | OtherInitError

text \<open>\<open>IModuleInit::latest_version\<close>: the greatest supported major version with its minor.\<close>

definition latest_version :: "module_init \<Rightarrow> ('e, consensus_version) res" where
  "latest_version i =
     res_bind (expect ''Must have at least one supported major version''
         (last_entry (\<lambda>_. True) (entries (init_supported_versions i))))
       (\<lambda>(ma, mi). Ok (ConsensusVersion ma mi))"

lemma latest_version_correct:
  "latest_version i = Ok v \<longleftrightarrow>
     tbl_get (init_supported_versions i) (major v) = Some (minor v) \<and>
     (\<forall>ma mi. tbl_get (init_supported_versions i) ma = Some mi \<longrightarrow> ma \<le> major v)"
  by (cases v) (auto simp: latest_version_def res_simps tb.last_Some)

subsection \<open>Table names\<close>

text \<open>The decimal form in which \<open>Display\<close> prints a module identifier.\<close>

fun dec_digits :: "nat \<Rightarrow> string" where
  "dec_digits n = (if n < 10 then [char_of (48 + n)]
     else dec_digits (n div 10) @ [char_of (48 + n mod 10)])"

declare dec_digits.simps [simp del]

definition module_table_name :: "module_id \<Rightarrow> string \<Rightarrow> string" where
  "module_table_name i name = ''module_'' @ dec_digits (unat i) @ ''_'' @ name"

text \<open>What the digits read back to.\<close>

definition digit_val :: "char \<Rightarrow> nat" where
  "digit_val c = of_char c - 48"

definition dec_value :: "string \<Rightarrow> nat" where
  "dec_value s = foldl (\<lambda>a c. 10 * a + digit_val c) 0 s"

lemma digit_val_char: "n < 10 \<Longrightarrow> digit_val (char_of (48 + n)) = n"
  by (simp add: digit_val_def)

lemma dec_value_digits: "dec_value (dec_digits n) = n"
proof (induction n rule: dec_digits.induct)
  case (1 n)
  show ?case
  proof (cases "n < 10")
    case True
    then show ?thesis by (simp add: dec_digits.simps [of n] dec_value_def digit_val_char)
  next
    case False
    then have "foldl (\<lambda>a c. 10 * a + digit_val c) 0 (dec_digits (n div 10)) = n div 10"
      using 1 by (simp add: dec_value_def)
    with False show ?thesis
      by (simp add: dec_digits.simps [of n] dec_value_def digit_val_char)
  qed
qed

lemma char_of_eq_underscore: "(n :: nat) < 10 \<Longrightarrow> char_of (48 + n) \<noteq> CHR ''_''"
proof
  assume n: "n < 10" and "char_of (48 + n) = CHR ''_''"
  then have "of_char (char_of (48 + n) :: char) = (95 :: nat)" by simp
  with n show False by simp
qed

lemma dec_digits_underscore: "CHR ''_'' \<notin> set (dec_digits n)"
proof (induction n rule: dec_digits.induct)
  case (1 n)
  then show ?case
    using char_of_eq_underscore [of n] char_of_eq_underscore [of "n mod 10"]
    by (subst dec_digits.simps) (auto split: if_splits)
qed

lemma append_sep_inj:
  "x \<notin> set as \<Longrightarrow> x \<notin> set bs \<Longrightarrow> as @ x # cs = bs @ x # ds \<longleftrightarrow> as = bs \<and> cs = ds"
  by (induction as arbitrary: bs) (case_tac bs; auto)+

text \<open>Modules are isolated from each other in the database: the prefixed table names of two
  modules, or of two tables of one module, are never equal.\<close>

lemma module_table_name_inj:
  "module_table_name i a = module_table_name j b \<longleftrightarrow> i = j \<and> a = b"
proof -
  have "dec_digits (unat i) = dec_digits (unat j) \<Longrightarrow> i = j"
    by (metis dec_value_digits word_eq_iff_unsigned)
  then show ?thesis
    unfolding module_table_name_def
    using append_sep_inj [OF dec_digits_underscore dec_digits_underscore] by auto
qed

end
