(* ===== verification/Ctrl_Module.thy ===== *)
theory Ctrl_Module
  imports Module_Core
begin

section \<open>The consensus control module\<close>

text \<open>
  \<open>modules/consensus-ctrl/src\<close>: the module that keeps the set of voting peers and the installed
  modules with their versions, and changes both by votes that arrive as consensus items. The
  record \<open>ctrl_db\<close> has one field per table of \<open>tables.rs\<close>; a table keyed by \<open>()\<close> is an option. The
  operations follow \<open>module.rs\<close> and \<open>init.rs\<close>, with the effects of
  \<open>modules/consensus-ctrl-effects\<close>. The encoder of consensus items and effects (\<open>bincode\<close>)
  is the record \<open>ctrl_codec\<close>, an argument.
\<close>

datatype consensus_ctrl_citem =
    VoteAddPeer peer_pubkey
  | VoteRemovePeer peer_pubkey
  | VoteAddModule module_kind consensus_version
  | VoteModuleVersion module_id "16 word"

datatype ctrl_effect =
    AddPeerEffect peer_pubkey
  | RemovePeerEffect peer_pubkey
  | ConsensusParamsChange peer_set
  | ModuleVersionUpgradeEffect module_id consensus_version consensus_version
  | AddModuleEffect module_kind module_id consensus_version

fun ctrl_effect_id :: "ctrl_effect \<Rightarrow> effect_id" where
  "ctrl_effect_id (AddPeerEffect _) = 0"
| "ctrl_effect_id (RemovePeerEffect _) = 1"
| "ctrl_effect_id (ConsensusParamsChange _) = 2"
| "ctrl_effect_id (ModuleVersionUpgradeEffect _ _ _) = 3"
| "ctrl_effect_id (AddModuleEffect _ _ _) = 4"

record ctrl_codec =
  enc_ctrl_citem :: "consensus_ctrl_citem \<Rightarrow> byte list"
  dec_ctrl_citem :: "byte list \<Rightarrow> consensus_ctrl_citem option"
  enc_ctrl_effect :: "ctrl_effect \<Rightarrow> byte list"
  dec_params_change :: "byte list \<Rightarrow> peer_set option"

definition ctrl_encode :: "ctrl_codec \<Rightarrow> ctrl_effect \<Rightarrow> citem_effect" where
  "ctrl_encode cd e = effect_encode (ctrl_effect_id e) (enc_ctrl_effect cd e)"

definition decode_from_raw :: "ctrl_codec \<Rightarrow> byte list \<Rightarrow> (whatever, consensus_ctrl_citem) res" where
  "decode_from_raw cd raw = (case dec_ctrl_citem cd raw of
      Some c \<Rightarrow> Ok c | None \<Rightarrow> Err ''Failed to decode CoreConsensusCitem'')"

record ctrl_db =
  ctrl_self_version :: "consensus_version option"
  ctrl_peers :: "(peer_pubkey, unit) table"
  add_peer_votes :: "(peer_pubkey, peer_pubkey) table"
  remove_peer_votes :: "(peer_pubkey, peer_pubkey) table"
  pending_add_peer_vote :: "peer_pubkey option"
  pending_remove_peer_vote :: "peer_pubkey option"
  modules_configs :: "(module_id, module_config) table"
  modules_versions_votes :: "(peer_pubkey \<times> module_id, consensus_version) table"
  pending_modules_versions_votes :: "(module_id, 16 word) table"
  add_module_votes :: "(peer_pubkey, module_kind \<times> consensus_version) table"
  pending_add_module_vote :: "(module_kind \<times> consensus_version) option"

record ctrl_module =
  cm_version :: consensus_version
  cm_peer_pubkey :: "peer_pubkey option"
  cm_modules_inits :: modules_inits

text \<open>The proposals last sent on \<open>propose_citems_tx\<close>, and the commit hook that replaces them.\<close>

type_synonym proposals = "byte list list"

datatype propose_hook = SendProposals proposals

fun run_propose_hook :: "propose_hook \<Rightarrow> proposals \<Rightarrow> proposals" where
  "run_propose_hook (SendProposals ps) _ = ps"

subsection \<open>Reads\<close>

definition get_peer_set :: "ctrl_db \<Rightarrow> peer_set" where
  "get_peer_set d = ps_from_iter (map fst (entries (ctrl_peers d)))"

definition get_modules_configs :: "ctrl_db \<Rightarrow> (module_id \<times> module_config) list" where
  "get_modules_configs d = entries (modules_configs d)"

definition get_add_peer_votes :: "ctrl_db \<Rightarrow> (peer_pubkey \<times> peer_pubkey) list" where
  "get_add_peer_votes d = entries (add_peer_votes d)"

definition get_remove_peer_votes :: "ctrl_db \<Rightarrow> (peer_pubkey \<times> peer_pubkey) list" where
  "get_remove_peer_votes d = entries (remove_peer_votes d)"

definition get_add_module_votes :: "ctrl_db \<Rightarrow> (peer_pubkey \<times> module_kind \<times> consensus_version) list" where
  "get_add_module_votes d = entries (add_module_votes d)"

text \<open>The scan of \<open>modules_configs\<close> for an installed module of a kind.\<close>

definition module_kind_exists :: "ctrl_db \<Rightarrow> module_kind \<Rightarrow> bool" where
  "module_kind_exists d k = list_ex (\<lambda>e. mc_kind (snd e) = k) (entries (modules_configs d))"

subsection \<open>Proposals\<close>

definition propose_add_peer :: "ctrl_db \<Rightarrow> peer_pubkey \<Rightarrow> consensus_ctrl_citem list" where
  "propose_add_peer d self = (case pending_add_peer_vote d of
      None \<Rightarrow> []
    | Some p \<Rightarrow> if p \<notin> set (get_peer_set d) \<and> tbl_get (add_peer_votes d) self \<noteq> Some p
        then [VoteAddPeer p] else [])"

definition propose_remove_peer :: "ctrl_db \<Rightarrow> peer_pubkey \<Rightarrow> consensus_ctrl_citem list" where
  "propose_remove_peer d self = (case pending_remove_peer_vote d of
      None \<Rightarrow> []
    | Some p \<Rightarrow> if p \<in> set (get_peer_set d) \<and> tbl_get (remove_peer_votes d) self \<noteq> Some p
        then [VoteRemovePeer p] else [])"

definition kind_is_singleton :: "ctrl_module \<Rightarrow> module_kind \<Rightarrow> bool" where
  "kind_is_singleton cm k = (case tbl_get (cm_modules_inits cm) k of
      Some i \<Rightarrow> init_singleton i | None \<Rightarrow> False)"

definition propose_add_module ::
  "ctrl_module \<Rightarrow> ctrl_db \<Rightarrow> peer_pubkey \<Rightarrow> consensus_ctrl_citem list" where
  "propose_add_module cm d self = (case pending_add_module_vote d of
      None \<Rightarrow> []
    | Some (k, v) \<Rightarrow>
        let module_already_exists = kind_is_singleton cm k \<and> module_kind_exists d k;
            should_propose = (case tbl_get (add_module_votes d) self of
                None \<Rightarrow> True
              | Some (k', v') \<Rightarrow> k' \<noteq> k \<or> major v' \<noteq> major v)
        in if \<not> module_already_exists \<and> should_propose then [VoteAddModule k v] else [])"

definition propose_module_versions :: "ctrl_db \<Rightarrow> peer_pubkey \<Rightarrow> consensus_ctrl_citem list" where
  "propose_module_versions d self =
     [VoteModuleVersion i mi. (i, mi) \<leftarrow> entries (pending_modules_versions_votes d),
        map_option minor (tbl_get (modules_versions_votes d) (self, i)) \<noteq> Some mi]"

definition consensus_proposals :: "ctrl_module \<Rightarrow> ctrl_db \<Rightarrow> consensus_ctrl_citem list" where
  "consensus_proposals cm d = (case cm_peer_pubkey cm of
      None \<Rightarrow> []
    | Some self \<Rightarrow> propose_add_peer d self @ propose_remove_peer d self @
        propose_add_module cm d self @ propose_module_versions d self)"

definition refresh_consensus_proposals :: "ctrl_module \<Rightarrow> ctrl_codec \<Rightarrow> ctrl_db \<Rightarrow> proposals" where
  "refresh_consensus_proposals cm cd d = map (enc_ctrl_citem cd) (consensus_proposals cm d)"

subsection \<open>Pending votes of the node itself\<close>

text \<open>
  The four \<open>set_pending_*\<close> calls: each checks in a read transaction, records in a write
  transaction and then replaces the proposals on the channel.
\<close>

type_synonym ctrl_state = "ctrl_db \<times> proposals"

definition set_pending_add_peer_vote ::
  "ctrl_module \<Rightarrow> ctrl_codec \<Rightarrow> peer_pubkey \<Rightarrow> ctrl_state \<Rightarrow> (whatever, ctrl_state) res" where
  "set_pending_add_peer_vote cm cd p s =
     (if cm_peer_pubkey cm = None then Err ''Cannot cast votes: note a voting peer''
      else if tbl_get (ctrl_peers (fst s)) p \<noteq> None then Ok s
      else let d = (fst s)\<lparr>pending_add_peer_vote := Some p\<rparr>
        in Ok (d, refresh_consensus_proposals cm cd d))"

definition set_pending_remove_peer_vote ::
  "ctrl_module \<Rightarrow> ctrl_codec \<Rightarrow> peer_pubkey \<Rightarrow> ctrl_state \<Rightarrow> (whatever, ctrl_state) res" where
  "set_pending_remove_peer_vote cm cd p s =
     (if cm_peer_pubkey cm = None then Err ''Cannot cast votes: not a voting peer''
      else if tbl_get (ctrl_peers (fst s)) p = None then Ok s
      else if length (get_peer_set (fst s)) = 1 then Err ''Cannot remove the last peer from the consensus''
      else let d = (fst s)\<lparr>pending_remove_peer_vote := Some p\<rparr>
        in Ok (d, refresh_consensus_proposals cm cd d))"

definition set_pending_add_module_vote ::
  "ctrl_module \<Rightarrow> ctrl_codec \<Rightarrow> module_kind \<Rightarrow> consensus_version \<Rightarrow> ctrl_state \<Rightarrow>
     (whatever, ctrl_state) res" where
  "set_pending_add_module_vote cm cd k v s =
     (if cm_peer_pubkey cm = None then Err ''Cannot cast votes: not a voting peer''
      else case tbl_get (cm_modules_inits cm) k of
        None \<Rightarrow> Err ''No module init available for module kind''
      | Some i \<Rightarrow>
          if init_singleton i \<and> module_kind_exists (fst s) k then Ok s
          else let d = (fst s)\<lparr>pending_add_module_vote := Some (k, v)\<rparr>
            in Ok (d, refresh_consensus_proposals cm cd d))"

definition record_module_init_versions ::
  "(module_kind, supported_versions) table \<Rightarrow> ctrl_db \<Rightarrow> ('e, ctrl_db) res" where
  "record_module_init_versions supp d =
     res_bind (res_fold (\<lambda>(i, cfg) t.
         res_bind (expect ''Missing module supported versions for kind'' (tbl_get supp (mc_kind cfg))) (\<lambda>vs.
         res_bind (expect ''No supported minor version for major version'' (tbl_get vs (major (mc_version cfg))))
           (\<lambda>mi. Ok (tbl_insert i mi t))))
         (get_modules_configs d) (pending_modules_versions_votes d))
       (\<lambda>t. Ok (d\<lparr>pending_modules_versions_votes := t\<rparr>))"

subsection \<open>Votes on peers\<close>

definition count_votes :: "(peer_pubkey, peer_pubkey) table \<Rightarrow> peer_set \<Rightarrow> peer_pubkey \<Rightarrow> nat" where
  "count_votes votes ps p = length (filter (\<lambda>q. tbl_get votes q = Some p) ps)"

definition process_citem_vote_add_peer ::
  "ctrl_module \<Rightarrow> ctrl_codec \<Rightarrow> peer_pubkey \<Rightarrow> peer_set \<Rightarrow> peer_pubkey \<Rightarrow> ctrl_db \<Rightarrow>
     (whatever, citem_effect list \<times> ctrl_db) res" where
  "process_citem_vote_add_peer cm cd voter ps p d =
     res_bind (ensure (p \<notin> set (get_peer_set d)) ''Peer already part of the peer set'') (\<lambda>_.
     let d1 = d\<lparr>add_peer_votes := tbl_insert voter p (add_peer_votes d)\<rparr>;
         d2 = (if Some voter = cm_peer_pubkey cm then d1\<lparr>pending_add_peer_vote := None\<rparr> else d1)
     in res_bind (to_num_peers ps) (\<lambda>n.
       if threshold n \<le> count_votes (add_peer_votes d2) ps p then
         let d3 = d2\<lparr>add_peer_votes := tbl_retain (\<lambda>_ vote. vote \<noteq> p) (add_peer_votes d2)\<rparr>;
             d4 = d3\<lparr>ctrl_peers := tbl_insert p () (ctrl_peers d3)\<rparr>
         in Ok ([ctrl_encode cd (AddPeerEffect p),
                 ctrl_encode cd (ConsensusParamsChange (get_peer_set d4))], d4)
       else Ok ([], d2)))"

subsection \<open>Module versions\<close>

text \<open>The minimum of the minor versions the peers voted for, a missing vote counting as 0.\<close>

definition min_minor_version ::
  "(peer_pubkey \<times> module_id, consensus_version) table \<Rightarrow> peer_set \<Rightarrow> module_id \<Rightarrow> 16 word option" where
  "min_minor_version votes ps i =
     fold (\<lambda>p acc.
       let peer_vote = (case tbl_get votes (p, i) of Some v \<Rightarrow> minor v | None \<Rightarrow> 0)
       in Some (case acc of None \<Rightarrow> peer_vote | Some m \<Rightarrow> min m peer_vote)) ps None"

definition module_upgrades ::
  "(module_id, module_config) table \<Rightarrow> (peer_pubkey \<times> module_id, consensus_version) table \<Rightarrow>
     peer_set \<Rightarrow> (module_id \<times> module_config \<times> consensus_version \<times> consensus_version) list" where
  "module_upgrades configs votes ps = concat (map (\<lambda>(i, cfg).
     case min_minor_version votes ps i of
       None \<Rightarrow> []
     | Some agreed \<Rightarrow>
         if minor (mc_version cfg) < agreed
         then [(i, cfg, mc_version cfg, ConsensusVersion (major (mc_version cfg)) agreed)]
         else []) (entries configs))"

definition check_module_version_upgrades ::
  "ctrl_codec \<Rightarrow> peer_set \<Rightarrow> ctrl_db \<Rightarrow> citem_effect list \<times> ctrl_db" where
  "check_module_version_upgrades cd ps d =
     (let ups = module_upgrades (modules_configs d) (modules_versions_votes d) ps
      in (map (\<lambda>(i, cfg, old, new). ctrl_encode cd (ModuleVersionUpgradeEffect i old new)) ups,
          d\<lparr>modules_configs := fold (\<lambda>(i, cfg, old, new).
              tbl_insert i \<lparr>mc_kind = mc_kind cfg, mc_version = new\<rparr>) ups (modules_configs d)\<rparr>))"

definition process_citem_vote_remove_peer ::
  "ctrl_module \<Rightarrow> ctrl_codec \<Rightarrow> peer_pubkey \<Rightarrow> peer_set \<Rightarrow> peer_pubkey \<Rightarrow> ctrl_db \<Rightarrow>
     (whatever, citem_effect list \<times> ctrl_db) res" where
  "process_citem_vote_remove_peer cm cd voter ps p d =
     res_bind (ensure (p \<in> set (get_peer_set d)) ''Peer to remove is not in the latest peer set'') (\<lambda>_.
     res_bind (ensure (length (get_peer_set d) \<noteq> 1) ''Cannot remove the last peer from the consensus'') (\<lambda>_.
     if tbl_get (remove_peer_votes d) voter = Some p then Ok ([], d)
     else
       let d1 = d\<lparr>remove_peer_votes := tbl_insert voter p (remove_peer_votes d)\<rparr>;
           d2 = (if Some voter = cm_peer_pubkey cm then d1\<lparr>pending_remove_peer_vote := None\<rparr> else d1)
       in res_bind (to_num_peers ps) (\<lambda>n.
         if threshold n \<le> count_votes (remove_peer_votes d2) ps p then
           let d3 = d2\<lparr>ctrl_peers := tbl_remove p (ctrl_peers d2)\<rparr>;
               updated = get_peer_set d3;
               d4 = d3\<lparr>remove_peer_votes := tbl_retain (\<lambda>k vote. k \<in> set updated \<and> vote \<noteq> p) (remove_peer_votes d3)\<rparr>;
               d5 = d4\<lparr>add_peer_votes := tbl_retain (\<lambda>k _. k \<in> set updated) (add_peer_votes d4)\<rparr>;
               (ups, d6) = check_module_version_upgrades cd updated d5
           in Ok (ctrl_encode cd (RemovePeerEffect p) #
                  ctrl_encode cd (ConsensusParamsChange updated) # ups, d6)
         else Ok ([], d2))))"

subsection \<open>Votes on modules\<close>

text \<open>
  The search for a free module identifier. \<open>None\<close> is a search that does not end: it does not when
  every identifier is taken, since the counter wraps.
\<close>

partial_function (option) next_module_id ::
  "(module_id, module_config) table \<Rightarrow> 32 word \<Rightarrow> module_id option" where
  "next_module_id t n = (if tbl_get t n = None then Some n else next_module_id t (n + 1))"

definition process_citem_vote_add_module ::
  "ctrl_module \<Rightarrow> ctrl_codec \<Rightarrow> peer_pubkey \<Rightarrow> peer_set \<Rightarrow> module_kind \<Rightarrow> consensus_version \<Rightarrow>
     ctrl_db \<Rightarrow> (whatever, citem_effect list \<times> ctrl_db) res" where
  "process_citem_vote_add_module cm cd voter ps k v d =
     (case tbl_get (cm_modules_inits cm) k of
        None \<Rightarrow> Err ''No module init available for module kind''
      | Some i \<Rightarrow>
     res_bind (ensure (\<not> (init_singleton i \<and> module_kind_exists d k)) ''Module already exists'') (\<lambda>_.
     let d1 = d\<lparr>add_module_votes := tbl_insert voter (k, v) (add_module_votes d)\<rparr>;
         d2 = (if Some voter = cm_peer_pubkey cm then d1\<lparr>pending_add_module_vote := None\<rparr> else d1);
         matching_votes = [(p, v'). p \<leftarrow> ps, (k', v') \<leftarrow>
             (case tbl_get (add_module_votes d2) p of None \<Rightarrow> [] | Some vote \<Rightarrow> [vote]),
             k' = k \<and> major v' = major v]
     in if length matching_votes = length ps then
          res_bind (if matching_votes = [] then Panic ''Should have at least one vote''
              else Ok (Min (set (map (\<lambda>(p, v'). minor v') matching_votes)))) (\<lambda>min_minor.
          let final_version = ConsensusVersion (major v) min_minor;
              d3 = d2\<lparr>add_module_votes := tbl_retain (\<lambda>_ (k', v'). k' \<noteq> k) (add_module_votes d2)\<rparr>
          in res_bind (expect ''search for a module id does not end'' (next_module_id (modules_configs d3) 1)) (\<lambda>new_id.
             Ok ([ctrl_encode cd (AddModuleEffect k new_id final_version)],
                 d3\<lparr>modules_configs := tbl_insert new_id \<lparr>mc_kind = k, mc_version = final_version\<rparr>
                      (modules_configs d3)\<rparr>)))
        else Ok ([], d2)))"

definition process_citem_vote_module_version ::
  "ctrl_module \<Rightarrow> ctrl_codec \<Rightarrow> peer_pubkey \<Rightarrow> peer_set \<Rightarrow> module_id \<Rightarrow> 16 word \<Rightarrow> ctrl_db \<Rightarrow>
     (whatever, citem_effect list \<times> ctrl_db) res" where
  "process_citem_vote_module_version cm cd voter ps i mi d =
     res_bind (ensure (voter \<in> set ps) ''Voter is not in the current peer set'') (\<lambda>_.
     case tbl_get (modules_configs d) i of
       None \<Rightarrow> Err ''Module not found in configurations''
     | Some cfg \<Rightarrow>
         let new_version = ConsensusVersion (major (mc_version cfg)) mi;
             d1 = d\<lparr>modules_versions_votes := tbl_insert (voter, i) new_version (modules_versions_votes d)\<rparr>;
             d2 = (if Some voter = cm_peer_pubkey cm
               then d1\<lparr>pending_modules_versions_votes := tbl_remove i (pending_modules_versions_votes d1)\<rparr>
               else d1)
         in Ok (check_module_version_upgrades cd ps d2))"

subsection \<open>The module interface\<close>

fun dispatch_vote :: "ctrl_module \<Rightarrow> ctrl_codec \<Rightarrow> peer_pubkey \<Rightarrow> peer_set \<Rightarrow> consensus_ctrl_citem \<Rightarrow>
     ctrl_db \<Rightarrow> (whatever, citem_effect list \<times> ctrl_db) res" where
  "dispatch_vote cm cd voter ps (VoteAddPeer p) d = process_citem_vote_add_peer cm cd voter ps p d"
| "dispatch_vote cm cd voter ps (VoteRemovePeer p) d = process_citem_vote_remove_peer cm cd voter ps p d"
| "dispatch_vote cm cd voter ps (VoteAddModule k v) d = process_citem_vote_add_module cm cd voter ps k v d"
| "dispatch_vote cm cd voter ps (VoteModuleVersion i mi) d =
     process_citem_vote_module_version cm cd voter ps i mi d"

definition ctrl_process_citem ::
  "ctrl_module \<Rightarrow> ctrl_codec \<Rightarrow> peer_pubkey \<Rightarrow> peer_set \<Rightarrow> byte list \<Rightarrow> (ctrl_db, propose_hook) wtx \<Rightarrow>
     (whatever, citem_effect list \<times> (ctrl_db, propose_hook) wtx) res" where
  "ctrl_process_citem cm cd voter ps raw tx =
     res_bind (assert_or_panic ''peer_set.contains(&peer_pubkey)'' (voter \<in> set ps)) (\<lambda>_.
     res_bind (decode_from_raw cd raw) (\<lambda>c.
     res_bind (dispatch_vote cm cd voter ps c (dbtx tx)) (\<lambda>(effects, d).
       Ok (effects, on_commit (SendProposals (refresh_consensus_proposals cm cd d)) (tx\<lparr>dbtx := d\<rparr>)))))"

definition ctrl_process_input :: "byte list \<Rightarrow> (ctrl_db, propose_hook) wtx \<Rightarrow>
     (whatever, citem_effect list \<times> (ctrl_db, propose_hook) wtx) res" where
  "ctrl_process_input raw tx = Err ''Module does not support any inputs''"

definition ctrl_process_output :: "byte list \<Rightarrow> (ctrl_db, propose_hook) wtx \<Rightarrow>
     (whatever, citem_effect list \<times> (ctrl_db, propose_hook) wtx) res" where
  "ctrl_process_output raw tx = Err ''Module does not support any outputs''"

definition ctrl_process_effects :: "peer_set \<Rightarrow> module_citem_effect list \<Rightarrow> (ctrl_db, propose_hook) wtx \<Rightarrow>
     (whatever, (ctrl_db, propose_hook) wtx) res" where
  "ctrl_process_effects ps effects tx = Ok tx"

subsection \<open>Initialization\<close>

definition CTRL_VERSION_MAJOR :: "16 word" where
  "CTRL_VERSION_MAJOR = 0"

definition CTRL_VERSION_MINOR :: "16 word" where
  "CTRL_VERSION_MINOR = 1"

definition ctrl_supported_versions :: supported_versions where
  "ctrl_supported_versions = tbl_insert CTRL_VERSION_MAJOR CTRL_VERSION_MINOR tbl_empty"

definition ctrl_module_init :: module_init where
  "ctrl_module_init = \<lparr>init_singleton = True, init_supported_versions = ctrl_supported_versions\<rparr>"

definition is_bootstrapped :: "ctrl_db \<Rightarrow> bool" where
  "is_bootstrapped d \<longleftrightarrow> ctrl_self_version d \<noteq> None"

definition bootstrap_consensus ::
  "module_id \<Rightarrow> consensus_version \<Rightarrow> peer_set \<Rightarrow> ctrl_db \<Rightarrow> ('e, module_config \<times> ctrl_db) res" where
  "bootstrap_consensus i v ps d =
     (let config = \<lparr>mc_kind = MODULE_KIND_CONSENSUS_CTRL, mc_version = v\<rparr>
      in res_bind (assert_or_panic ''tbl.insert(&(), &version)?.is_none()'' (ctrl_self_version d = None)) (\<lambda>_.
         Ok (config, d\<lparr>ctrl_self_version := Some v,
           modules_configs := tbl_insert i config (modules_configs d),
           ctrl_peers := fold (\<lambda>p. tbl_insert p ()) ps (ctrl_peers d)\<rparr>)))"

definition ctrl_init_db_tx :: "consensus_version \<Rightarrow> ctrl_db \<Rightarrow> ctrl_db" where
  "ctrl_init_db_tx v d = d\<lparr>ctrl_self_version := Some v\<rparr>"

definition ctrl_init ::
  "ctrl_codec \<Rightarrow> consensus_version \<Rightarrow> peer_pubkey option \<Rightarrow> modules_inits \<Rightarrow> ctrl_db \<Rightarrow>
     (module_init_error, ctrl_module \<times> ctrl_state) res" where
  "ctrl_init cd v self inits d =
     res_bind (ensure (major v = CTRL_VERSION_MAJOR \<and> minor v \<le> CTRL_VERSION_MINOR)
         (UnsupportedVersion v (ConsensusVersion CTRL_VERSION_MAJOR CTRL_VERSION_MINOR))) (\<lambda>_.
       let d' = ctrl_init_db_tx v d;
           cm = \<lparr>cm_version = v, cm_peer_pubkey = self, cm_modules_inits = inits\<rparr>
       in Ok (cm, (d', refresh_consensus_proposals cm cd d')))"

end
