(* ===== verification/Ctrl_Theorems.thy ===== *)
theory Ctrl_Theorems
  imports Ctrl_Module
begin

section \<open>Properties of the consensus control module\<close>

text \<open>
  What a vote does to the set of peers and to the installed modules, the invariant of the module
  and its preservation by every consensus item, and the contract with the application layer:
  which effects are emitted when.
\<close>

subsection \<open>A small federation\<close>

text \<open>The empty tables, and a federation for closed instances.\<close>

definition ctrl_db_empty :: ctrl_db where
  "ctrl_db_empty = \<lparr>ctrl_self_version = None, ctrl_peers = tbl_empty, add_peer_votes = tbl_empty,
     remove_peer_votes = tbl_empty, pending_add_peer_vote = None, pending_remove_peer_vote = None,
     modules_configs = tbl_empty, modules_versions_votes = tbl_empty,
     pending_modules_versions_votes = tbl_empty, add_module_votes = tbl_empty,
     pending_add_module_vote = None\<rparr>"

definition test_codec :: "consensus_ctrl_citem \<Rightarrow> ctrl_codec" where
  "test_codec c = \<lparr>enc_ctrl_citem = (\<lambda>_. []), dec_ctrl_citem = (\<lambda>_. Some c),
     enc_ctrl_effect = (\<lambda>_. []), dec_params_change = (\<lambda>_. None)\<rparr>"

definition test_ctrl :: ctrl_module where
  "test_ctrl = \<lparr>cm_version = ConsensusVersion 0 1, cm_peer_pubkey = Some 7,
     cm_modules_inits = tbl_insert 1 \<lparr>init_singleton = True, init_supported_versions = tbl_empty\<rparr> tbl_empty\<rparr>"

definition test_ctrl_db :: "peer_set \<Rightarrow> ctrl_db" where
  "test_ctrl_db ps = ctrl_db_empty\<lparr>ctrl_peers := fold (\<lambda>p. tbl_insert p ()) ps tbl_empty,
     modules_configs := tbl_insert 0 \<lparr>mc_kind = 0, mc_version = ConsensusVersion 0 0\<rparr> tbl_empty\<rparr>"

lemma fold_insert_peers:
  "tbl_get (fold (\<lambda>p. tbl_insert p ()) ps t) q = (if q \<in> set ps then Some () else tbl_get t q)"
  by (induction ps arbitrary: t) auto

lemma test_ctrl_db_fields [simp]:
  "ctrl_peers (test_ctrl_db ps) = fold (\<lambda>p. tbl_insert p ()) ps tbl_empty"
  "add_peer_votes (test_ctrl_db ps) = tbl_empty" "remove_peer_votes (test_ctrl_db ps) = tbl_empty"
  "modules_configs (test_ctrl_db ps) = tbl_insert 0 \<lparr>mc_kind = 0, mc_version = ConsensusVersion 0 0\<rparr> tbl_empty"
  "add_module_votes (test_ctrl_db ps) = tbl_empty" "modules_versions_votes (test_ctrl_db ps) = tbl_empty"
  by (simp_all add: test_ctrl_db_def ctrl_db_empty_def)

subsection \<open>Peers\<close>

lemma get_peer_set_set: "set (get_peer_set d) = {p. tbl_get (ctrl_peers d) p \<noteq> None}"
  using tb.dom_scan [of "ctrl_peers d"] by (simp add: get_peer_set_def ps_from_iter_def)

lemma get_peer_set_mem [simp]: "p \<in> set (get_peer_set d) \<longleftrightarrow> tbl_get (ctrl_peers d) p \<noteq> None"
  by (simp add: get_peer_set_set)

lemma get_peer_set_sorted: "get_peer_set d = map fst (entries (ctrl_peers d))"
proof -
  have "sorted (map fst (entries (ctrl_peers d)))"
    using entries_sorted [of "ctrl_peers d"] strict_sorted_iff by blast
  then show ?thesis by (simp add: get_peer_set_def ps_from_iter_def sorted_sort_id)
qed

lemma get_peer_set_valid: "ps_valid (get_peer_set d)"
  by (simp add: get_peer_set_sorted ps_valid_def entries_sorted)

lemma get_peer_set_distinct: "distinct (get_peer_set d)"
  using get_peer_set_valid by (simp add: ps_valid_iff)

lemma get_peer_set_update [simp]:
  "get_peer_set (d\<lparr>add_peer_votes := a\<rparr>) = get_peer_set d"
  "get_peer_set (d\<lparr>remove_peer_votes := a\<rparr>) = get_peer_set d"
  "get_peer_set (d\<lparr>pending_add_peer_vote := b\<rparr>) = get_peer_set d"
  "get_peer_set (d\<lparr>pending_remove_peer_vote := b\<rparr>) = get_peer_set d"
  "get_peer_set (d\<lparr>modules_configs := c\<rparr>) = get_peer_set d"
  "get_peer_set (d\<lparr>modules_versions_votes := e\<rparr>) = get_peer_set d"
  "get_peer_set (d\<lparr>pending_modules_versions_votes := f\<rparr>) = get_peer_set d"
  "get_peer_set (d\<lparr>add_module_votes := g\<rparr>) = get_peer_set d"
  "get_peer_set (d\<lparr>pending_add_module_vote := h\<rparr>) = get_peer_set d"
  by (simp_all add: get_peer_set_def)

lemma count_votes_card:
  "distinct ps \<Longrightarrow> count_votes t ps p = card {q \<in> set ps. tbl_get t q = Some p}"
  by (simp add: count_votes_def distinct_length_filter Int_def conj_commute)

text \<open>The peers whose vote counts for \<open>p\<close> when \<open>voter\<close> casts it.\<close>

definition supporters ::
  "(peer_pubkey, peer_pubkey) table \<Rightarrow> peer_pubkey \<Rightarrow> peer_set \<Rightarrow> peer_pubkey \<Rightarrow> peer_pubkey set" where
  "supporters t voter ps p = {q \<in> set ps. q = voter \<or> tbl_get t q = Some p}"

lemma count_votes_insert:
  "distinct ps \<Longrightarrow> count_votes (tbl_insert voter p t) ps p = card (supporters t voter ps p)"
  by (auto simp: count_votes_card supporters_def intro!: arg_cong [where f = card])


lemma get_peer_set_insert: "set (get_peer_set (d\<lparr>ctrl_peers := tbl_insert p () t\<rparr>)) =
    insert p {q. tbl_get t q \<noteq> None}"
  by (auto simp: get_peer_set_set)

lemma get_peer_set_remove: "set (get_peer_set (d\<lparr>ctrl_peers := tbl_remove p t\<rparr>)) =
    {q. tbl_get t q \<noteq> None} - {p}"
  by (auto simp: get_peer_set_set)

lemma test_peer_set [simp]: "set (get_peer_set (test_ctrl_db ps)) = set ps"
  by (auto simp: get_peer_set_set fold_insert_peers)

lemma test_peer_set_length: "length (get_peer_set (test_ctrl_db ps)) = card (set ps)"
  using distinct_card [OF get_peer_set_distinct, of "test_ctrl_db ps"] by simp

lemma threshold_small: "threshold 1 = 1" "threshold 2 = 2"
  by (simp_all add: threshold_def max_faulty_def total_def)

text \<open>C33. A peer joins the federation exactly when enough of the peers of the effective set (the
  threshold of their number) vote for it, the vote being cast included. The votes for it are
  then cleared, and the effects announce the new peer and the peer set that the table now holds.
  Below the threshold only the vote is recorded. A peer already in the set is refused.\<close>

theorem add_peer_at_threshold:
  assumes "distinct ps" "length ps \<le> 255"
  shows "case process_citem_vote_add_peer cm cd voter ps p d of
      Ok (effects, d') \<Rightarrow> p \<notin> set (get_peer_set d) \<and>
        (if threshold (of_nat (length ps)) \<le> card (supporters (add_peer_votes d) voter ps p)
         then set (get_peer_set d') = insert p (set (get_peer_set d)) \<and>
           effects = [ctrl_encode cd (AddPeerEffect p), ctrl_encode cd (ConsensusParamsChange (get_peer_set d'))] \<and>
           (\<forall>q. tbl_get (add_peer_votes d') q \<noteq> Some p)
         else get_peer_set d' = get_peer_set d \<and> effects = [] \<and> tbl_get (add_peer_votes d') voter = Some p)
    | Err e \<Rightarrow> p \<in> set (get_peer_set d)
    | Panic m \<Rightarrow> False"
  using assms
  by (auto simp: process_citem_vote_add_peer_def ensure_def Let_def to_num_peers_def count_votes_insert
      get_peer_set_insert get_peer_set_set)

theorem add_peer_at_threshold_witness:
  "\<exists>effects d'. process_citem_vote_add_peer test_ctrl (test_codec (VoteAddPeer 5)) 7 [7] 5 (test_ctrl_db [7]) = Ok (effects, d') \<and>
     set (get_peer_set d') = {5, 7}"
proof -
  have "supporters (add_peer_votes (test_ctrl_db [7])) 7 [7] 5 = {7}" by (auto simp: supporters_def)
  then show ?thesis
    using add_peer_at_threshold [where ps = "[7]" and cm = test_ctrl and cd = "test_codec (VoteAddPeer 5)"
        and voter = 7 and p = 5 and d = "test_ctrl_db [7]"]
    by (auto simp: threshold_small fold_insert_peers split: res.splits)
qed

lemma remove_peer_nonempty:
  assumes "p \<in> set (get_peer_set d)" "length (get_peer_set d) \<noteq> Suc 0"
  shows "get_peer_set (x\<lparr>ctrl_peers := tbl_remove p (ctrl_peers d)\<rparr>) \<noteq> []"
proof -
  have "card (set (get_peer_set d)) \<noteq> 1"
    using assms(2) by (simp add: distinct_card get_peer_set_distinct)
  then have "set (get_peer_set d) \<noteq> {p}" by auto
  with assms(1) have "set (get_peer_set d) - {p} \<noteq> {}" by auto
  then show ?thesis by (metis get_peer_set_remove get_peer_set_set set_empty)
qed

text \<open>A peer leaves the federation exactly when enough of the peers of the effective set vote for
  its removal, in a vote that is new; the last peer is never removed. The effects
  announce the removal and the remaining peer set, and no vote of the removed peer on peers
  survives.\<close>

lemma remove_peer_at_threshold:
  assumes "distinct ps" "length ps \<le> 255"
  shows "case process_citem_vote_remove_peer cm cd voter ps p d of
      Ok (effects, d') \<Rightarrow> p \<in> set (get_peer_set d) \<and> length (get_peer_set d) \<noteq> 1 \<and>
        (if tbl_get (remove_peer_votes d) voter \<noteq> Some p \<and>
            threshold (of_nat (length ps)) \<le> card (supporters (remove_peer_votes d) voter ps p)
         then set (get_peer_set d') = set (get_peer_set d) - {p} \<and> get_peer_set d' \<noteq> [] \<and>
           take 2 effects = [ctrl_encode cd (RemovePeerEffect p), ctrl_encode cd (ConsensusParamsChange (get_peer_set d'))] \<and>
           tbl_get (remove_peer_votes d') p = None \<and> tbl_get (add_peer_votes d') p = None
         else get_peer_set d' = get_peer_set d \<and> effects = [] \<and> tbl_get (remove_peer_votes d') voter = Some p)
    | Err e \<Rightarrow> p \<notin> set (get_peer_set d) \<or> length (get_peer_set d) = 1
    | Panic m \<Rightarrow> False"
  using assms remove_peer_nonempty [of p d]
    by (auto simp: process_citem_vote_remove_peer_def ensure_def Let_def to_num_peers_def count_votes_insert
      check_module_version_upgrades_def get_peer_set_remove get_peer_set_set tb.get_keep_None)

subsection \<open>Module versions\<close>

text \<open>The minor version a peer stands for: the one it voted for, else 0.\<close>

definition peer_minor ::
  "(peer_pubkey \<times> module_id, consensus_version) table \<Rightarrow> module_id \<Rightarrow> peer_pubkey \<Rightarrow> 16 word" where
  "peer_minor votes i p = (case tbl_get votes (p, i) of Some v \<Rightarrow> minor v | None \<Rightarrow> 0)"

lemma fold_min_Some:
  "fold (\<lambda>p acc. Some (case acc of None \<Rightarrow> f p | Some m \<Rightarrow> min m (f p))) ps (Some m) =
     Some (Min (insert m (f ` set ps)))" for f :: "'a \<Rightarrow> 'b::linorder"
proof (induction ps arbitrary: m)
  case Nil
  then show ?case by simp
next
  case (Cons p ps)
  have "Min (insert (min m (f p)) (f ` set ps)) = Min (insert m (insert (f p) (f ` set ps)))"
    by (cases "set ps = {}") (simp_all add: min.assoc)
  with Cons show ?case by simp
qed

lemma min_minor_version_Min:
  "min_minor_version votes ps i =
     (if ps = [] then None else Some (Min (peer_minor votes i ` set ps)))"
  by (cases ps) (simp_all add: min_minor_version_def Let_def fold_min_Some peer_minor_def)

text \<open>The configuration of a module after a check for upgrades.\<close>

definition upgraded ::
  "(peer_pubkey \<times> module_id, consensus_version) table \<Rightarrow> peer_set \<Rightarrow> module_id \<Rightarrow> module_config \<Rightarrow>
     module_config" where
  "upgraded votes ps i cfg = cfg\<lparr>mc_version := ConsensusVersion (major (mc_version cfg))
     (max (minor (mc_version cfg)) (Min (peer_minor votes i ` set ps)))\<rparr>"

lemma upgrades_fold:
  assumes "ps \<noteq> []" "distinct (map fst es)"
    and "\<And>i cfg. (i, cfg) \<in> set es \<Longrightarrow> tbl_get t i = Some cfg"
  shows "tbl_get (fold (\<lambda>(i, cfg, old, new). tbl_insert i \<lparr>mc_kind = mc_kind cfg, mc_version = new\<rparr>)
      (concat (map (\<lambda>(i, cfg). case min_minor_version votes ps i of
         None \<Rightarrow> []
       | Some agreed \<Rightarrow> if minor (mc_version cfg) < agreed
           then [(i, cfg, mc_version cfg, ConsensusVersion (major (mc_version cfg)) agreed)] else []) es)) t) k =
    (if k \<in> fst ` set es then map_option (upgraded votes ps k) (tbl_get t k) else tbl_get t k)"
  using assms(2,3)
proof (induction es arbitrary: t)
  case Nil
  then show ?case by simp
next
  case (Cons e es)
  obtain i cfg where e: "e = (i, cfg)" by (cases e)
  have g: "tbl_get t i = Some cfg" using Cons.prems(2) e by simp
  let ?m = "Min (peer_minor votes i ` set ps)"
  define t' where "t' = (if minor (mc_version cfg) < ?m
      then tbl_insert i \<lparr>mc_kind = mc_kind cfg, mc_version = ConsensusVersion (major (mc_version cfg)) ?m\<rparr> t else t)"
  have up: "tbl_get t' i = Some (upgraded votes ps i cfg)"
    by (auto simp: t'_def upgraded_def g max_def not_less)
  have oth: "j \<noteq> i \<Longrightarrow> tbl_get t' j = tbl_get t j" for j by (simp add: t'_def)
  have pre: "\<And>j c. (j, c) \<in> set es \<Longrightarrow> tbl_get t' j = Some c"
    using Cons.prems e by (metis fst_conv image_eqI list.set_intros(2) list.simps(9) distinct.simps(2) set_map oth)
  have nin: "i \<notin> fst ` set es" using Cons.prems(1) e by simp
  have "distinct (map fst es)" using Cons.prems(1) by simp
  note ih = Cons.IH [OF this pre]
  show ?case
  proof (cases "minor (mc_version cfg) < ?m")
    case True
    then have "t' = tbl_insert i \<lparr>mc_kind = mc_kind cfg, mc_version = ConsensusVersion (major (mc_version cfg)) ?m\<rparr> t"
      by (simp add: t'_def del: Min_gr_iff)
    with True ih show ?thesis using nin up oth [of k] g
      by (cases "k = i") (simp_all add: e min_minor_version_Min assms(1) del: Min_gr_iff)
  next
    case False
    then have "t' = t" by (simp add: t'_def del: Min_gr_iff)
    with False ih show ?thesis using nin up oth [of k] g
      by (cases "k = i") (simp_all add: e min_minor_version_Min assms(1) del: Min_gr_iff)
  qed
qed

lemma version_upgrade_get:
  assumes "ps \<noteq> []"
  shows "tbl_get (modules_configs (snd (check_module_version_upgrades cd ps d))) i =
    map_option (upgraded (modules_versions_votes d) ps i) (tbl_get (modules_configs d) i)"
proof -
  have "distinct (map fst (entries (modules_configs d)))"
    by (rule sorted_keys_distinct [OF entries_sorted])
  from upgrades_fold [OF assms this, of "modules_configs d" "modules_versions_votes d" i]
  have "tbl_get (modules_configs (snd (check_module_version_upgrades cd ps d))) i =
     (if i \<in> fst ` set (entries (modules_configs d))
      then map_option (upgraded (modules_versions_votes d) ps i) (tbl_get (modules_configs d) i)
      else tbl_get (modules_configs d) i)"
    by (simp add: check_module_version_upgrades_def module_upgrades_def Let_def tb.scan_get)
  then show ?thesis using tb.dom_scan [of "modules_configs d"] by (auto simp: set_eq_iff)
qed

text \<open>A module's version is raised to what all peers support and never lowered: after the check
  the minor version is the greater of the one it had and the least that the peers of
  the set stand for (0 for a peer that did not vote). Kind and major version stay, and no module
  appears or disappears.\<close>

lemma version_upgrade_by_all_peers:
  assumes "ps \<noteq> []"
  shows "tbl_get (modules_configs (snd (check_module_version_upgrades cd ps d))) i =
    map_option (\<lambda>cfg. cfg\<lparr>mc_version := ConsensusVersion (major (mc_version cfg))
        (max (minor (mc_version cfg)) (Min (peer_minor (modules_versions_votes d) i ` set ps)))\<rparr>)
      (tbl_get (modules_configs d) i)"
  using version_upgrade_get [OF assms] by (simp add: upgraded_def [abs_def])

subsection \<open>New modules\<close>

lemma next_module_id_free: "next_module_id t n = Some m \<Longrightarrow> tbl_get t m = None"
  by (rule next_module_id.raw_induct [where P = "\<lambda>t n m. tbl_get t m = None"]) (auto split: if_splits)

lemma next_module_id_ends:
  "tbl_get t (n + of_nat j) = None \<Longrightarrow> \<exists>m. next_module_id t n = Some m"
proof (induction j arbitrary: n)
  case 0
  then show ?case by (subst next_module_id.simps) simp
next
  case (Suc j)
  then show ?case using Suc.IH [of "n + 1"] by (subst next_module_id.simps) (simp add: add.assoc)
qed

lemma next_module_id_total:
  assumes "length (entries t) < 2 ^ 32"
  shows "\<exists>m. next_module_id t n = Some m"
proof -
  have "card {k. tbl_get t k \<noteq> None} < card (UNIV :: 32 word set)"
    using assms tb.range_length [of "\<lambda>_. True" t] by (simp add: range_entries_def card_word)
  then obtain k where "tbl_get t k = None"
    by (metis (mono_tags, lifting) UNIV_eq_I mem_Collect_eq nat_less_le)
  moreover have "n + of_nat (unat (k - n)) = k" by simp
  ultimately show ?thesis using next_module_id_ends [of t n "unat (k - n)"] by simp
qed

lemma matching_length:
  "length [(p, v'). p \<leftarrow> ps, (k', v') \<leftarrow> (case g p of None \<Rightarrow> [] | Some vote \<Rightarrow> [vote]), P k' v'] \<le> length ps"
  by (induction ps) (auto split: option.splits prod.splits intro: le_SucI)

lemma matching_all:
  "length [(p, v'). p \<leftarrow> ps, (k', v') \<leftarrow> (case g p of None \<Rightarrow> [] | Some vote \<Rightarrow> [vote]), P k' v'] = length ps \<longleftrightarrow>
     (\<forall>p \<in> set ps. \<exists>k' v'. g p = Some (k', v') \<and> P k' v')"
proof (induction ps)
  case Nil
  then show ?case by simp
next
  case (Cons p ps)
  have "length [(p, v'). p \<leftarrow> ps, (k', v') \<leftarrow> (case g p of None \<Rightarrow> [] | Some vote \<Rightarrow> [vote]), P k' v'] \<noteq> Suc (length ps)"
    using matching_length [where ps = ps and g = g and P = P] by linarith
  with Cons show ?case by (auto split: option.splits prod.splits)
qed

lemma matching_minors:
  "\<forall>p \<in> set ps. \<exists>k' v'. g p = Some (k', v') \<and> P k' v' \<Longrightarrow>
     map (\<lambda>(p, v'). minor v')
       [(p, v'). p \<leftarrow> ps, (k', v') \<leftarrow> (case g p of None \<Rightarrow> [] | Some vote \<Rightarrow> [vote]), P k' v'] =
     map (\<lambda>p. minor (snd (the (g p)))) ps"
  by (induction ps) (auto split: option.splits prod.splits)

text \<open>The vote on modules that a peer stands for once \<open>voter\<close> has voted.\<close>

definition module_vote ::
  "(peer_pubkey, module_kind \<times> consensus_version) table \<Rightarrow> peer_pubkey \<Rightarrow> module_kind \<Rightarrow> consensus_version \<Rightarrow>
     peer_pubkey \<Rightarrow> (module_kind \<times> consensus_version) option" where
  "module_vote t voter k v p = (if p = voter then Some (k, v) else tbl_get t p)"

lemma module_vote_insert: "tbl_get (tbl_insert voter (k, v) t) p = module_vote t voter k v p"
  by (simp add: module_vote_def)

definition all_vote_module ::
  "(peer_pubkey, module_kind \<times> consensus_version) table \<Rightarrow> peer_pubkey \<Rightarrow> peer_set \<Rightarrow> module_kind \<Rightarrow>
     consensus_version \<Rightarrow> bool" where
  "all_vote_module t voter ps k v \<longleftrightarrow>
     (\<forall>p \<in> set ps. \<exists>k' v'. module_vote t voter k v p = Some (k', v') \<and> k' = k \<and> major v' = major v)"

lemma add_module_step:
  assumes "tbl_get (cm_modules_inits cm) k = Some i" "\<not> (init_singleton i \<and> module_kind_exists d k)"
    and "ps \<noteq> []"
  obtains d2 where "modules_configs d2 = modules_configs d" "ctrl_peers d2 = ctrl_peers d"
    "add_module_votes d2 = tbl_insert voter (k, v) (add_module_votes d)"
    "process_citem_vote_add_module cm cd voter ps k v d =
      (if all_vote_module (add_module_votes d) voter ps k v then
         let fv = ConsensusVersion (major v)
               (Min ((\<lambda>p. minor (snd (the (module_vote (add_module_votes d) voter k v p)))) ` set ps))
         in res_bind (expect ''search for a module id does not end'' (next_module_id (modules_configs d) 1)) (\<lambda>j.
           Ok ([ctrl_encode cd (AddModuleEffect k j fv)],
             d2\<lparr>add_module_votes := tbl_retain (\<lambda>_ (k', v'). k' \<noteq> k) (add_module_votes d2),
               modules_configs := tbl_insert j \<lparr>mc_kind = k, mc_version = fv\<rparr> (modules_configs d)\<rparr>))
       else Ok ([], d2))"
proof -
  define d2 where "d2 = (let d1 = d\<lparr>add_module_votes := tbl_insert voter (k, v) (add_module_votes d)\<rparr>
    in if Some voter = cm_peer_pubkey cm then d1\<lparr>pending_add_module_vote := None\<rparr> else d1)"
  let ?g = "tbl_get (tbl_insert voter (k, v) (add_module_votes d))"
  let ?P = "\<lambda>k' v'. k' = k \<and> major v' = major v"
  define M where "M = [(p, v'). p \<leftarrow> ps, (k', v') \<leftarrow> (case ?g p of None \<Rightarrow> [] | Some vote \<Rightarrow> [vote]), ?P k' v']"
  have f: "modules_configs d2 = modules_configs d" "ctrl_peers d2 = ctrl_peers d"
    "add_module_votes d2 = tbl_insert voter (k, v) (add_module_votes d)"
    by (simp_all add: d2_def Let_def)
  have all: "length M = length ps \<longleftrightarrow> all_vote_module (add_module_votes d) voter ps k v"
    using matching_all [where g = ?g and ps = ps and P = ?P]
    unfolding all_vote_module_def module_vote_insert M_def by simp
  have ne: "M \<noteq> []" if "length M = length ps" using that assms(3) by (metis length_0_conv)
  have mins: "map (\<lambda>(p, v'). minor v') M =
      map (\<lambda>p. minor (snd (the (module_vote (add_module_votes d) voter k v p)))) ps"
    if "all_vote_module (add_module_votes d) voter ps k v"
    using matching_minors [where g = ?g and ps = ps and P = ?P] that
    unfolding all_vote_module_def module_vote_insert M_def by simp
  show ?thesis
  proof (rule that [OF f])
    have "process_citem_vote_add_module cm cd voter ps k v d =
        (if length M = length ps then
           res_bind (if M = [] then Panic ''Should have at least one vote''
              else Ok (Min (set (map (\<lambda>(p, v'). minor v') M)))) (\<lambda>min_minor.
           res_bind (expect ''search for a module id does not end'' (next_module_id (modules_configs d) 1)) (\<lambda>j.
             Ok ([ctrl_encode cd (AddModuleEffect k j (ConsensusVersion (major v) min_minor))],
               d2\<lparr>add_module_votes := tbl_retain (\<lambda>_ (k', v'). k' \<noteq> k) (add_module_votes d2),
                 modules_configs := tbl_insert j \<lparr>mc_kind = k, mc_version = ConsensusVersion (major v) min_minor\<rparr>
                   (modules_configs d)\<rparr>)))
         else Ok ([], d2))"
      unfolding process_citem_vote_add_module_def using assms(1,2) f
      by (simp only: Let_def d2_def [unfolded Let_def, symmetric] M_def) simp
    moreover have "set (map (\<lambda>(p, v'). minor v') M) =
        (\<lambda>p. minor (snd (the (module_vote (add_module_votes d) voter k v p)))) ` set ps"
      if "all_vote_module (add_module_votes d) voter ps k v" using mins [OF that] by (metis set_map)
    ultimately show "process_citem_vote_add_module cm cd voter ps k v d = (if all_vote_module (add_module_votes d) voter ps k v then
         let fv = ConsensusVersion (major v)
               (Min ((\<lambda>p. minor (snd (the (module_vote (add_module_votes d) voter k v p)))) ` set ps))
         in res_bind (expect ''search for a module id does not end'' (next_module_id (modules_configs d) 1)) (\<lambda>j.
           Ok ([ctrl_encode cd (AddModuleEffect k j fv)],
             d2\<lparr>add_module_votes := tbl_retain (\<lambda>_ (k', v'). k' \<noteq> k) (add_module_votes d2),
               modules_configs := tbl_insert j \<lparr>mc_kind = k, mc_version = fv\<rparr> (modules_configs d)\<rparr>))
       else Ok ([], d2))"
      using ne all by (cases "all_vote_module (add_module_votes d) voter ps k v") (simp_all add: Let_def)
  qed
qed

lemma add_module_ok:
  assumes "ps \<noteq> []" "length (entries (modules_configs d)) < 2 ^ 32"
  shows "case process_citem_vote_add_module cm cd voter ps k v d of
      Ok (effects, d') \<Rightarrow>
        (if all_vote_module (add_module_votes d) voter ps k v
         then \<exists>j v'. tbl_get (modules_configs d) j = None \<and> major v' = major v \<and>
           minor v' = Min ((\<lambda>p. minor (snd (the (module_vote (add_module_votes d) voter k v p)))) ` set ps) \<and>
           effects = [ctrl_encode cd (AddModuleEffect k j v')] \<and>
           modules_configs d' = tbl_insert j \<lparr>mc_kind = k, mc_version = v'\<rparr> (modules_configs d) \<and>
           (\<forall>q w. tbl_get (add_module_votes d') q \<noteq> Some (k, w))
         else modules_configs d' = modules_configs d \<and> effects = [] \<and>
           tbl_get (add_module_votes d') voter = Some (k, v))
    | Err e \<Rightarrow> tbl_get (cm_modules_inits cm) k = None \<or> kind_is_singleton cm k \<and> module_kind_exists d k
    | Panic m \<Rightarrow> False"
proof (cases "tbl_get (cm_modules_inits cm) k")
  case None
  then show ?thesis by (simp add: process_citem_vote_add_module_def)
next
  case (Some i)
  show ?thesis
  proof (cases "init_singleton i \<and> module_kind_exists d k")
    case True
    with Some show ?thesis by (simp add: process_citem_vote_add_module_def kind_is_singleton_def)
  next
    case False
    obtain j where j: "next_module_id (modules_configs d) 1 = Some j"
      using next_module_id_total [OF assms(2)] by blast
    note free = next_module_id_free [OF j]
    obtain d2 where d2: "modules_configs d2 = modules_configs d"
        "add_module_votes d2 = tbl_insert voter (k, v) (add_module_votes d)"
      and p: "process_citem_vote_add_module cm cd voter ps k v d =
        (if all_vote_module (add_module_votes d) voter ps k v then
         let fv = ConsensusVersion (major v)
               (Min ((\<lambda>p. minor (snd (the (module_vote (add_module_votes d) voter k v p)))) ` set ps))
         in Ok ([ctrl_encode cd (AddModuleEffect k j fv)],
             d2\<lparr>add_module_votes := tbl_retain (\<lambda>_ (k', v'). k' \<noteq> k) (add_module_votes d2),
               modules_configs := tbl_insert j \<lparr>mc_kind = k, mc_version = fv\<rparr> (modules_configs d)\<rparr>)
         else Ok ([], d2))"
      by (rule add_module_step [OF Some False assms(1), of voter v cd]) (simp add: j Let_def)
    show ?thesis
    proof (cases "all_vote_module (add_module_votes d) voter ps k v")
      case True
      show ?thesis unfolding p using True free
        by (simp add: Let_def) (intro exI [of _ j] exI [of _ "ConsensusVersion _ _"] conjI, simp_all)
    next
      case False
      then show ?thesis using d2 by (simp add: p)
    qed
  qed
qed

text \<open>C34. A module is installed exactly when every peer of the set votes for its kind with the same
  major version. It gets a free identifier, so that no installed module is touched, and the least
  minor version voted for; the votes for the kind are cleared. The search for the identifier
  ends, and the call never panics. It is refused when the node has no constructor for the kind, or
  the kind can be installed once only and is.\<close>

theorem add_module_by_all_peers:
  assumes "ps \<noteq> []" "length (entries (modules_configs d)) < 2 ^ 32"
  shows "case process_citem_vote_add_module cm cd voter ps k v d of
      Ok (effects, d') \<Rightarrow>
        (if all_vote_module (add_module_votes d) voter ps k v
         then \<exists>j v'. tbl_get (modules_configs d) j = None \<and> major v' = major v \<and>
           minor v' = Min ((\<lambda>p. minor (snd (the (module_vote (add_module_votes d) voter k v p)))) ` set ps) \<and>
           effects = [ctrl_encode cd (AddModuleEffect k j v')] \<and>
           modules_configs d' = tbl_insert j \<lparr>mc_kind = k, mc_version = v'\<rparr> (modules_configs d) \<and>
           (\<forall>q w. tbl_get (add_module_votes d') q \<noteq> Some (k, w))
         else modules_configs d' = modules_configs d \<and> effects = [] \<and>
           tbl_get (add_module_votes d') voter = Some (k, v))
    | Err e \<Rightarrow> tbl_get (cm_modules_inits cm) k = None \<or> kind_is_singleton cm k \<and> module_kind_exists d k
    | Panic m \<Rightarrow> False"
  by (rule add_module_ok [OF assms])

theorem add_module_by_all_peers_witness:
  "\<exists>effects d' j. process_citem_vote_add_module test_ctrl (test_codec (VoteAddModule 1 (ConsensusVersion 0 0))) 7 [7] 1
       (ConsensusVersion 0 0) (test_ctrl_db [7]) = Ok (effects, d') \<and> j \<noteq> 0 \<and>
     tbl_get (modules_configs d') j = Some \<lparr>mc_kind = 1, mc_version = ConsensusVersion 0 0\<rparr>"
proof -
  have v: "v' = ConsensusVersion 0 0" if "major v' = 0" "minor v' = 0" for v' using that by (cases v') simp
  have "all_vote_module (add_module_votes (test_ctrl_db [7])) 7 [7] 1 (ConsensusVersion 0 0)"
    "length (entries (modules_configs (test_ctrl_db [7]))) < 2 ^ 32"
    "\<not> module_kind_exists (test_ctrl_db [7]) 1" "tbl_get (cm_modules_inits test_ctrl) 1 \<noteq> None"
    by (simp_all add: all_vote_module_def module_vote_def module_kind_exists_def test_ctrl_def
        tbl_insert.rep_eq tbl_empty.rep_eq)
  then show ?thesis
    using add_module_by_all_peers [where ps = "[7]" and d = "test_ctrl_db [7]" and cm = test_ctrl
        and cd = "test_codec (VoteAddModule 1 (ConsensusVersion 0 0))" and voter = 7 and k = 1
        and v = "ConsensusVersion 0 0"]
    by (auto simp: module_vote_def split: res.splits if_splits) (metis v)
qed

subsection \<open>The invariant of the module and its contract with the application layer\<close>

text \<open>There is a peer, and a kind that can be installed once only is not installed twice.\<close>

definition ctrl_inv :: "ctrl_module \<Rightarrow> ctrl_db \<Rightarrow> bool" where
  "ctrl_inv cm d \<longleftrightarrow> get_peer_set d \<noteq> [] \<and>
     (\<forall>i j a b. tbl_get (modules_configs d) i = Some a \<longrightarrow> tbl_get (modules_configs d) j = Some b \<longrightarrow>
        mc_kind a = mc_kind b \<longrightarrow> kind_is_singleton cm (mc_kind a) \<longrightarrow> i = j)"

text \<open>An installed module stays, with its kind and major version, and its version never goes back.\<close>

definition configs_grow :: "ctrl_db \<Rightarrow> ctrl_db \<Rightarrow> bool" where
  "configs_grow d d' \<longleftrightarrow> (\<forall>i cfg. tbl_get (modules_configs d) i = Some cfg \<longrightarrow>
     (\<exists>cfg'. tbl_get (modules_configs d') i = Some cfg' \<and> mc_kind cfg' = mc_kind cfg \<and>
        major (mc_version cfg') = major (mc_version cfg) \<and> mc_version cfg \<le> mc_version cfg'))"

text \<open>
  What the application layer relies on: the peer set changes only together with a single
  \<open>ConsensusParamsChange\<close> that carries the new one, and the modules only together with an
  \<open>AddModuleEffect\<close> or a \<open>ModuleVersionUpgradeEffect\<close>.
\<close>

definition peers_announced :: "ctrl_codec \<Rightarrow> ctrl_db \<Rightarrow> citem_effect list \<Rightarrow> ctrl_db \<Rightarrow> bool" where
  "peers_announced cd d effects d' \<longleftrightarrow>
     filter (\<lambda>e. effect_eid e = 2) effects = [] \<and> get_peer_set d' = get_peer_set d \<or>
     filter (\<lambda>e. effect_eid e = 2) effects = [ctrl_encode cd (ConsensusParamsChange (get_peer_set d'))]"

definition configs_announced :: "ctrl_db \<Rightarrow> citem_effect list \<Rightarrow> ctrl_db \<Rightarrow> bool" where
  "configs_announced d effects d' \<longleftrightarrow>
     modules_configs d' = modules_configs d \<or> (\<exists>e \<in> set effects. effect_eid e = 3 \<or> effect_eid e = 4)"

lemma configs_grow_refl: "modules_configs d' = modules_configs d \<Longrightarrow> configs_grow d d'"
  by (simp add: configs_grow_def)

lemma configs_grow_trans:
  assumes "configs_grow d e" "configs_grow e f"
  shows "configs_grow d f"
  unfolding configs_grow_def
proof (intro allI impI)
  fix i a
  assume "tbl_get (modules_configs d) i = Some a"
  with assms(1) obtain b where b: "tbl_get (modules_configs e) i = Some b" "mc_kind b = mc_kind a"
    "major (mc_version b) = major (mc_version a)" "mc_version a \<le> mc_version b"
    unfolding configs_grow_def by blast
  with assms(2) obtain c where "tbl_get (modules_configs f) i = Some c" "mc_kind c = mc_kind b"
    "major (mc_version c) = major (mc_version b)" "mc_version b \<le> mc_version c"
    unfolding configs_grow_def by blast
  with b show "\<exists>c. tbl_get (modules_configs f) i = Some c \<and> mc_kind c = mc_kind a \<and>
      major (mc_version c) = major (mc_version a) \<and> mc_version a \<le> mc_version c"
    by (intro exI [of _ c]) simp
qed

lemma ctrl_eid [simp]: "effect_eid (ctrl_encode cd e) = ctrl_effect_id e"
  by (simp add: ctrl_encode_def effect_encode_def)

lemma ctrl_inv_upgrade:
  assumes "ctrl_inv cm d" "ps \<noteq> []" "get_peer_set d1 \<noteq> []" "modules_configs d1 = modules_configs d"
    and "check_module_version_upgrades cd ps d1 = (ups, d')"
  shows "ctrl_inv cm d'" "configs_grow d d'" "get_peer_set d' = get_peer_set d1"
    "filter (\<lambda>e. effect_eid e = 2) ups = []" "configs_announced d ups d'"
proof -
  have up: "tbl_get (modules_configs d') i =
      map_option (upgraded (modules_versions_votes d1) ps i) (tbl_get (modules_configs d) i)" for i
    using version_upgrade_get [OF assms(2), of cd d1 i] assms(4,5) by simp
  show ps: "get_peer_set d' = get_peer_set d1"
    using assms(5) by (auto simp: check_module_version_upgrades_def Let_def)
  show "ctrl_inv cm d'"
    using assms(1,3) unfolding ctrl_inv_def ps up by (auto simp: upgraded_def)
  show "configs_grow d d'"
    unfolding configs_grow_def up by (auto simp: upgraded_def less_eq_consensus_version_def version_le_def)
  show "filter (\<lambda>e. effect_eid e = 2) ups = []"
    using assms(5) by (auto simp: check_module_version_upgrades_def Let_def filter_empty_conv)
  show "configs_announced d ups d'"
    using assms(4,5)
    by (cases "module_upgrades (modules_configs d1) (modules_versions_votes d1) ps")
      (auto simp: check_module_version_upgrades_def Let_def configs_announced_def)
qed


definition vote_step :: "ctrl_module \<Rightarrow> ctrl_codec \<Rightarrow> ctrl_db \<Rightarrow> citem_effect list \<Rightarrow> ctrl_db \<Rightarrow> bool" where
  "vote_step cm cd d effects d' \<longleftrightarrow> ctrl_inv cm d' \<and> configs_grow d d' \<and>
     peers_announced cd d effects d' \<and> configs_announced d effects d'"

lemma vote_step_same:
  "ctrl_inv cm d \<Longrightarrow> modules_configs d' = modules_configs d \<Longrightarrow> ctrl_peers d' = ctrl_peers d \<Longrightarrow>
     vote_step cm cd d [] d'"
  by (simp add: vote_step_def ctrl_inv_def configs_grow_refl peers_announced_def configs_announced_def
      get_peer_set_def)

lemma vote_step_peers:
  "ctrl_inv cm d \<Longrightarrow> modules_configs d' = modules_configs d \<Longrightarrow> get_peer_set d' \<noteq> [] \<Longrightarrow>
     vote_step cm cd d [ctrl_encode cd (AddPeerEffect p), ctrl_encode cd (ConsensusParamsChange (get_peer_set d'))] d'"
  by (simp add: vote_step_def ctrl_inv_def configs_grow_refl peers_announced_def configs_announced_def)

lemma insert_peer_nonempty: "get_peer_set (d\<lparr>ctrl_peers := tbl_insert p () t\<rparr>) \<noteq> []"
  using get_peer_set_insert [where d = d and p = p and t = t] by (metis empty_iff insertI1 set_empty)

lemma add_peer_step:
  assumes "ctrl_inv cm d" "process_citem_vote_add_peer cm cd voter ps p d = Ok (effects, d')"
  shows "vote_step cm cd d effects d'"
  using assms
  by (auto simp: process_citem_vote_add_peer_def Let_def res_simps split: if_splits
      intro!: vote_step_same vote_step_peers insert_peer_nonempty)

lemma remove_peer_step:
  assumes "ctrl_inv cm d" "process_citem_vote_remove_peer cm cd voter ps p d = Ok (effects, d')"
  shows "vote_step cm cd d effects d'"
proof -
  have p: "p \<in> set (get_peer_set d)" "length (get_peer_set d) \<noteq> Suc 0"
    using assms(2) by (auto simp: process_citem_vote_remove_peer_def Let_def res_simps)
  define d2 where "d2 = (if Some voter = cm_peer_pubkey cm
    then d\<lparr>remove_peer_votes := tbl_insert voter p (remove_peer_votes d), pending_remove_peer_vote := None\<rparr>
    else d\<lparr>remove_peer_votes := tbl_insert voter p (remove_peer_votes d)\<rparr>)"
  define d3 where "d3 = d2\<lparr>ctrl_peers := tbl_remove p (ctrl_peers d2)\<rparr>"
  define d4 where "d4 = d3\<lparr>remove_peer_votes := tbl_retain (\<lambda>k vote. k \<in> set (get_peer_set d3) \<and> vote \<noteq> p) (remove_peer_votes d3)\<rparr>"
  define d5 where "d5 = d4\<lparr>add_peer_votes := tbl_retain (\<lambda>k _. k \<in> set (get_peer_set d3)) (add_peer_votes d4)\<rparr>"
  have f: "modules_configs d2 = modules_configs d" "ctrl_peers d2 = ctrl_peers d"
    "modules_configs d5 = modules_configs d" "get_peer_set d5 = get_peer_set d3" "get_peer_set d3 \<noteq> []"
    using remove_peer_nonempty [OF p, of d2] by (auto simp: d2_def d3_def d4_def d5_def)
  consider "effects = []" "d' = d" | "effects = []" "d' = d2"
    | ups where "check_module_version_upgrades cd (get_peer_set d3) d5 = (ups, d')"
      "effects = ctrl_encode cd (RemovePeerEffect p) # ctrl_encode cd (ConsensusParamsChange (get_peer_set d3)) # ups"
    using assms(2) p unfolding process_citem_vote_remove_peer_def Let_def
    by (fold d2_def, fold d3_def, fold d4_def, fold d5_def)
      (auto simp: res_simps simp del: get_peer_set_mem split: if_splits prod.splits)
  then show ?thesis
  proof cases
    case (3 ups)
    have ne: "get_peer_set d5 \<noteq> []" using f by simp
    show ?thesis
      using ctrl_inv_upgrade [OF assms(1) f(5) ne f(3) 3(1)] 3(2) f(4)
      by (auto simp: vote_step_def peers_announced_def configs_announced_def)
  qed (use vote_step_same [OF assms(1)] f in simp_all)
qed

lemma add_module_step_ok:
  assumes "ctrl_inv cm d" "ps \<noteq> []" "process_citem_vote_add_module cm cd voter ps k v d = Ok (effects, d')"
  shows "vote_step cm cd d effects d'"
proof -
  obtain i where i: "tbl_get (cm_modules_inits cm) k = Some i" "\<not> (init_singleton i \<and> module_kind_exists d k)"
    using assms(3) by (auto simp: process_citem_vote_add_module_def Let_def res_simps split: option.splits)
  have nex: "kind_is_singleton cm k \<Longrightarrow> tbl_get (modules_configs d) j = Some a \<Longrightarrow> mc_kind a \<noteq> k" for j a
    using i by (force simp: kind_is_singleton_def module_kind_exists_def list_ex_iff tb.scan_get [symmetric])
  show ?thesis
  proof (rule add_module_step [OF i assms(2), of voter v cd])
    fix d2 :: ctrl_db
    assume d2: "modules_configs d2 = modules_configs d" "ctrl_peers d2 = ctrl_peers d"
    assume pr: "process_citem_vote_add_module cm cd voter ps k v d =
      (if all_vote_module (add_module_votes d) voter ps k v then
         let fv = ConsensusVersion (major v)
               (Min ((\<lambda>p. minor (snd (the (module_vote (add_module_votes d) voter k v p)))) ` set ps))
         in res_bind (expect ''search for a module id does not end'' (next_module_id (modules_configs d) 1)) (\<lambda>j.
           Ok ([ctrl_encode cd (AddModuleEffect k j fv)],
             d2\<lparr>add_module_votes := tbl_retain (\<lambda>_ (k', v'). k' \<noteq> k) (add_module_votes d2),
               modules_configs := tbl_insert j \<lparr>mc_kind = k, mc_version = fv\<rparr> (modules_configs d)\<rparr>))
       else Ok ([], d2))"
    show ?thesis
    proof (cases "all_vote_module (add_module_votes d) voter ps k v")
      case False
      then show ?thesis using pr assms(3) d2 by (simp add: vote_step_same [OF assms(1)])
    next
      case True
      then obtain j fv where j: "next_module_id (modules_configs d) 1 = Some j"
        and eff: "effects = [ctrl_encode cd (AddModuleEffect k j fv)]"
        and d': "modules_configs d' = tbl_insert j \<lparr>mc_kind = k, mc_version = fv\<rparr> (modules_configs d)"
          "ctrl_peers d' = ctrl_peers d"
        using assms(3) d2(2) unfolding pr by (auto simp: Let_def res_simps)
      have ps: "get_peer_set d' = get_peer_set d" using d'(2) by (simp add: get_peer_set_def)
      have "ctrl_inv cm d'"
        using assms(1) nex unfolding ctrl_inv_def ps d'(1) by (auto split: if_splits)
      moreover have "configs_grow d d'"
        using next_module_id_free [OF j] by (auto simp: configs_grow_def d'(1))
      ultimately show ?thesis
        by (simp add: vote_step_def eff peers_announced_def configs_announced_def ps)
    qed
  qed
qed

lemma module_version_step:
  assumes "ctrl_inv cm d" "process_citem_vote_module_version cm cd voter ps i mi d = Ok (effects, d')"
  shows "vote_step cm cd d effects d'"
proof -
  obtain cfg where cfg: "tbl_get (modules_configs d) i = Some cfg" "voter \<in> set ps"
    using assms(2) by (auto simp: process_citem_vote_module_version_def res_simps split: option.splits)
  define d1 where "d1 = (let d0 = d\<lparr>modules_versions_votes :=
        tbl_insert (voter, i) (ConsensusVersion (major (mc_version cfg)) mi) (modules_versions_votes d)\<rparr>
      in if Some voter = cm_peer_pubkey cm
         then d0\<lparr>pending_modules_versions_votes := tbl_remove i (pending_modules_versions_votes d0)\<rparr> else d0)"
  have ups: "check_module_version_upgrades cd ps d1 = (effects, d')"
    using assms(2) cfg by (simp add: process_citem_vote_module_version_def Let_def d1_def)
  have d1: "modules_configs d1 = modules_configs d" "get_peer_set d1 = get_peer_set d"
    by (simp_all add: d1_def Let_def)
  have "ps \<noteq> []" using cfg(2) by auto
  have ne: "get_peer_set d1 \<noteq> []" using assms(1) d1(2) by (simp add: ctrl_inv_def)
  show ?thesis
    using ctrl_inv_upgrade [OF assms(1) \<open>ps \<noteq> []\<close> ne d1(1) ups] d1(2)
    by (simp add: vote_step_def peers_announced_def)
qed

lemma dispatch_vote_step:
  assumes "ctrl_inv cm d" "ps \<noteq> []" "dispatch_vote cm cd voter ps c d = Ok (effects, d')"
  shows "vote_step cm cd d effects d'"
  using assms add_peer_step [OF assms(1)] remove_peer_step [OF assms(1)]
    add_module_step_ok [OF assms(1,2)] module_version_step [OF assms(1)]
  by (cases c) auto


text \<open>A history of consensus items, each with the peer that proposed it and the effective peer set.\<close>

definition ctrl_body ::
  "ctrl_module \<Rightarrow> ctrl_codec \<Rightarrow> peer_pubkey \<times> peer_set \<times> byte list \<Rightarrow> (ctrl_db, propose_hook) wtx \<Rightarrow>
     (whatever, citem_effect list \<times> (ctrl_db, propose_hook) wtx) res" where
  "ctrl_body cm cd = (\<lambda>(voter, ps, raw). ctrl_process_citem cm cd voter ps raw)"

definition ctrl_run ::
  "ctrl_module \<Rightarrow> ctrl_codec \<Rightarrow> (peer_pubkey \<times> peer_set \<times> byte list) list \<Rightarrow> ctrl_state \<Rightarrow> ctrl_state" where
  "ctrl_run cm cd inps s =
     fold (\<lambda>i s. snd (write_with_expect_falliable run_propose_hook (ctrl_body cm cd i) s)) inps s"

definition ctrl_state_inv :: "ctrl_module \<Rightarrow> ctrl_codec \<Rightarrow> ctrl_state \<Rightarrow> bool" where
  "ctrl_state_inv cm cd s \<longleftrightarrow> ctrl_inv cm (fst s) \<and> snd s = refresh_consensus_proposals cm cd (fst s)"

lemma ctrl_process_citem_elim:
  assumes "ctrl_process_citem cm cd voter ps raw (wtx_new d) = Ok (effects, tx)"
  obtains c where "voter \<in> set ps" "dispatch_vote cm cd voter ps c d = Ok (effects, dbtx tx)"
    "dec_ctrl_citem cd raw = Some c"
    "on_commit_hooks tx = [SendProposals (refresh_consensus_proposals cm cd (dbtx tx))]"
proof -
  obtain c where "voter \<in> set ps" "dec_ctrl_citem cd raw = Some c"
    "dispatch_vote cm cd voter ps c d = Ok (effects, dbtx tx)"
    "on_commit_hooks tx = [SendProposals (refresh_consensus_proposals cm cd (dbtx tx))]"
    using assms
    by (auto simp: ctrl_process_citem_def decode_from_raw_def res_simps on_commit_def wtx_new_def split: option.splits)
  then show ?thesis using that by blast
qed

lemma ctrl_process_citem_step:
  assumes "ctrl_inv cm d" "ctrl_process_citem cm cd voter ps raw (wtx_new d) = Ok (effects, tx)"
  shows "vote_step cm cd d effects (dbtx tx)"
  using dispatch_vote_step [OF assms(1)] by (rule ctrl_process_citem_elim [OF assms(2)]) auto

interpretation ct: tx_component run_propose_hook "ctrl_body cm cd" "\<lambda>_. True" "ctrl_state_inv cm cd"
  for cm cd
proof
  fix d c i a tx
  assume inv: "ctrl_state_inv cm cd (d, c)" and ok: "ctrl_body cm cd i (wtx_new d) = Ok (a, tx)"
  obtain voter ps raw where i: "i = (voter, ps, raw)" by (cases i)
  have p: "ctrl_process_citem cm cd voter ps raw (wtx_new d) = Ok (a, tx)" using ok by (simp add: i ctrl_body_def)
  have "ctrl_inv cm (dbtx tx)"
    using ctrl_process_citem_step [OF _ p] inv by (simp add: ctrl_state_inv_def vote_step_def)
  with ctrl_process_citem_elim [OF p] show "ctrl_state_inv cm cd (commit run_propose_hook tx c)"
    by (metis commit_def ctrl_state_inv_def fold_simps fst_conv run_propose_hook.simps snd_conv)
qed

lemma ctrl_run_grows:
  "ctrl_state_inv cm cd s \<Longrightarrow> configs_grow (fst s) (fst (ctrl_run cm cd inps s))"
proof (induction inps arbitrary: s)
  case Nil
  then show ?case by (simp add: ctrl_run_def configs_grow_refl)
next
  case (Cons i inps)
  let ?s = "snd (write_with_expect_falliable run_propose_hook (ctrl_body cm cd i) s)"
  have "configs_grow (fst s) (fst ?s)"
  proof (rule write_with_cases [of "ctrl_body cm cd i" s run_propose_hook])
    fix a tx
    assume ok: "ctrl_body cm cd i (wtx_new (fst s)) = Ok (a, tx)"
      and w: "write_with_expect_falliable run_propose_hook (ctrl_body cm cd i) s = (Ok a, commit run_propose_hook tx (snd s))"
    obtain voter ps raw where i: "i = (voter, ps, raw)" by (cases i)
    have "vote_step cm cd (fst s) a (dbtx tx)"
      using ctrl_process_citem_step [of cm "fst s" cd voter ps raw a tx] ok Cons.prems
      by (simp add: i ctrl_body_def ctrl_state_inv_def)
    then show ?thesis by (simp add: w commit_def vote_step_def)
  qed (simp_all add: configs_grow_refl)
  moreover have "ctrl_state_inv cm cd ?s" using ct.write_inv [OF Cons.prems] by simp
  ultimately show ?case using Cons.IH [of ?s] configs_grow_trans by (simp add: ctrl_run_def)
qed

subsection \<open>Bootstrapping\<close>

lemma bootstrap_inv:
  assumes "bootstrap_consensus i v ps ctrl_db_empty = Ok (cfg, d)" "ps \<noteq> []"
  shows "ctrl_inv cm d" "set (get_peer_set d) = set ps"
    "tbl_get (modules_configs d) i = Some \<lparr>mc_kind = MODULE_KIND_CONSENSUS_CTRL, mc_version = v\<rparr>"
proof -
  have d: "ctrl_peers d = fold (\<lambda>p. tbl_insert p ()) ps tbl_empty"
    "modules_configs d = tbl_insert i \<lparr>mc_kind = MODULE_KIND_CONSENSUS_CTRL, mc_version = v\<rparr> tbl_empty"
    using assms(1) by (auto simp: bootstrap_consensus_def Let_def res_simps ctrl_db_empty_def)
  show s: "set (get_peer_set d) = set ps" by (auto simp: get_peer_set_set d fold_insert_peers)
  show "ctrl_inv cm d"
    using s assms(2) by (auto simp: ctrl_inv_def d split: if_splits)
  show "tbl_get (modules_configs d) i = Some \<lparr>mc_kind = MODULE_KIND_CONSENSUS_CTRL, mc_version = v\<rparr>"
    by (simp add: d)
qed

lemma ctrl_init_state:
  assumes "ctrl_init cd v self inits d = Ok (cm, s)" "ctrl_inv cm d"
  shows "ctrl_state_inv cm cd s" "modules_configs (fst s) = modules_configs d"
    "cm_peer_pubkey cm = self" "cm_modules_inits cm = inits"
  using assms by (auto simp: ctrl_init_def Let_def res_simps ctrl_state_inv_def ctrl_init_db_tx_def ctrl_inv_def
      get_peer_set_def)

text \<open>C32. Whatever consensus items a node processes from the bootstrap of the federation on, valid or
  not: the federation keeps a peer, a module that can be installed once only is, an
  installed module keeps its kind and major version and its version never goes back
  (so that module 0 stays the consensus control module), and the proposals on offer are those that the
  database calls for.\<close>

theorem ctrl_invariant:
  assumes "bootstrap_consensus i v ps ctrl_db_empty = Ok (cfg, d)" "ps \<noteq> []"
    and "ctrl_init cd v self inits d = Ok (cm, s)"
  shows "get_peer_set (fst (ctrl_run cm cd inps s)) \<noteq> [] \<and>
    ctrl_inv cm (fst (ctrl_run cm cd inps s)) \<and>
    configs_grow (fst (ctrl_run cm cd inps1 s)) (fst (ctrl_run cm cd inps2 (ctrl_run cm cd inps1 s))) \<and>
    (\<exists>c. tbl_get (modules_configs (fst (ctrl_run cm cd inps s))) i = Some c \<and>
       mc_kind c = MODULE_KIND_CONSENSUS_CTRL \<and> v \<le> mc_version c) \<and>
    snd (ctrl_run cm cd inps s) = refresh_consensus_proposals cm cd (fst (ctrl_run cm cd inps s))"
proof -
  note b = bootstrap_inv [OF assms(1,2)]
  have i: "ctrl_state_inv cm cd s" and c: "modules_configs (fst s) = modules_configs d"
    using ctrl_init_state [OF assms(3) b(1)] by simp_all
  have run: "ctrl_state_inv cm cd (ctrl_run cm cd is s)" for "is"
    unfolding ctrl_run_def by (rule ct.history_inv [OF i]) (simp add: list_all_iff)
  have "configs_grow (fst s) (fst (ctrl_run cm cd inps s))" by (rule ctrl_run_grows [OF i])
  then have "\<exists>c. tbl_get (modules_configs (fst (ctrl_run cm cd inps s))) i = Some c \<and>
       mc_kind c = MODULE_KIND_CONSENSUS_CTRL \<and> v \<le> mc_version c"
    using b(3) by (force simp: configs_grow_def c)
  then show ?thesis using run [of inps] ctrl_run_grows [OF run [of inps1], of inps2]
    by (auto simp: ctrl_state_inv_def ctrl_inv_def)
qed

theorem ctrl_invariant_witness:
  "\<exists>s. get_peer_set (fst (ctrl_run test_ctrl (test_codec (VoteRemovePeer 7)) [(7, [7], []), (7, [7, 8], [])] s)) \<noteq> []"
proof -
  let ?cd = "test_codec (VoteRemovePeer 7)"
  obtain cfg d where b: "bootstrap_consensus 0 (ConsensusVersion 0 1) [7] ctrl_db_empty = (Ok (cfg, d) :: (whatever, _) res)"
    by (simp add: bootstrap_consensus_def ctrl_db_empty_def Let_def)
  obtain s where i: "ctrl_init ?cd (ConsensusVersion 0 1) (Some 7) (cm_modules_inits test_ctrl) d = Ok (test_ctrl, s)"
    by (simp add: ctrl_init_def CTRL_VERSION_MAJOR_def CTRL_VERSION_MINOR_def Let_def test_ctrl_def)
  show ?thesis
    using ctrl_invariant [OF b _ i, of "[(7, [7], []), (7, [7, 8], [])]"] by (intro exI [of _ s]) simp
qed

subsection \<open>Panics and proposals\<close>

lemma dispatch_no_panic: "voter \<in> set ps \<Longrightarrow> length ps \<le> 255 \<Longrightarrow> length (entries (modules_configs d)) < 2 ^ 32 \<Longrightarrow>
    dispatch_vote cm cd voter ps c d \<noteq> Panic m"
proof (cases c)
  case (VoteAddModule k v)
  assume "voter \<in> set ps" "length (entries (modules_configs d)) < 2 ^ 32"
  then have "ps \<noteq> []" "length (entries (modules_configs d)) < 2 ^ 32" by auto
  from add_module_ok [OF this, where cm = cm and cd = cd and voter = voter and k = k and v = v] show ?thesis
    by (auto simp: VoteAddModule split: res.splits)
qed (auto simp: process_citem_vote_add_peer_def process_citem_vote_remove_peer_def
    process_citem_vote_module_version_def Let_def res_bind_Panic_iff to_num_peers_def split: if_splits option.splits prod.splits)


text \<open>C35. Processing a consensus item never panics when the proposer belongs to the peer set, the set
  has at most 255 members and not all module identifiers are taken. The assertion on the proposer
  is what fails otherwise.\<close>

theorem ctrl_process_citem_panics:
  assumes "length ps \<le> 255" "length (entries (modules_configs (dbtx tx))) < 2 ^ 32"
  shows "(\<exists>m. ctrl_process_citem cm cd voter ps raw tx = Panic m) \<longleftrightarrow> voter \<notin> set ps"
  using dispatch_no_panic [OF _ assms(1), of voter "dbtx tx" cm cd] assms(2)
  by (auto simp: ctrl_process_citem_def decode_from_raw_def res_bind_Panic_iff assert_or_panic_def
      split: option.splits prod.splits)

theorem ctrl_process_citem_panics_witness:
  "\<exists>m. ctrl_process_citem test_ctrl (test_codec (VoteAddPeer 5)) 9 [7] [] (wtx_new (test_ctrl_db [7])) = Panic m"
  using ctrl_process_citem_panics [of "[7]" "wtx_new (test_ctrl_db [7])" test_ctrl "test_codec (VoteAddPeer 5)" 9 "[]"]
  by (simp add: tbl_insert.rep_eq tbl_empty.rep_eq)

lemma upgrade_pending [simp]:
  "pending_modules_versions_votes (snd (check_module_version_upgrades cd ps d)) = pending_modules_versions_votes d"
  by (simp add: check_module_version_upgrades_def Let_def)

lemma in_proposals:
  "VoteAddPeer p \<in> set (consensus_proposals cm d) \<Longrightarrow> pending_add_peer_vote d = Some p"
  "VoteRemovePeer p \<in> set (consensus_proposals cm d) \<Longrightarrow> pending_remove_peer_vote d = Some p \<and>
     (\<forall>self. cm_peer_pubkey cm = Some self \<longrightarrow> tbl_get (remove_peer_votes d) self \<noteq> Some p)"
  "VoteAddModule k v \<in> set (consensus_proposals cm d) \<Longrightarrow> pending_add_module_vote d = Some (k, v)"
  "VoteModuleVersion i mi \<in> set (consensus_proposals cm d) \<Longrightarrow>
     tbl_get (pending_modules_versions_votes d) i = Some mi"
  by (auto simp: consensus_proposals_def propose_add_peer_def propose_remove_peer_def propose_add_module_def
      propose_module_versions_def Let_def tb.scan_get split: option.splits if_splits)

lemma own_vote_cleared:
  assumes "cm_peer_pubkey cm = Some self" "dispatch_vote cm cd self ps c d = Ok (effects, d')"
  shows "c \<notin> set (consensus_proposals cm d')"
proof (cases c)
  case (VoteAddPeer p)
  then have "pending_add_peer_vote d' = None"
    using assms by (auto simp: process_citem_vote_add_peer_def Let_def res_simps split: if_splits)
  then show ?thesis using in_proposals(1) VoteAddPeer by fastforce
next
  case (VoteRemovePeer p)
  then have "pending_remove_peer_vote d' = None \<or> tbl_get (remove_peer_votes d') self = Some p"
    using assms
    by (auto simp: process_citem_vote_remove_peer_def Let_def res_simps check_module_version_upgrades_def
        split: if_splits)
  then show ?thesis using in_proposals(2) [of p cm d'] VoteRemovePeer assms(1) by auto
next
  case (VoteAddModule k v)
  then have "pending_add_module_vote d' = None"
    using assms by (auto simp: process_citem_vote_add_module_def Let_def res_simps split: if_splits option.splits)
  then show ?thesis using in_proposals(3) VoteAddModule by fastforce
next
  case (VoteModuleVersion i mi)
  have "tbl_get (pending_modules_versions_votes d') i = None"
    using assms VoteModuleVersion
    by (auto simp: process_citem_vote_module_version_def Let_def res_simps split: option.splits
        dest!: arg_cong [where f = snd])
  then show ?thesis using in_proposals(4) VoteModuleVersion by fastforce
qed

text \<open>Once a vote of the node itself has been processed as a consensus item, the node does not
  propose that vote again.\<close>

lemma own_vote_not_proposed_again:
  assumes "cm_peer_pubkey cm = Some self"
    and "ctrl_process_citem cm cd self ps raw (wtx_new d) = Ok (effects, tx)"
    and "dec_ctrl_citem cd raw = Some c"
  shows "c \<notin> set (consensus_proposals cm (dbtx tx))"
  by (rule ctrl_process_citem_elim [OF assms(2)]) (use assms(1,3) own_vote_cleared in force)

end
