(* ===== verification/Meta_Module.thy ===== *)
theory Meta_Module
  imports Ctrl_Theorems "HOL-Library.List_Lexorder"
begin

section \<open>The meta module\<close>

text \<open>
  \<open>modules/meta/src\<close>: federation metadata, values for 8-bit keys that are agreed on by votes. The
  record \<open>meta_db\<close> has one field per table of \<open>tables.rs\<close>.

  Within a write transaction the storage engine \<open>redb\<close> hands out a table once: opening a table
  that is still open fails with \<open>TableAlreadyOpen\<close>, and the database layer turns every storage
  error into a panic. Whether it does is the parameter \<open>excl\<close> of the two operations that
  open a table again while they hold it (\<open>process_citem_approve_vote\<close>, whose \<open>match\<close> keeps the
  table of its scrutinee, and \<open>recheck_consensus_after_peer_removal\<close>); the documented behaviour of
  \<open>redb\<close> is \<open>excl\<close> = True.
\<close>

type_synonym meta_key = "8 word"
type_synonym meta_value = "byte list"

datatype meta_citem = ProposeValue meta_key meta_value | ApproveVote meta_key peer_pubkey

record meta_codec =
  enc_meta_citem :: "meta_citem \<Rightarrow> byte list"
  dec_meta_citem :: "byte list \<Rightarrow> meta_citem option"
  enc_key_value_effect :: "meta_key \<times> meta_value \<Rightarrow> byte list"

definition KEY_VALUE_EFFECT_ID :: effect_id where
  "KEY_VALUE_EFFECT_ID = 0"

record meta_db =
  meta_self_version :: "consensus_version option"
  key_value_votes :: "(meta_key \<times> peer_pubkey, meta_value) table"
  consensus_values :: "(meta_key, meta_value) table"
  pending_proposals :: "(meta_key, meta_value) table"

record meta_module =
  mm_version :: consensus_version
  mm_peer_pubkey :: "peer_pubkey option"

definition reopen_table :: "bool \<Rightarrow> ('e, unit) res" where
  "reopen_table excl = assert_or_panic ''TableAlreadyOpen'' (\<not> excl)"

subsection \<open>Reads\<close>

definition get_consensus_values :: "meta_db \<Rightarrow> (meta_key \<times> meta_value) list" where
  "get_consensus_values d = entries (consensus_values d)"

text \<open>The range \<open>(key, PeerPubkey::ZERO)..=(key, PeerPubkey::MAX)\<close> of the votes.\<close>

definition votes_range :: "meta_db \<Rightarrow> meta_key \<Rightarrow> ((meta_key \<times> peer_pubkey) \<times> meta_value) list" where
  "votes_range d key = range_entries (\<lambda>k. (key, 0) \<le> k \<and> k \<le> (key, - 1)) (entries (key_value_votes d))"

definition get_votes_for_key :: "meta_db \<Rightarrow> meta_key \<Rightarrow> (peer_pubkey \<times> meta_value) list" where
  "get_votes_for_key d key = map (\<lambda>e. (snd (fst e), snd e)) (votes_range d key)"

subsection \<open>Proposals\<close>

text \<open>The first vote in the range for the value; the source asserts that the range holds the key only.\<close>

fun find_matching_peer ::
  "meta_key \<Rightarrow> meta_value \<Rightarrow> ((meta_key \<times> peer_pubkey) \<times> meta_value) list \<Rightarrow> ('e, peer_pubkey option) res" where
  "find_matching_peer key value [] = Ok None"
| "find_matching_peer key value (((vote_key, vote_peer), vote_value) # es) =
     res_bind (assert_or_panic ''assert_eq!(key, vote_key)'' (key = vote_key)) (\<lambda>_.
       if vote_value = value then Ok (Some vote_peer) else find_matching_peer key value es)"

definition should_propose :: "meta_module \<Rightarrow> meta_db \<Rightarrow> meta_key \<Rightarrow> meta_value \<Rightarrow> bool" where
  "should_propose mm d key value = (case mm_peer_pubkey mm of
      Some self \<Rightarrow> tbl_get (key_value_votes d) (key, self) \<noteq> Some value
    | None \<Rightarrow> True)"

definition meta_proposals :: "meta_module \<Rightarrow> meta_db \<Rightarrow> ('e, meta_citem list) res" where
  "meta_proposals mm d =
     res_fold (\<lambda>(key, value) acc.
       if should_propose mm d key value then
         res_bind (find_matching_peer key value (votes_range d key)) (\<lambda>found.
           Ok (acc @ [case found of
               Some peer \<Rightarrow> ApproveVote key peer
             | None \<Rightarrow> ProposeValue key value]))
       else Ok acc) (entries (pending_proposals d)) []"

definition meta_refresh_proposals :: "meta_module \<Rightarrow> meta_codec \<Rightarrow> meta_db \<Rightarrow> ('e, proposals) res" where
  "meta_refresh_proposals mm cd d =
     res_bind (meta_proposals mm d) (\<lambda>cs. Ok (map (enc_meta_citem cd) cs))"

definition propose_key_value ::
  "meta_module \<Rightarrow> meta_codec \<Rightarrow> meta_key \<Rightarrow> meta_value \<Rightarrow> meta_db \<times> proposals \<Rightarrow>
     (whatever, meta_db \<times> proposals) res" where
  "propose_key_value mm cd key value s =
     (let d = (fst s)\<lparr>pending_proposals := tbl_insert key value (pending_proposals (fst s))\<rparr>
      in res_bind (meta_refresh_proposals mm cd d) (\<lambda>ps. Ok (d, ps)))"

subsection \<open>Votes\<close>

definition count_value_votes :: "meta_db \<Rightarrow> peer_set \<Rightarrow> meta_key \<Rightarrow> meta_value \<Rightarrow> nat" where
  "count_value_votes d ps key value =
     length (filter (\<lambda>e. snd e = value \<and> snd (fst e) \<in> set ps) (votes_range d key))"

text \<open>The writes made once a value has reached the threshold.\<close>

definition settle_value :: "peer_set \<Rightarrow> meta_key \<Rightarrow> meta_value \<Rightarrow> meta_db \<Rightarrow> meta_db" where
  "settle_value ps key value d = d\<lparr>pending_proposals := tbl_remove key (pending_proposals d),
     consensus_values := tbl_insert key value (consensus_values d),
     key_value_votes := tbl_retain (\<lambda>(vote_key, voter) _. vote_key \<noteq> key \<or> voter \<notin> set ps) (key_value_votes d)\<rparr>"

definition process_citem_vote_key_value ::
  "meta_codec \<Rightarrow> peer_pubkey \<Rightarrow> peer_set \<Rightarrow> meta_key \<Rightarrow> meta_value \<Rightarrow> meta_db \<Rightarrow>
     (whatever, citem_effect list \<times> meta_db) res" where
  "process_citem_vote_key_value cd voter ps key value d =
     (if tbl_get (key_value_votes d) (key, voter) = Some value then Ok ([], d)
      else
        let d1 = d\<lparr>key_value_votes := tbl_insert (key, voter) value (key_value_votes d)\<rparr>
        in res_bind (to_num_peers ps) (\<lambda>n.
          if threshold n \<le> count_value_votes d1 ps key value
          then Ok ([effect_encode KEY_VALUE_EFFECT_ID (enc_key_value_effect cd (key, value))],
                   settle_value ps key value d1)
          else Ok ([], d1)))"

definition process_citem_approve_vote ::
  "bool \<Rightarrow> meta_codec \<Rightarrow> peer_pubkey \<Rightarrow> peer_set \<Rightarrow> meta_key \<Rightarrow> peer_pubkey \<Rightarrow> meta_db \<Rightarrow>
     (whatever, citem_effect list \<times> meta_db) res" where
  "process_citem_approve_vote excl cd voter ps key approved d =
     (case tbl_get (key_value_votes d) (key, approved) of
        Some value \<Rightarrow> res_bind (reopen_table excl) (\<lambda>_.
          process_citem_vote_key_value cd voter ps key value d)
      | None \<Rightarrow> Err ''Invalid peer_pubkey'')"

subsection \<open>Rechecking the votes when a peer has left\<close>

definition keys_with_votes :: "meta_db \<Rightarrow> meta_key list" where
  "keys_with_votes d = sort (remdups (map (\<lambda>e. fst (fst e)) (entries (key_value_votes d))))"

definition value_counts :: "meta_db \<Rightarrow> peer_set \<Rightarrow> meta_key \<Rightarrow> (meta_value, nat) table" where
  "value_counts d ps key =
     fold (\<lambda>e t. if snd (fst e) \<in> set ps
         then tbl_insert (snd e) (Suc (case tbl_get t (snd e) of Some n \<Rightarrow> n | None \<Rightarrow> 0)) t
         else t) (votes_range d key) tbl_empty"

fun settle_first :: "bool \<Rightarrow> peer_set \<Rightarrow> nat \<Rightarrow> meta_key \<Rightarrow> (meta_value \<times> nat) list \<Rightarrow> meta_db \<Rightarrow>
     (whatever, meta_db) res" where
  "settle_first excl ps thr key [] d = Ok d"
| "settle_first excl ps thr key ((value, n) # vs) d =
     (if thr \<le> n
      then res_bind (reopen_table excl) (\<lambda>_. Ok (settle_value ps key value d))
      else settle_first excl ps thr key vs d)"

definition recheck_key :: "bool \<Rightarrow> peer_set \<Rightarrow> meta_key \<Rightarrow> meta_db \<Rightarrow> (whatever, meta_db) res" where
  "recheck_key excl ps key d =
     (if tbl_get (consensus_values d) key \<noteq> None then Ok d
      else res_bind (to_num_peers ps) (\<lambda>n.
        settle_first excl ps (threshold n) key (entries (value_counts d ps key)) d))"

definition recheck_consensus_after_peer_removal ::
  "bool \<Rightarrow> peer_set \<Rightarrow> meta_db \<Rightarrow> (whatever, meta_db) res" where
  "recheck_consensus_after_peer_removal excl ps d = res_fold (recheck_key excl ps) (keys_with_votes d) d"

subsection \<open>The module interface\<close>

fun dispatch_meta :: "bool \<Rightarrow> meta_codec \<Rightarrow> peer_pubkey \<Rightarrow> peer_set \<Rightarrow> meta_citem \<Rightarrow> meta_db \<Rightarrow>
     (whatever, citem_effect list \<times> meta_db) res" where
  "dispatch_meta excl cd voter ps (ProposeValue key value) d = process_citem_vote_key_value cd voter ps key value d"
| "dispatch_meta excl cd voter ps (ApproveVote key approved) d = process_citem_approve_vote excl cd voter ps key approved d"

definition meta_decode_from_raw :: "meta_codec \<Rightarrow> byte list \<Rightarrow> (whatever, meta_citem) res" where
  "meta_decode_from_raw cd raw = (case dec_meta_citem cd raw of
      Some c \<Rightarrow> Ok c | None \<Rightarrow> Err ''Failed to decode CoreConsensusCitem'')"

definition meta_process_citem ::
  "bool \<Rightarrow> meta_module \<Rightarrow> meta_codec \<Rightarrow> peer_pubkey \<Rightarrow> peer_set \<Rightarrow> byte list \<Rightarrow> (meta_db, propose_hook) wtx \<Rightarrow>
     (whatever, citem_effect list \<times> (meta_db, propose_hook) wtx) res" where
  "meta_process_citem excl mm cd voter ps raw tx =
     res_bind (assert_or_panic ''peer_set.contains(&peer_pubkey)'' (voter \<in> set ps)) (\<lambda>_.
     res_bind (meta_decode_from_raw cd raw) (\<lambda>c.
     res_bind (dispatch_meta excl cd voter ps c (dbtx tx)) (\<lambda>(effects, d).
     res_bind (meta_refresh_proposals mm cd d) (\<lambda>props.
       Ok (effects, on_commit (SendProposals props) (tx\<lparr>dbtx := d\<rparr>))))))"

definition meta_process_input :: "byte list \<Rightarrow> (meta_db, propose_hook) wtx \<Rightarrow>
     (whatever, citem_effect list \<times> (meta_db, propose_hook) wtx) res" where
  "meta_process_input raw tx = Err ''Meta module does not support any inputs''"

definition meta_process_output :: "byte list \<Rightarrow> (meta_db, propose_hook) wtx \<Rightarrow>
     (whatever, citem_effect list \<times> (meta_db, propose_hook) wtx) res" where
  "meta_process_output raw tx = Err ''Meta module does not support any outputs''"

definition is_remove_peer :: "module_citem_effect \<Rightarrow> bool" where
  "is_remove_peer e \<longleftrightarrow> effect_module_kind e = MODULE_KIND_CONSENSUS_CTRL \<and>
     effect_eid (effect_inner e) = ctrl_effect_id (RemovePeerEffect 0)"

definition meta_process_effects :: "bool \<Rightarrow> peer_set \<Rightarrow> module_citem_effect list \<Rightarrow>
     (meta_db, propose_hook) wtx \<Rightarrow> (whatever, (meta_db, propose_hook) wtx) res" where
  "meta_process_effects excl ps effects tx =
     res_bind (res_fold (\<lambda>e d. if is_remove_peer e then recheck_consensus_after_peer_removal excl ps d else Ok d)
         effects (dbtx tx)) (\<lambda>d. Ok (tx\<lparr>dbtx := d\<rparr>))"

subsection \<open>Initialization\<close>

definition META_VERSION :: consensus_version where
  "META_VERSION = ConsensusVersion 0 0"

definition meta_module_init :: module_init where
  "meta_module_init = \<lparr>init_singleton = True,
     init_supported_versions = tbl_insert (major META_VERSION) (minor META_VERSION) tbl_empty\<rparr>"

definition meta_init_db_tx :: "consensus_version \<Rightarrow> meta_db \<Rightarrow> meta_db" where
  "meta_init_db_tx v d = d\<lparr>meta_self_version := Some v\<rparr>"

definition meta_init :: "consensus_version \<Rightarrow> peer_pubkey option \<Rightarrow> meta_db \<Rightarrow>
     (module_init_error, meta_module \<times> meta_db \<times> proposals) res" where
  "meta_init v self d =
     (if v \<noteq> META_VERSION then Err (UnsupportedVersion v META_VERSION)
      else Ok (\<lparr>mm_version = v, mm_peer_pubkey = self\<rparr>, meta_init_db_tx v d, []))"

end
