(* ===== verification/Cons_Round.thy ===== *)
theory Cons_Round
  imports Cons_Db
begin

section \<open>Finality votes and the end of a round\<close>

text \<open>
  \<open>consensus/src/consensus.rs\<close>, \<open>consensus/handle_finality_vote.rs\<close> and \<open>consensus/finish_round.rs\<close>.
  The watch channels of the struct \<open>Consensus\<close> are the record \<open>channels\<close>; the closures that the code
  registers with \<open>on_commit\<close> are the datatype \<open>cons_hook\<close>, run by \<open>run_hook\<close>. The two channels of
  type \<open>()\<close> only wake their receivers and are counters here.
\<close>

record channels =
  current_round_with_timeout :: "block_round \<times> bool"
  finality_consensus :: block_round
  finality_self_vote :: block_round
  new_votes :: nat
  new_proposal :: nat

datatype cons_hook =
  SendFinalitySelfVote block_round
| SendFinalityConsensus block_round
| SendRoundTimeout block_round bool
| NotifyNewVotes
| NotifyNewProposal

primrec run_hook :: "cons_hook \<Rightarrow> channels \<Rightarrow> channels" where
  "run_hook (SendFinalitySelfVote r) c = c\<lparr>finality_self_vote := r\<rparr>"
| "run_hook (SendFinalityConsensus r) c = c\<lparr>finality_consensus := r\<rparr>"
| "run_hook (SendRoundTimeout r t) c =
     (let v = current_round_with_timeout c in
      if fst v = r \<and> snd v then c else c\<lparr>current_round_with_timeout := (r, t)\<rparr>)"
| "run_hook NotifyNewVotes c = c\<lparr>new_votes := Suc (new_votes c)\<rparr>"
| "run_hook NotifyNewProposal c = c\<lparr>new_proposal := Suc (new_proposal c)\<rparr>"

type_synonym cons_tx = "(cons_db, cons_hook) wtx"

definition upd :: "(cons_db \<Rightarrow> cons_db) \<Rightarrow> cons_tx \<Rightarrow> cons_tx" where
  "upd f tx = tx\<lparr>dbtx := f (dbtx tx)\<rparr>"

lemma upd_simps [simp]:
  "dbtx (upd f tx) = f (dbtx tx)" "on_commit_hooks (upd f tx) = on_commit_hooks tx"
  by (simp_all add: upd_def)

subsection \<open>Finality votes\<close>

definition finality_votes_sorted :: "cons_db \<Rightarrow> peer_set \<Rightarrow> block_round list" where
  "finality_votes_sorted d ps =
     sort (map (\<lambda>k. case get_finality_vote d k of Some r \<Rightarrow> r | None \<Rightarrow> 0) ps)"

definition recalculate_finality_consensus_tx :: "block_round \<Rightarrow> cons_tx \<Rightarrow> ('e, cons_tx) res" where
  "recalculate_finality_consensus_tx cur tx =
     res_bind (get_consensus_params (dbtx tx) cur) (\<lambda>params.
     let votes = finality_votes_sorted (dbtx tx) (peers params) in
     res_bind (to_num_peers (peers params)) (\<lambda>np.
     res_bind (index votes (max_faulty np)) (\<lambda>new_cons.
     let upd_cons = update_finality_consensus new_cons (dbtx tx);
         prev_cons = (case fst upd_cons of Some r \<Rightarrow> r | None \<Rightarrow> 0);
         tx1 = upd (\<lambda>_. snd upd_cons) tx;
         cons = (if new_cons < prev_cons then prev_cons else new_cons) in
     Ok (if prev_cons \<noteq> cons
         then on_commit (SendFinalityConsensus cons) (upd (prune_dummy_votes cons) tx1)
         else tx1))))"

definition update_peer_finality_vote_round ::
  "block_round \<Rightarrow> peer_pubkey \<Rightarrow> block_round \<Rightarrow> cons_tx \<Rightarrow> ('e, cons_tx) res" where
  "update_peer_finality_vote_round cur k vote tx =
     (let upd_vote = update_finality_vote k vote (dbtx tx);
          prev = fst upd_vote;
          tx1 = upd (\<lambda>_. snd upd_vote) tx in
      if (case prev of Some p \<Rightarrow> vote < p | None \<Rightarrow> False) then Ok tx1
      else if (case prev of Some p \<Rightarrow> vote = p | None \<Rightarrow> False) then Ok tx1
      else recalculate_finality_consensus_tx cur tx1)"

datatype process_finality_error = FinalityInvalidSignatures

definition process_finality_vote_update_response_tx ::
  "crypto \<Rightarrow> peer_pubkey \<Rightarrow> block_round signed \<Rightarrow> cons_tx \<Rightarrow> (process_finality_error, cons_tx) res" where
  "process_finality_vote_update_response_tx cr k update tx =
     (let cur = get_current_round (dbtx tx) in
      res_bind (map_err (\<lambda>_. FinalityInvalidSignatures)
          (verify_sig_peer_pubkey cr (finality_sign_hash cr) update k)) (\<lambda>_.
      update_peer_finality_vote_round cur k (inner update) tx))"

subsection \<open>The end of a round\<close>

datatype round_invariant_error = PinnedMismatch

text \<open>
  One pass through the body of the loop of \<open>check_round_end\<close>: it either goes on with the next
  round, with the last notarized round and the database of then, or leaves the loop with the
  decision about a timeout.
\<close>

datatype round_iter = Continue "block_round option" cons_db | Break bool

definition check_pin :: "crypto \<Rightarrow> block_round \<Rightarrow> cons_db \<Rightarrow> (round_invariant_error, unit) res" where
  "check_pin cr cur d =
     res_bind (expect ''Can't underflow'' (arr_prev cur)) (\<lambda>prev.
     case get_pinned_block d prev of
       None \<Rightarrow> Ok ()
     | Some pinned \<Rightarrow>
         ensure (Some pinned = map_option (header_hash cr) (get_notarized_block d prev)) PinnedMismatch)"

definition round_body ::
  "crypto \<Rightarrow> block_round \<Rightarrow> block_header option \<Rightarrow> block_round \<Rightarrow> block_round option \<Rightarrow> cons_db \<Rightarrow>
     (round_invariant_error, round_iter) res" where
  "round_body cr start highest cur last_r d =
     res_bind (if start \<noteq> cur then check_pin cr cur d else Ok ()) (\<lambda>_.
     if (case highest of Some h \<Rightarrow> cur \<le> bh_round h | None \<Rightarrow> False) then Ok (Continue (Some cur) d)
     else
       res_bind (get_consensus_params d cur) (\<lambda>params.
       res_bind (num_peers params) (\<lambda>np.
       res_bind (get_proposal d cur) (\<lambda>prop.
       case (prop, threshold np \<le> get_num_votes_proposal d cur) of
         (Some p, True) \<Rightarrow>
           res_bind (insert_notarized_block cur p None d) (\<lambda>out. Ok (Continue (Some cur) (snd out)))
       | _ \<Rightarrow>
           (let dummies = get_num_votes_dummy d cur in
            if threshold np \<le> dummies then Ok (Continue last_r d)
            else
              res_bind (params_leader_idx cr params cur) (\<lambda>leader.
              Ok (Break (prop \<noteq> None \<or> max_faulty np < dummies \<or>
                         get_vote_dummy d cur leader \<noteq> None))))))))"

record round_end =
  re_round :: block_round
  re_last_notarized :: "block_round option"
  re_needs_timeout :: bool
  re_db :: cons_db

function round_loop ::
  "crypto \<Rightarrow> block_round \<Rightarrow> block_header option \<Rightarrow> block_round \<Rightarrow> block_round option \<Rightarrow> cons_db \<Rightarrow>
     (round_invariant_error, round_end) res" where
  "round_loop cr start highest cur last_r d =
     (case round_body cr start highest cur last_r d of
        Panic m \<Rightarrow> Panic m
      | Err e \<Rightarrow> Err e
      | Ok (Break t) \<Rightarrow>
          Ok \<lparr>re_round = cur, re_last_notarized = last_r, re_needs_timeout = t, re_db = d\<rparr>
      | Ok (Continue last_r' d') \<Rightarrow>
          (case (arr_next_expect cur :: (round_invariant_error, block_round) res) of
             Panic m \<Rightarrow> Panic m
           | Err e \<Rightarrow> Err e
           | Ok nxt \<Rightarrow> round_loop cr start highest nxt last_r' d'))"
  by pat_completeness auto
termination
proof (relation "measure (\<lambda>(_, _, _, cur, _, _). 2 ^ 64 - unat cur)", goal_cases)
  case (2 cr start highest cur last_r d it last_r' d' nxt)
  then have "cur \<noteq> - 1" "nxt = cur + 1" by (auto simp: res_simps)
  then have "unat nxt = Suc (unat cur)" by (simp add: unat_plus_one)
  moreover have "unat nxt < 2 ^ 64" using unsigned_less [of "nxt", where 'a=nat] by simp
  ultimately show ?case by simp
qed simp

declare round_loop.simps [simp del]

text \<open>The own finality vote, when the loop notarized something.\<close>

definition record_self_vote ::
  "peer_pubkey option \<Rightarrow> block_round \<Rightarrow> block_round option \<Rightarrow> cons_tx \<Rightarrow> ('e, cons_tx) res" where
  "record_self_vote our_peer_pubkey cur last_r tx = (case last_r of
      None \<Rightarrow> Ok tx
    | Some l \<Rightarrow>
        res_bind (arr_next_expect l) (\<lambda>self_vote.
        let tx1 = on_commit (SendFinalitySelfVote self_vote) tx in
        case our_peer_pubkey of
          None \<Rightarrow> Ok tx1
        | Some k \<Rightarrow> update_peer_finality_vote_round cur k self_vote tx1))"

definition check_round_end ::
  "crypto \<Rightarrow> peer_pubkey option \<Rightarrow> block_round \<Rightarrow> cons_tx \<Rightarrow> (round_invariant_error, cons_tx) res" where
  "check_round_end cr our_peer_pubkey start tx =
     (let highest = get_prev_notarized_block (dbtx tx) (- 1) in
      res_bind (round_loop cr start highest start None (dbtx tx)) (\<lambda>e.
      let cur = re_round e;
          tx1 = upd (\<lambda>_. if start \<noteq> cur then set_current_round cur (re_db e) else re_db e) tx in
      res_bind (record_self_vote our_peer_pubkey cur (re_last_notarized e) tx1) (\<lambda>tx2.
      Ok (if cur \<noteq> start \<or> re_needs_timeout e
          then on_commit (SendRoundTimeout cur (re_needs_timeout e)) tx2
          else tx2))))"

end
