(* ===== verification/Cons_Handlers.thy ===== *)
theory Cons_Handlers
  imports Cons_Round
begin

section \<open>The handlers of the consensus\<close>

text \<open>
  \<open>consensus/handle_vote.rs\<close>, \<open>consensus/handle_notarized_block.rs\<close>, \<open>consensus/init.rs\<close> and the
  scheduling of new parameters in \<open>consensus/getters.rs\<close>: every transaction that changes the
  consensus database. The bodies with the suffix \<open>_tx\<close> run inside a transaction; the handlers without it run them
  through the database layer on the state of a node, its database and its channels.
\<close>

definition notify_new_votes :: "cons_tx \<Rightarrow> cons_tx" where
  "notify_new_votes tx = on_commit NotifyNewVotes tx"

subsection \<open>Votes and proposals\<close>

datatype process_vote_error =
  InvalidRound block_round block_round
| InvalidSignature
| ForkedProposal peer_idx block_header
| ForkedSignature peer_idx signature
| VoteForADifferentProposal
| NotALeader
| Dummy
| InvalidContent verify_with_content_error
| VoteRoundInvariant round_invariant_error
| DoesNotExtend "block_header option"

text \<open>
  The part of \<open>process_vote_response_tx\<close> for a proposal. \<open>Inl\<close> is the early return for a proposal
  that is already there, \<open>Inr\<close> goes on with the proposal inserted.
\<close>

definition process_proposal ::
  "crypto \<Rightarrow> block_round \<Rightarrow> consensus_params \<Rightarrow> params_len \<Rightarrow> peer_idx \<Rightarrow> block_header signed \<Rightarrow> payload \<Rightarrow>
     cons_tx \<Rightarrow> (process_vote_error, cons_tx + cons_tx) res" where
  "process_proposal cr cur params clen i block payload tx =
     res_bind (params_leader_idx cr params cur) (\<lambda>leader.
     res_bind (ensure (leader = i) NotALeader) (\<lambda>_.
     res_bind (ensure (\<not> is_dummy (inner block)) Dummy) (\<lambda>_.
     res_bind (map_err InvalidContent
         (verify_with_content cr (inner block) (params_hash cr params) clen payload)) (\<lambda>_.
     let prev = get_prev_notarized_block (dbtx tx) cur in
     res_bind (ensure (does_directly_extend cr (inner block) prev) (DoesNotExtend prev)) (\<lambda>_.
     res_bind (insert_block_proposal cur (inner block) payload (dbtx tx)) (\<lambda>out.
     case fst out of
       AlreadyPresent existing \<Rightarrow>
         if existing \<noteq> inner block then Err (ForkedProposal i existing)
         else Ok (Inl (upd (\<lambda>_. snd out) tx))
     | Inserted \<Rightarrow> Ok (Inr (on_commit NotifyNewProposal (upd (\<lambda>_. snd out) tx)))))))))"

text \<open>The part that counts a vote, or a proposal as a first vote.\<close>

definition process_vote ::
  "crypto \<Rightarrow> peer_pubkey option \<Rightarrow> block_round \<Rightarrow> consensus_params \<Rightarrow> params_len \<Rightarrow> peer_idx \<Rightarrow>
     block_header signed \<Rightarrow> cons_tx \<Rightarrow> (process_vote_error, cons_tx) res" where
  "process_vote cr our cur params clen i vote tx =
     res_bind (map_err (\<lambda>_. InvalidSignature)
         (verify_sig_peer_idx cr (header_sign_hash cr) vote i (peers params))) (\<lambda>_.
     res_bind
       (if is_dummy (inner vote) then
          res_bind (map_err InvalidContent
            (verify_with_content cr (inner vote) (params_hash cr params) clen payload_empty)) (\<lambda>_.
          Ok (insert_dummy_vote cur i (sig vote) (dbtx tx)))
        else
          res_bind (get_proposal (dbtx tx) cur) (\<lambda>prop.
          res_bind (ensure (prop = None \<or> prop = Some (inner vote)) VoteForADifferentProposal) (\<lambda>_.
          let out = insert_block_vote cur i vote (dbtx tx) in
          Ok (outcome_map sig (fst out), snd out)))) (\<lambda>out.
     let tx1 = notify_new_votes (upd (\<lambda>_. snd out) tx) in
     case fst out of
       AlreadyPresent existing \<Rightarrow>
         if existing \<noteq> sig vote then Err (ForkedSignature i existing) else Ok tx1
     | Inserted \<Rightarrow> map_err VoteRoundInvariant (check_round_end cr our cur tx1)))"

definition process_vote_response_tx ::
  "crypto \<Rightarrow> peer_pubkey option \<Rightarrow> peer_idx \<Rightarrow> wait_vote_response \<Rightarrow> cons_tx \<Rightarrow>
     (process_vote_error, cons_tx) res" where
  "process_vote_response_tx cr our i resp tx =
     (let cur = get_current_round (dbtx tx);
          received = bh_round (inner (response_block resp)) in
      res_bind (ensure (received = cur) (InvalidRound cur received)) (\<lambda>_.
      res_bind (get_consensus_params (dbtx tx) cur) (\<lambda>params.
      res_bind (params_len cr params) (\<lambda>clen.
      case resp of
        Vote block \<Rightarrow> process_vote cr our cur params clen i block tx
      | Proposal block payload \<Rightarrow>
          res_bind (process_proposal cr cur params clen i block payload tx) (\<lambda>r.
          case r of Inl tx1 \<Rightarrow> Ok tx1
          | Inr tx1 \<Rightarrow> process_vote cr our cur params clen i block tx1)))))"

subsection \<open>Notarized blocks\<close>

datatype process_notarized_block_error =
  InvalidSignatures invalid_notarization_error
| WrongRoundDummy
| WrongRoundBlock block_round block_round
| WrongParent
| NotarizedRoundInvariant round_invariant_error
| InvalidNotarizedContent verify_with_content_error

definition is_fatal :: "process_notarized_block_error \<Rightarrow> bool" where
  "is_fatal e = (case e of InvalidNotarizedContent _ \<Rightarrow> True | _ \<Rightarrow> False)"

definition insert_notarized_block_tx ::
  "block_header notarized \<Rightarrow> payload \<Rightarrow> cons_tx \<Rightarrow> (process_notarized_block_error, cons_tx) res" where
  "insert_notarized_block_tx block payload tx =
     (let r = bh_round (n_inner block) in
      res_bind (insert_notarized_block r (n_inner block) (Some payload) (dbtx tx)) (\<lambda>out.
      let d = fold (\<lambda>(i, s) d. snd (insert_block_vote r i \<lparr>inner = n_inner block, sig = s\<rparr> d))
                (entries (sigs block)) (snd out) in
      Ok (notify_new_votes (upd (\<lambda>_. d) tx))))"

text \<open>The dummy branch and the two branches of a real block.\<close>

definition process_notarized_dummy ::
  "crypto \<Rightarrow> peer_pubkey option \<Rightarrow> block_round \<Rightarrow> block_header notarized \<Rightarrow> cons_tx \<Rightarrow>
     (process_notarized_block_error, cons_tx) res" where
  "process_notarized_dummy cr our cur block tx =
     res_bind (ensure (bh_round (n_inner block) = cur) WrongRoundDummy) (\<lambda>_.
     let d = fold (\<lambda>(i, s) d. snd (insert_dummy_vote cur i s d)) (entries (sigs block)) (dbtx tx);
         tx1 = notify_new_votes (upd (\<lambda>_. d) tx) in
     map_err NotarizedRoundInvariant (check_round_end cr our cur tx1))"

definition rewind_and_insert ::
  "crypto \<Rightarrow> block_header option \<Rightarrow> block_header notarized \<Rightarrow> payload \<Rightarrow> cons_tx \<Rightarrow>
     (process_notarized_block_error, cons_tx) res" where
  "rewind_and_insert cr latest block payload tx =
     res_bind (expect ''Must have latest notarized'' (map_option bh_round latest)) (\<lambda>latest_round.
     let second = get_prev_notarized_block (dbtx tx) latest_round in
     res_bind (ensure (does_directly_extend cr (n_inner block) second) WrongParent) (\<lambda>_.
     insert_notarized_block_tx block payload (upd (delete_notarized_block latest_round) tx)))"

definition process_notarized_real ::
  "crypto \<Rightarrow> peer_pubkey option \<Rightarrow> block_round \<Rightarrow> block_header notarized \<Rightarrow> payload \<Rightarrow> cons_tx \<Rightarrow>
     (process_notarized_block_error, cons_tx) res" where
  "process_notarized_real cr our cur block payload tx =
     (let latest = get_prev_notarized_block (dbtx tx) cur; r = bh_round (n_inner block);
          insert =
            res_bind
              (if does_directly_extend cr (n_inner block) latest
               then insert_notarized_block_tx block payload tx
               else rewind_and_insert cr latest block payload tx) (\<lambda>tx1.
            map_err NotarizedRoundInvariant (check_round_end cr our cur tx1)) in
      case latest of
        None \<Rightarrow> insert
      | Some l \<Rightarrow>
          if r = bh_round l then
            if l \<noteq> n_inner block
            then Panic ''Consensus failure: Two different notarized blocks at the same height''
            else Ok tx
          else if r \<le> bh_round l then Err (WrongRoundBlock (bh_round l) r)
          else insert)"

definition process_notarized_block_response_tx ::
  "crypto \<Rightarrow> peer_pubkey option \<Rightarrow> wait_notarized_block_response \<Rightarrow> cons_tx \<Rightarrow>
     (process_notarized_block_error, cons_tx) res" where
  "process_notarized_block_response_tx cr our resp tx =
     (let cur = get_current_round (dbtx tx); block = wn_block resp in
      res_bind (get_consensus_params (dbtx tx) (bh_round (n_inner block))) (\<lambda>params.
      res_bind (params_len cr params) (\<lambda>clen.
      res_bind (map_err InvalidSignatures (verify_sigs cr (header_sign_hash cr) block params)) (\<lambda>_.
      res_bind (map_err InvalidNotarizedContent
          (verify_with_content cr (n_inner block) (params_hash cr params) clen (wn_payload resp))) (\<lambda>_.
      if is_dummy (n_inner block) then process_notarized_dummy cr our cur block tx
      else process_notarized_real cr our cur block (wn_payload resp) tx)))))"

subsection \<open>New parameters\<close>

text \<open>The channel is read while the transaction runs; its value is an argument.\<close>

definition consensus_params_change_tx ::
  "crypto \<Rightarrow> channels \<Rightarrow> block_round \<Rightarrow> timestamp \<Rightarrow> peer_set \<Rightarrow> cons_db \<Rightarrow> ('e, cons_db) res" where
  "consensus_params_change_tx cr c r ts new_peer_set d =
     res_bind (get_consensus_params d r) (\<lambda>params.
     let mid = get_prev_notarized_block d (half r) in
     res_bind (make_change params r ts new_peer_set
         (map_option (\<lambda>b. (bh_round b, header_hash cr b)) mid)) (\<lambda>new_params.
     res_bind (assert_or_panic ''current round < apply_round''
         (fst (current_round_with_timeout c) < apply_round new_params)) (\<lambda>_.
     Ok (snd (insert_consensus_params cr (apply_round new_params) new_params d)))))"

subsection \<open>Creating and opening\<close>

datatype init_error = AlreadyInitialized

datatype open_error = NotInitialized

definition init_tx ::
  "crypto \<Rightarrow> consensus_params \<Rightarrow> (block_round \<times> hash) option \<Rightarrow> cons_db \<Rightarrow>
     (init_error, block_round \<times> cons_db) res" where
  "init_tx cr params pinned d =
     (let out = insert_consensus_params cr 0 params d in
      res_bind (ensure (case fst out of AlreadyPresent existing \<Rightarrow> existing = params_hash cr params
          | Inserted \<Rightarrow> True) AlreadyInitialized) (\<lambda>_.
      let d1 = (case pinned of None \<Rightarrow> snd out | Some (r, h) \<Rightarrow>
            (snd out)\<lparr>cons_blocks_pinned := tbl_insert r h (cons_blocks_pinned (snd out))\<rparr>) in
      Ok (get_current_round d1, d1)))"

definition open_tx :: "cons_db \<Rightarrow> (open_error, block_round) res" where
  "open_tx d = res_bind (get_consensus_params_opt d 0) (\<lambda>p.
     res_bind (ensure (p \<noteq> None) NotInitialized) (\<lambda>_. Ok (get_current_round d)))"

definition open_channels :: "block_round \<Rightarrow> cons_db \<Rightarrow> ('e, channels) res" where
  "open_channels cur d =
     res_bind (case get_prev_notarized_block d cur of
         Some h \<Rightarrow> arr_next_expect (bh_round h) | None \<Rightarrow> Ok 0) (\<lambda>self_vote.
     Ok \<lparr>current_round_with_timeout = (cur, False),
         finality_consensus = (case get_finality_consensus d of Some r \<Rightarrow> r | None \<Rightarrow> 0),
         finality_self_vote = self_vote, new_votes = 0, new_proposal = 0\<rparr>)"

definition open_internal_tx ::
  "crypto \<Rightarrow> peer_pubkey option \<Rightarrow> block_round \<Rightarrow> block_round \<Rightarrow> cons_tx \<Rightarrow>
     (round_invariant_error, cons_tx) res" where
  "open_internal_tx cr our cur self_vote tx =
     res_bind (case our of None \<Rightarrow> Ok tx
       | Some k \<Rightarrow> update_peer_finality_vote_round cur k self_vote tx) (check_round_end cr our cur)"

type_synonym cons_state = "cons_db \<times> channels"

definition unit_tx ::
  "(('d, 'h) wtx \<Rightarrow> ('e, ('d, 'h) wtx) res) \<Rightarrow> ('d, 'h) wtx \<Rightarrow> ('e, unit \<times> ('d, 'h) wtx) res" where
  "unit_tx f tx = res_bind (f tx) (\<lambda>tx'. Ok ((), tx'))"

definition open_internal ::
  "crypto \<Rightarrow> peer_pubkey option \<Rightarrow> block_round \<Rightarrow> cons_db \<Rightarrow> ('e, cons_state) res" where
  "open_internal cr our cur d =
     res_bind (open_channels cur d) (\<lambda>c.
     case write_with_expect_falliable run_hook
         (unit_tx (open_internal_tx cr our cur (finality_self_vote c))) (d, c) of
       (Ok _, s) \<Rightarrow> Ok s
     | (Err _, _) \<Rightarrow> Panic ''Database should be in consistent state when opening''
     | (Panic m, _) \<Rightarrow> Panic m)"

definition cons_init ::
  "crypto \<Rightarrow> consensus_params \<Rightarrow> cons_db \<Rightarrow> peer_pubkey option \<Rightarrow> (block_round \<times> hash) option \<Rightarrow>
     (init_error, cons_state) res" where
  "cons_init cr params d our pinned =
     res_bind (init_tx cr params pinned d) (\<lambda>(cur, d1). open_internal cr our cur d1)"

definition cons_open ::
  "crypto \<Rightarrow> cons_db \<Rightarrow> peer_pubkey option \<Rightarrow> (open_error, cons_state) res" where
  "cons_open cr d our = res_bind (open_tx d) (\<lambda>cur. open_internal cr our cur d)"

subsection \<open>The handlers as transactions\<close>

definition process_vote_response ::
  "crypto \<Rightarrow> peer_pubkey option \<Rightarrow> peer_idx \<Rightarrow> wait_vote_response \<Rightarrow> cons_state \<Rightarrow>
     (process_vote_error, unit) res \<times> cons_state" where
  "process_vote_response cr our i resp =
     write_with_expect_falliable run_hook (unit_tx (process_vote_response_tx cr our i resp))"

definition process_notarized_block_response ::
  "crypto \<Rightarrow> peer_pubkey option \<Rightarrow> wait_notarized_block_response \<Rightarrow> cons_state \<Rightarrow>
     (process_notarized_block_error, unit) res \<times> cons_state" where
  "process_notarized_block_response cr our resp =
     write_with_expect_falliable run_hook (unit_tx (process_notarized_block_response_tx cr our resp))"

definition process_finality_vote_update_response ::
  "crypto \<Rightarrow> peer_pubkey \<Rightarrow> block_round signed \<Rightarrow> cons_state \<Rightarrow>
     (process_finality_error, unit) res \<times> cons_state" where
  "process_finality_vote_update_response cr k update =
     write_with_expect_falliable run_hook
       (unit_tx (process_finality_vote_update_response_tx cr k update))"

end
