(* ===== verification/Cons_Invariant.thy ===== *)
theory Cons_Invariant
  imports Cons_Handlers
begin

section \<open>The invariant of the consensus database\<close>

text \<open>
  What the comments of \<open>consensus/src/tables.rs\<close> promise of the tables, as predicates on the
  database, and that every operation of \<open>ctx.rs\<close> keeps them under the conditions its callers
  establish. \<open>cons_inv\<close> holds between transactions; inside a transaction, before
  \<open>check_round_end\<close> has run, the weaker \<open>mid_inv\<close> holds.
\<close>

subsection \<open>Parameters in effect\<close>

definition params_ok :: "crypto \<Rightarrow> consensus_params \<Rightarrow> bool" where
  "params_ok cr p \<longleftrightarrow>
     peers p \<noteq> [] \<and> length (peers p) \<le> 255 \<and> length (enc_params cr p) < 2 ^ 32"

definition params_at :: "cons_db \<Rightarrow> block_round \<Rightarrow> consensus_params option" where
  "params_at d r = (case last_entry (\<lambda>k. k \<le> r) (entries (cons_params_schedule d)) of
      None \<Rightarrow> None | Some (_, h) \<Rightarrow> tbl_get (cons_params d) h)"

definition sched_inv :: "crypto \<Rightarrow> cons_db \<Rightarrow> bool" where
  "sched_inv cr d \<longleftrightarrow> tbl_get (cons_params_schedule d) 0 \<noteq> None \<and>
     (\<forall>r h. tbl_get (cons_params_schedule d) r = Some h \<longrightarrow>
       (\<exists>p. tbl_get (cons_params d) h = Some p \<and> params_ok cr p \<and> params_hash cr p = h))"

lemma get_consensus_params_Ok_iff [res_simps]:
  "get_consensus_params d r = Ok p \<longleftrightarrow> params_at d r = Some p"
  by (auto simp: get_consensus_params_def get_consensus_params_opt_def params_at_def res_simps
      split: option.splits)

lemma params_at_Some:
  assumes "sched_inv cr d"
  obtains p where "params_at d r = Some p" "params_ok cr p"
proof (cases "last_entry (\<lambda>k. k \<le> r) (entries (cons_params_schedule d))")
  case None
  then show ?thesis using assms by (auto simp: tb.last_None sched_inv_def)
next
  case (Some e)
  obtain k h where e: "e = (k, h)" by fastforce
  then have "tbl_get (cons_params_schedule d) k = Some h" using Some by (simp add: tb.last_Some)
  then obtain p where "tbl_get (cons_params d) h = Some p" "params_ok cr p"
    using assms unfolding sched_inv_def by blast
  then show ?thesis using that Some e by (simp add: params_at_def)
qed

lemma params_at_ok: "sched_inv cr d \<Longrightarrow> params_at d r = Some p \<Longrightarrow> params_ok cr p"
  by (metis option.inject params_at_Some)

subsection \<open>The invariant\<close>

definition header_ok :: "crypto \<Rightarrow> cons_db \<Rightarrow> block_header \<Rightarrow> bool" where
  "header_ok cr d b \<longleftrightarrow> \<not> is_dummy b \<and> header_version b = 0 \<and>
     (\<exists>p. params_at d (bh_round b) = Some p \<and> consensus_params_hash b = params_hash cr p \<and>
       consensus_params_len b = of_nat (length (enc_params cr p))) \<and>
     tbl_get (cons_blocks_payloads d) (payload_hash b) \<noteq> None"

definition vote_ok :: "crypto \<Rightarrow> cons_db \<Rightarrow> block_round \<Rightarrow> peer_idx \<Rightarrow> block_header signed \<Rightarrow> bool" where
  "vote_ok cr d r i v \<longleftrightarrow> bh_round (inner v) = r \<and> \<not> is_dummy (inner v) \<and>
     (\<exists>p. params_at d r = Some p \<and> sig_valid cr (peers p) (header_sign_hash cr (inner v)) i (sig v))"

definition dummy_vote_ok :: "crypto \<Rightarrow> cons_db \<Rightarrow> block_round \<Rightarrow> peer_idx \<Rightarrow> signature \<Rightarrow> bool" where
  "dummy_vote_ok cr d r i s \<longleftrightarrow> (\<exists>p h. params_at d r = Some p \<and> is_dummy h \<and> bh_round h = r \<and>
     consensus_params_hash h = params_hash cr p \<and> sig_valid cr (peers p) (header_sign_hash cr h) i s)"

definition quorum_at :: "cons_db \<Rightarrow> block_round \<Rightarrow> bool" where
  "quorum_at d r \<longleftrightarrow> (\<exists>p. params_at d r = Some p \<and>
     threshold (of_nat (length (peers p))) \<le> get_num_votes_proposal d r)"

definition props_inv :: "crypto \<Rightarrow> cons_db \<Rightarrow> bool" where
  "props_inv cr d \<longleftrightarrow> (\<forall>r b. tbl_get (cons_blocks_proposals d) r = Some b \<longrightarrow>
     bh_round b = r \<and> header_ok cr d b)"

definition notar_inv :: "crypto \<Rightarrow> cons_db \<Rightarrow> bool" where
  "notar_inv cr d \<longleftrightarrow> (\<forall>r b. tbl_get (cons_blocks_notarized d) r = Some b \<longrightarrow>
     bh_round b = r \<and> header_ok cr d b \<and> quorum_at d r \<and>
     (\<forall>i v. tbl_get (cons_votes_block d) (r, i) = Some v \<longrightarrow> inner v = b))"

definition votes_inv :: "crypto \<Rightarrow> cons_db \<Rightarrow> bool" where
  "votes_inv cr d \<longleftrightarrow>
     (\<forall>r i v. tbl_get (cons_votes_block d) (r, i) = Some v \<longrightarrow> vote_ok cr d r i v)"

definition dummies_inv :: "crypto \<Rightarrow> cons_db \<Rightarrow> bool" where
  "dummies_inv cr d \<longleftrightarrow>
     (\<forall>r i s. tbl_get (cons_votes_dummy d) (r, i) = Some s \<longrightarrow> dummy_vote_ok cr d r i s)"

definition payloads_inv :: "crypto \<Rightarrow> cons_db \<Rightarrow> bool" where
  "payloads_inv cr d \<longleftrightarrow> (\<forall>h p. tbl_get (cons_blocks_payloads d) h = Some p \<longrightarrow>
     payload_hash_of cr p = h)"

definition match_inv :: "cons_db \<Rightarrow> bool" where
  "match_inv d \<longleftrightarrow> (\<forall>r b. get_current_round d \<le> r \<longrightarrow>
     tbl_get (cons_blocks_notarized d) r = None \<longrightarrow> tbl_get (cons_blocks_proposals d) r = Some b \<longrightarrow>
     (\<forall>i v. tbl_get (cons_votes_block d) (r, i) = Some v \<longrightarrow> inner v = b))"

text \<open>Rounds after the current one hold nothing, unless a block is notarized there.\<close>

definition live_round :: "cons_db \<Rightarrow> block_round \<Rightarrow> bool" where
  "live_round d r \<longleftrightarrow> r \<le> get_current_round d \<or> tbl_get (cons_blocks_notarized d) r \<noteq> None"

definition live_inv :: "cons_db \<Rightarrow> bool" where
  "live_inv d \<longleftrightarrow>
     (\<forall>r b. tbl_get (cons_blocks_proposals d) r = Some b \<longrightarrow> live_round d r) \<and>
     (\<forall>r i v. tbl_get (cons_votes_block d) (r, i) = Some v \<longrightarrow> live_round d r) \<and>
     (\<forall>r i s. tbl_get (cons_votes_dummy d) (r, i) = Some s \<longrightarrow> live_round d r) \<and>
     tbl_get (cons_blocks_notarized d) (- 1) = None"

definition mid_inv :: "crypto \<Rightarrow> cons_db \<Rightarrow> bool" where
  "mid_inv cr d \<longleftrightarrow> sched_inv cr d \<and> props_inv cr d \<and> notar_inv cr d \<and> votes_inv cr d \<and>
     dummies_inv cr d \<and> payloads_inv cr d \<and> match_inv d \<and> live_inv d"

definition cons_inv :: "crypto \<Rightarrow> cons_db \<Rightarrow> bool" where
  "cons_inv cr d \<longleftrightarrow> mid_inv cr d \<and>
     (\<forall>r b. tbl_get (cons_blocks_notarized d) r = Some b \<longrightarrow> r < get_current_round d)"

lemmas mid_inv_parts = mid_inv_def

lemma cons_inv_imp_mid: "cons_inv cr d \<Longrightarrow> mid_inv cr d"
  by (simp add: cons_inv_def)

lemma mid_inv_sched: "mid_inv cr d \<Longrightarrow> sched_inv cr d"
  by (simp add: mid_inv_def)

subsection \<open>Frames\<close>

text \<open>Which part of the database each notion reads.\<close>

lemma params_at_cong:
  "cons_params_schedule d' = cons_params_schedule d \<Longrightarrow> cons_params d' = cons_params d \<Longrightarrow>
     params_at d' = params_at d"
  by (simp add: params_at_def fun_eq_iff cong: option.case_cong)

lemma params_at_frame [simp]:
  "params_at (d\<lparr>cons_votes_block := vb\<rparr>) = params_at d"
  "params_at (d\<lparr>cons_votes_dummy := vd\<rparr>) = params_at d"
  "params_at (d\<lparr>cons_blocks_proposals := bp\<rparr>) = params_at d"
  "params_at (d\<lparr>cons_blocks_notarized := bn\<rparr>) = params_at d"
  "params_at (d\<lparr>cons_blocks_payloads := pl\<rparr>) = params_at d"
  "params_at (d\<lparr>cons_blocks_pinned := pn\<rparr>) = params_at d"
  "params_at (d\<lparr>cons_current_round := cu\<rparr>) = params_at d"
  "params_at (d\<lparr>cons_finality_consensus := fc\<rparr>) = params_at d"
  "params_at (d\<lparr>cons_finality_votes := fv\<rparr>) = params_at d"
  by (simp_all add: params_at_def fun_eq_iff cong: option.case_cong)

lemma current_round_frame [simp]:
  "get_current_round (d\<lparr>cons_votes_block := vb\<rparr>) = get_current_round d"
  "get_current_round (d\<lparr>cons_votes_dummy := vd\<rparr>) = get_current_round d"
  "get_current_round (d\<lparr>cons_blocks_proposals := bp\<rparr>) = get_current_round d"
  "get_current_round (d\<lparr>cons_blocks_notarized := bn\<rparr>) = get_current_round d"
  "get_current_round (d\<lparr>cons_blocks_payloads := pl\<rparr>) = get_current_round d"
  "get_current_round (d\<lparr>cons_blocks_pinned := pn\<rparr>) = get_current_round d"
  "get_current_round (d\<lparr>cons_params_schedule := ps\<rparr>) = get_current_round d"
  "get_current_round (d\<lparr>cons_params := pp\<rparr>) = get_current_round d"
  "get_current_round (d\<lparr>cons_finality_consensus := fc\<rparr>) = get_current_round d"
  "get_current_round (d\<lparr>cons_finality_votes := fv\<rparr>) = get_current_round d"
  "get_current_round (d\<lparr>cons_current_round := Some r\<rparr>) = r"
  by (simp_all add: get_current_round_def)

lemma header_ok_frame [simp]:
  "header_ok cr (d\<lparr>cons_votes_block := vb\<rparr>) = header_ok cr d"
  "header_ok cr (d\<lparr>cons_votes_dummy := vd\<rparr>) = header_ok cr d"
  "header_ok cr (d\<lparr>cons_blocks_proposals := bp\<rparr>) = header_ok cr d"
  "header_ok cr (d\<lparr>cons_blocks_notarized := bn\<rparr>) = header_ok cr d"
  "header_ok cr (d\<lparr>cons_current_round := cu\<rparr>) = header_ok cr d"
  "header_ok cr (d\<lparr>cons_finality_consensus := fc\<rparr>) = header_ok cr d"
  "header_ok cr (d\<lparr>cons_finality_votes := fv\<rparr>) = header_ok cr d"
  by (simp_all add: header_ok_def fun_eq_iff)

lemma header_ok_mono:
  "header_ok cr d b \<Longrightarrow> params_at d' (bh_round b) = params_at d (bh_round b) \<Longrightarrow>
     (\<And>h. tbl_get (cons_blocks_payloads d) h \<noteq> None \<Longrightarrow> tbl_get (cons_blocks_payloads d') h \<noteq> None) \<Longrightarrow>
     header_ok cr d' b"
  unfolding header_ok_def by metis

lemma live_inv_mono:
  assumes "live_inv d" and "\<And>r. live_round d r \<Longrightarrow> live_round d' r"
    and "\<And>r b. tbl_get (cons_blocks_proposals d') r = Some b \<Longrightarrow>
      tbl_get (cons_blocks_proposals d) r = Some b \<or> live_round d' r"
    and "\<And>r i v. tbl_get (cons_votes_block d') (r, i) = Some v \<Longrightarrow>
      tbl_get (cons_votes_block d) (r, i) = Some v \<or> live_round d' r"
    and "\<And>r i s. tbl_get (cons_votes_dummy d') (r, i) = Some s \<Longrightarrow>
      tbl_get (cons_votes_dummy d) (r, i) = Some s \<or> live_round d' r"
    and "tbl_get (cons_blocks_notarized d') (- 1) = None"
  shows "live_inv d'"
  using assms unfolding live_inv_def by metis

lemma vote_ok_cong: "params_at d' r = params_at d r \<Longrightarrow> vote_ok cr d' r i v = vote_ok cr d r i v"
  by (simp add: vote_ok_def)

lemma dummy_vote_ok_cong:
  "params_at d' r = params_at d r \<Longrightarrow> dummy_vote_ok cr d' r i s = dummy_vote_ok cr d r i s"
  by (simp add: dummy_vote_ok_def)

lemma votes_inv_sub:
  assumes "votes_inv cr d" "params_at d' = params_at d"
    and "\<And>r i v. tbl_get (cons_votes_block d') (r, i) = Some v \<Longrightarrow>
      tbl_get (cons_votes_block d) (r, i) = Some v \<or> vote_ok cr d r i v"
  shows "votes_inv cr d'"
  using assms unfolding votes_inv_def vote_ok_def by metis

lemma dummies_inv_sub:
  assumes "dummies_inv cr d" "params_at d' = params_at d"
    and "\<And>r i s. tbl_get (cons_votes_dummy d') (r, i) = Some s \<Longrightarrow>
      tbl_get (cons_votes_dummy d) (r, i) = Some s \<or> dummy_vote_ok cr d r i s"
  shows "dummies_inv cr d'"
  using assms unfolding dummies_inv_def dummy_vote_ok_def by metis

lemma sched_inv_cong:
  "cons_params_schedule d' = cons_params_schedule d \<Longrightarrow> cons_params d' = cons_params d \<Longrightarrow>
     sched_inv cr d' = sched_inv cr d"
  by (simp add: sched_inv_def)

lemma quorum_at_mono:
  "quorum_at d r \<Longrightarrow> params_at d' r = params_at d r \<Longrightarrow>
     (\<And>i. tbl_get (cons_votes_block d) (r, i) \<noteq> None \<Longrightarrow> tbl_get (cons_votes_block d') (r, i) \<noteq> None) \<Longrightarrow>
     quorum_at d' r"
proof -
  assume q: "quorum_at d r" and p: "params_at d' r = params_at d r"
    and v: "\<And>i. tbl_get (cons_votes_block d) (r, i) \<noteq> None \<Longrightarrow>
      tbl_get (cons_votes_block d') (r, i) \<noteq> None"
  have "get_num_votes_proposal d r \<le> get_num_votes_proposal d' r"
    unfolding num_votes_proposal using v by (intro card_mono) auto
  then show ?thesis using q p unfolding quorum_at_def by (metis le_trans)
qed

text \<open>A vote's index is below 255, so the exclusive end of \<open>retain_in\<close> loses nothing.\<close>

lemma vote_index_less:
  assumes "sched_inv cr d" "vote_ok cr d r i v"
  shows "i < 255"
proof -
  obtain p where "params_at d r = Some p" "unat i < length (peers p)"
    using assms(2) by (auto simp: vote_ok_def sig_valid_def)
  moreover have "length (peers p) \<le> 255"
    using params_at_ok [OF assms(1)] calculation(1) by (simp add: params_ok_def)
  ultimately show ?thesis by (simp add: word_less_nat_alt)
qed

lemma retain_votes_get:
  "tbl_get (cons_votes_block (retain_votes r b d)) (r', i) = Some v \<longleftrightarrow>
     tbl_get (cons_votes_block d) (r', i) = Some v \<and> (r' = r \<and> i < 255 \<longrightarrow> inner v = b)"
  by (auto simp: retain_votes_def less_eq_prod_def less_prod_def)

lemma retain_votes_fields [simp]:
  "cons_current_round (retain_votes r b d) = cons_current_round d"
  "cons_params_schedule (retain_votes r b d) = cons_params_schedule d"
  "cons_params (retain_votes r b d) = cons_params d"
  "cons_blocks_proposals (retain_votes r b d) = cons_blocks_proposals d"
  "cons_blocks_notarized (retain_votes r b d) = cons_blocks_notarized d"
  "cons_blocks_payloads (retain_votes r b d) = cons_blocks_payloads d"
  "cons_blocks_pinned (retain_votes r b d) = cons_blocks_pinned d"
  "cons_votes_dummy (retain_votes r b d) = cons_votes_dummy d"
  "params_at (retain_votes r b d) = params_at d"
  "get_current_round (retain_votes r b d) = get_current_round d"
  by (simp_all add: retain_votes_def)

subsection \<open>Votes\<close>

text \<open>The fields of the invariant after a change of one table only.\<close>

lemmas inv_defs = props_inv_def notar_inv_def votes_inv_def dummies_inv_def payloads_inv_def
  match_inv_def live_inv_def live_round_def

lemma quorum_at_frame [simp]:
  "quorum_at (d\<lparr>cons_votes_dummy := vd\<rparr>) = quorum_at d"
  "quorum_at (d\<lparr>cons_blocks_proposals := bp\<rparr>) = quorum_at d"
  "quorum_at (d\<lparr>cons_blocks_notarized := bn\<rparr>) = quorum_at d"
  "quorum_at (d\<lparr>cons_blocks_payloads := pl\<rparr>) = quorum_at d"
  "quorum_at (d\<lparr>cons_current_round := cu\<rparr>) = quorum_at d"
  "quorum_at (d\<lparr>cons_finality_consensus := fc\<rparr>) = quorum_at d"
  "quorum_at (d\<lparr>cons_finality_votes := fv\<rparr>) = quorum_at d"
  by (simp_all add: quorum_at_def get_num_votes_proposal_def fun_eq_iff)

lemma insert_dummy_vote_inv:
  assumes inv: "mid_inv cr d" and ok: "dummy_vote_ok cr d r i s" and r: "r \<le> get_current_round d"
  shows "mid_inv cr (snd (insert_dummy_vote r i s d))"
proof -
  let ?d = "snd (insert_dummy_vote r i s d)"
  have d: "?d = d\<lparr>cons_votes_dummy := tbl_insert (r, i) s (cons_votes_dummy d)\<rparr>"
    by (simp add: insert_dummy_vote_def)
  have "dummies_inv cr ?d"
    unfolding dummies_inv_def using inv ok
    by (auto simp: d mid_inv_def dummies_inv_def dummy_vote_ok_def)
  moreover have "live_inv ?d"
    by (rule live_inv_mono [of d])
      (use inv r in \<open>auto simp: d mid_inv_def live_inv_def live_round_def split: if_splits\<close>)
  moreover have "votes_inv cr ?d" using inv by (simp add: d mid_inv_def votes_inv_def vote_ok_def)
  ultimately show ?thesis
    using inv by (simp add: d mid_inv_def sched_inv_def props_inv_def notar_inv_def payloads_inv_def
        match_inv_def)
qed

lemma insert_block_vote_inv:
  assumes inv: "mid_inv cr d" and ok: "vote_ok cr d r i v" and r: "r \<le> get_current_round d"
    and no: "tbl_get (cons_blocks_notarized d) r = None"
    and pr: "\<And>b. tbl_get (cons_blocks_proposals d) r = Some b \<Longrightarrow> inner v = b"
  shows "mid_inv cr (snd (insert_block_vote r i v d))"
proof -
  let ?d = "snd (insert_block_vote r i v d)"
  have d: "?d = d\<lparr>cons_votes_block := tbl_insert (r, i) v (cons_votes_block d)\<rparr>"
    by (simp add: insert_block_vote_def)
  have "votes_inv cr ?d"
    unfolding votes_inv_def using inv ok by (auto simp: d mid_inv_def votes_inv_def vote_ok_def)
  moreover have "notar_inv cr ?d"
    unfolding notar_inv_def
  proof (intro allI impI conjI)
    fix q b
    assume "tbl_get (cons_blocks_notarized ?d) q = Some b"
    then have b: "tbl_get (cons_blocks_notarized d) q = Some b" by (simp add: d)
    then have n: "bh_round b = q" "header_ok cr d b" "quorum_at d q"
      "\<And>i v. tbl_get (cons_votes_block d) (q, i) = Some v \<Longrightarrow> inner v = b"
      using inv unfolding mid_inv_def notar_inv_def by blast+
    show "bh_round b = q" "header_ok cr ?d b" using n by (simp_all add: d)
    show "quorum_at ?d q" by (rule quorum_at_mono [OF n(3)]) (auto simp: d)
    show "inner v' = b" if "tbl_get (cons_votes_block ?d) (q, j) = Some v'" for j v'
      using that n(4) b no by (auto simp: d split: if_splits)
  qed
  moreover have "match_inv ?d"
    using inv pr by (auto simp: d mid_inv_def match_inv_def)
  moreover have "live_inv ?d"
    by (rule live_inv_mono [of d])
      (use inv r in \<open>auto simp: d mid_inv_def live_inv_def live_round_def split: if_splits\<close>)
  moreover have "dummies_inv cr ?d"
    using inv by (simp add: d mid_inv_def dummies_inv_def dummy_vote_ok_def)
  ultimately show ?thesis
    using inv by (simp add: d mid_inv_def sched_inv_def props_inv_def payloads_inv_def)
qed

subsection \<open>Blocks\<close>

lemma insert_block_proposal_inv:
  assumes inv: "mid_inv cr d" and ins: "insert_block_proposal r b p d = Ok (Inserted, d')"
    and r: "get_current_round d = r" and no: "tbl_get (cons_blocks_notarized d) r = None"
    and hash: "payload_hash_of cr p = payload_hash b"
    and hdr: "header_ok cr (d\<lparr>cons_blocks_payloads := tbl_insert (payload_hash b) p (cons_blocks_payloads d)\<rparr>) b"
  shows "mid_inv cr d'"
proof -
  define e where "e = d\<lparr>cons_blocks_proposals := tbl_insert r b (cons_blocks_proposals d),
    cons_blocks_payloads := tbl_insert (payload_hash b) p (cons_blocks_payloads d)\<rparr>"
  have d': "d' = retain_votes r b e" and b: "bh_round b = r"
    using ins by (auto simp: insert_block_proposal_def e_def res_simps split: option.splits)
  have pa: "params_at d' = params_at d" by (simp add: d' e_def)
  have pl: "tbl_get (cons_blocks_payloads d) h \<noteq> None \<Longrightarrow> tbl_get (cons_blocks_payloads d') h \<noteq> None" for h
    by (simp add: d' e_def)
  have ho: "header_ok cr d x \<Longrightarrow> header_ok cr d' x" for x
    by (erule header_ok_mono, simp add: pa, rule pl)
  have vget: "tbl_get (cons_votes_block d') (q, i) = Some v \<Longrightarrow>
      tbl_get (cons_votes_block d) (q, i) = Some v" for q i v
    by (simp add: d' retain_votes_get e_def)
  have vkeep: "q \<noteq> r \<Longrightarrow> tbl_get (cons_votes_block d') (q, i) = tbl_get (cons_votes_block d) (q, i)" for q i
  proof -
    assume "q \<noteq> r"
    then have "tbl_get (cons_votes_block d') (q, i) = Some v \<longleftrightarrow>
        tbl_get (cons_votes_block d) (q, i) = Some v" for v
      by (simp add: d' retain_votes_get e_def)
    then show ?thesis by (metis not_Some_eq)
  qed
  have "props_inv cr d'"
  proof -
    have "header_ok cr d' b" using hdr by (rule header_ok_mono) (simp_all add: d' e_def)
    then show ?thesis
      using inv b ho by (auto simp: mid_inv_def props_inv_def d' e_def)
  qed
  moreover have "notar_inv cr d'"
    unfolding notar_inv_def
  proof (intro allI impI conjI)
    fix q x
    assume "tbl_get (cons_blocks_notarized d') q = Some x"
    then have x: "tbl_get (cons_blocks_notarized d) q = Some x" by (simp add: d' e_def)
    then have "q \<noteq> r" using no by auto
    have n: "bh_round x = q" "header_ok cr d x" "quorum_at d q"
      "\<And>i v. tbl_get (cons_votes_block d) (q, i) = Some v \<Longrightarrow> inner v = x"
      using x inv unfolding mid_inv_def notar_inv_def by blast+
    show "bh_round x = q" "header_ok cr d' x" using n ho by simp_all
    show "quorum_at d' q" by (rule quorum_at_mono [OF n(3)]) (simp_all add: pa vkeep \<open>q \<noteq> r\<close>)
    show "inner v = x" if "tbl_get (cons_votes_block d') (q, i) = Some v" for i v
      using that vget n(4) by blast
  qed
  moreover have "votes_inv cr d'"
    by (rule votes_inv_sub [of cr d]) (use inv vget pa in \<open>auto simp: mid_inv_def\<close>)
  moreover have "match_inv d'"
    unfolding match_inv_def
  proof (intro allI impI)
    fix q x i v
    assume q: "get_current_round d' \<le> q" "tbl_get (cons_blocks_notarized d') q = None"
      "tbl_get (cons_blocks_proposals d') q = Some x" "tbl_get (cons_votes_block d') (q, i) = Some v"
    show "inner v = x"
    proof (cases "q = r")
      case True
      have "vote_ok cr d q i v" using inv vget q(4) by (simp add: mid_inv_def votes_inv_def)
      then have "i < 255" using inv vote_index_less by (auto simp: mid_inv_def)
      then show ?thesis using q True by (simp add: d' retain_votes_get e_def)
    next
      case False
      have "get_current_round d \<le> q" "tbl_get (cons_blocks_notarized d) q = None"
        "tbl_get (cons_blocks_proposals d) q = Some x"
        using q(1-3) False by (simp_all add: d' e_def)
      then show ?thesis using vget [OF q(4)] inv unfolding mid_inv_def match_inv_def by blast
    qed
  qed
  moreover have "live_inv d'"
    by (rule live_inv_mono [of d])
      (use inv r in \<open>auto simp: mid_inv_def live_inv_def live_round_def d' e_def retain_votes_get
         split: if_splits\<close>)
  moreover have "dummies_inv cr d'"
    by (rule dummies_inv_sub [of cr d]) (use inv pa in \<open>auto simp: mid_inv_def d' e_def\<close>)
  moreover have "payloads_inv cr d'"
    using inv hash by (auto simp: mid_inv_def payloads_inv_def d' e_def)
  moreover have "sched_inv cr d'" using inv by (simp add: mid_inv_def sched_inv_def d' e_def)
  ultimately show ?thesis by (simp add: mid_inv_def)
qed

lemma notarize_inv:
  assumes inv: "mid_inv cr d" and no: "tbl_get (cons_blocks_notarized d) r = None"
    and b: "bh_round b = r" "r \<noteq> - 1" "header_ok cr d' b"
    and nt: "cons_blocks_notarized d' = tbl_insert r b (cons_blocks_notarized d)"
    and same: "cons_params_schedule d' = cons_params_schedule d" "cons_params d' = cons_params d"
      "cons_blocks_proposals d' = cons_blocks_proposals d" "cons_votes_dummy d' = cons_votes_dummy d"
      "cons_current_round d' = cons_current_round d"
    and pl: "\<And>h. tbl_get (cons_blocks_payloads d) h \<noteq> None \<Longrightarrow> tbl_get (cons_blocks_payloads d') h \<noteq> None"
      "payloads_inv cr d'"
    and keep: "\<And>q i. q \<noteq> r \<Longrightarrow> tbl_get (cons_votes_block d') (q, i) = tbl_get (cons_votes_block d) (q, i)"
    and votes: "\<And>i v. tbl_get (cons_votes_block d') (r, i) = Some v \<Longrightarrow> vote_ok cr d r i v \<and> inner v = b"
    and quorum: "quorum_at d' r"
  shows "mid_inv cr d'"
proof -
  have pa: "params_at d' = params_at d" using same(1,2) by (rule params_at_cong)
  have cur: "get_current_round d' = get_current_round d" using same by (simp add: get_current_round_def)
  have ho: "header_ok cr d x \<Longrightarrow> header_ok cr d' x" for x
    by (erule header_ok_mono, simp add: pa, rule pl)
  have "props_inv cr d'" using inv ho same by (auto simp: mid_inv_def props_inv_def)
  moreover have "notar_inv cr d'"
    unfolding notar_inv_def
  proof (intro allI impI)
    fix q x
    assume x: "tbl_get (cons_blocks_notarized d') q = Some x"
    show "bh_round x = q \<and> header_ok cr d' x \<and> quorum_at d' q \<and>
      (\<forall>i v. tbl_get (cons_votes_block d') (q, i) = Some v \<longrightarrow> inner v = x)"
    proof (cases "q = r")
      case True
      then show ?thesis using x b quorum votes nt by auto
    next
      case False
      then have "tbl_get (cons_blocks_notarized d) q = Some x" using x nt by simp
      then have n: "bh_round x = q" "header_ok cr d x" "quorum_at d q"
        "\<forall>i v. tbl_get (cons_votes_block d) (q, i) = Some v \<longrightarrow> inner v = x"
        using inv unfolding mid_inv_def notar_inv_def by blast+
      have "quorum_at d' q" by (rule quorum_at_mono [OF n(3)]) (simp_all add: pa keep False)
      then show ?thesis using n ho keep False by simp
    qed
  qed
  moreover have "votes_inv cr d'"
    by (rule votes_inv_sub [of cr d]) (use inv pa keep votes in \<open>auto simp: mid_inv_def, metis+\<close>)
  moreover have "dummies_inv cr d'"
    by (rule dummies_inv_sub [of cr d]) (use inv pa same in \<open>auto simp: mid_inv_def\<close>)
  moreover have "match_inv d'"
    using inv unfolding mid_inv_def match_inv_def
    by (simp add: cur same nt) (metis keep)
  moreover have "live_inv d'"
  proof (rule live_inv_mono [of d])
    show "live_inv d" using inv by (simp add: mid_inv_def)
    show "live_round d' q" if "live_round d q" for q using that by (simp add: live_round_def cur nt)
    show "tbl_get (cons_votes_block d) (q, i) = Some v \<or> live_round d' q"
      if "tbl_get (cons_votes_block d') (q, i) = Some v" for q i v
      using that keep [of q i] by (cases "q = r") (simp_all add: live_round_def nt)
    show "tbl_get (cons_blocks_notarized d') (- 1) = None"
      using inv b(2) by (simp add: mid_inv_def live_inv_def nt)
  qed (simp_all add: same)
  moreover have "sched_inv cr d'" using inv same by (simp add: mid_inv_def sched_inv_def)
  ultimately show ?thesis using pl by (simp add: mid_inv_def)
qed

text \<open>
  A quorum of votes notarizes the proposal of a round that has not ended: the votes of such a round are
  all for the proposal, so none is lost.
\<close>

lemma notarize_proposal_inv:
  assumes inv: "mid_inv cr d" and ins: "insert_notarized_block r b None d = Ok out"
    and pr: "tbl_get (cons_blocks_proposals d) r = Some b"
    and no: "tbl_get (cons_blocks_notarized d) r = None" and r: "get_current_round d \<le> r" "r \<noteq> - 1"
    and q: "quorum_at d r"
  shows "mid_inv cr (snd out) \<and> (\<forall>q i. tbl_get (cons_votes_block (snd out)) (q, i) =
    tbl_get (cons_votes_block d) (q, i)) \<and>
    cons_blocks_notarized (snd out) = tbl_insert r b (cons_blocks_notarized d)"
proof -
  let ?e = "d\<lparr>cons_blocks_notarized := tbl_insert r b (cons_blocks_notarized d)\<rparr>"
  have out: "snd out = retain_votes r b ?e"
    using ins no by (auto simp: insert_notarized_block_def res_simps Let_def)
  have hb: "bh_round b = r" "header_ok cr d b" using inv pr by (auto simp: mid_inv_def props_inv_def)
  have match: "inner v = b" if "tbl_get (cons_votes_block d) (r, i) = Some v" for i v
    using inv that pr no r unfolding mid_inv_def match_inv_def by blast
  have same: "tbl_get (cons_votes_block (snd out)) (q, i) = tbl_get (cons_votes_block d) (q, i)" for q i
  proof -
    have "tbl_get (cons_votes_block (snd out)) (q, i) = Some v \<longleftrightarrow>
        tbl_get (cons_votes_block d) (q, i) = Some v" for v
      unfolding out retain_votes_get using match by auto
    then show ?thesis by (metis not_Some_eq)
  qed
  have "mid_inv cr (snd out)"
  proof (rule notarize_inv [OF inv no hb(1) r(2)])
    show "header_ok cr (snd out) b" using hb(2) by (rule header_ok_mono) (simp_all add: out)
    show "quorum_at (snd out) r" by (rule quorum_at_mono [OF q]) (simp add: out, simp only: same not_False_eq_True)
    show "vote_ok cr d r i v \<and> inner v = b"
      if "tbl_get (cons_votes_block (snd out)) (r, i) = Some v" for i v
      using that inv match unfolding same mid_inv_def votes_inv_def by blast
    show "payloads_inv cr (snd out)" using inv by (simp add: out mid_inv_def payloads_inv_def)
  qed (simp_all only: same, simp_all add: out)
  then show ?thesis using same by (simp add: out)
qed

end
