(* ===== verification/Cons_Safety.thy ===== *)
theory Cons_Safety
  imports Cons_Invariant
begin

section \<open>Every transaction of the consensus keeps the invariant\<close>

text \<open>
  The loop of \<open>check_round_end\<close>, then the handlers, each of which establishes \<open>mid_inv\<close> before it
  calls \<open>check_round_end\<close>, which turns it into \<open>cons_inv\<close>.
\<close>

subsection \<open>Inserting a notarized block with its signatures\<close>

lemma fold_insert_block_vote:
  "fold (\<lambda>(i, s) d. snd (insert_block_vote r i \<lparr>inner = b, sig = s\<rparr> d)) es d =
     d\<lparr>cons_votes_block :=
       fold (\<lambda>(i, s). tbl_insert (r, i) \<lparr>inner = b, sig = s\<rparr>) es (cons_votes_block d)\<rparr>"
  by (induction es arbitrary: d) (auto simp: insert_block_vote_def)

lemma fold_votes_get:
  "distinct (map fst es) \<Longrightarrow>
     tbl_get (fold (\<lambda>(i, s). tbl_insert (r, i) (mk s)) es t) (q, j) =
       (if q = r then (case map_of es j of Some s \<Rightarrow> Some (mk s) | None \<Rightarrow> tbl_get t (q, j))
        else tbl_get t (q, j))"
  by (induction es arbitrary: t) (auto split: option.splits simp: map_of_eq_None_iff image_iff)

lemma entries_distinct: "distinct (map fst (entries t))"
  by (rule sorted_keys_distinct) (rule entries_sorted)

lemma insert_notarized_block_tx_inv:
  fixes block :: "block_header notarized"
  defines "b \<equiv> n_inner block" and "r \<equiv> bh_round (n_inner block)"
  assumes inv: "mid_inv cr (dbtx tx)" and p: "params_at (dbtx tx) r = Some p" and r: "r \<noteq> - 1"
    and sigs: "verify_sigs cr (header_sign_hash cr) block p = Ok u"
    and content: "verify_with_content cr b (params_hash cr p) clen pl = Ok v"
    and clen: "clen = of_nat (length (enc_params cr p))" and dummy: "\<not> is_dummy b"
    and no: "tbl_get (cons_blocks_notarized (dbtx tx)) r = None"
    and ins: "insert_notarized_block_tx block pl tx = Ok tx'"
  shows "mid_inv cr (dbtx tx')"
    and "cons_blocks_notarized (dbtx tx') = tbl_insert r b (cons_blocks_notarized (dbtx tx))"
    and "get_current_round (dbtx tx') = get_current_round (dbtx tx)"
proof -
  let ?d = "dbtx tx"
  define e where "e = ?d\<lparr>cons_blocks_notarized := tbl_insert r b (cons_blocks_notarized ?d),
    cons_blocks_payloads := tbl_insert (payload_hash b) pl (cons_blocks_payloads ?d)\<rparr>"
  have d': "dbtx tx' = (retain_votes r b e)\<lparr>cons_votes_block :=
      fold (\<lambda>(i, s). tbl_insert (r, i) \<lparr>inner = b, sig = s\<rparr>) (entries (sigs block))
        (cons_votes_block (retain_votes r b e))\<rparr>"
    using ins no
    by (auto simp: insert_notarized_block_tx_def insert_notarized_block_def res_simps Let_def
        fold_insert_block_vote notify_new_votes_def e_def b_def r_def)
  have get: "tbl_get (cons_votes_block (dbtx tx')) (q, i) =
      (if q = r then (case tbl_get (sigs block) i of Some s \<Rightarrow> Some \<lparr>inner = b, sig = s\<rparr>
         | None \<Rightarrow> tbl_get (cons_votes_block (retain_votes r b e)) (q, i))
       else tbl_get (cons_votes_block (retain_votes r b e)) (q, i))" for q i
    using fold_votes_get [OF entries_distinct, of r "\<lambda>s. \<lparr>inner = b, sig = s\<rparr>" "sigs block"]
    by (simp add: d' tbl_get_def)
  have old: "tbl_get (cons_votes_block (retain_votes r b e)) (q, i) = Some w \<Longrightarrow>
      tbl_get (cons_votes_block ?d) (q, i) = Some w \<and> (q = r \<longrightarrow> inner w = b)" for q i w
  proof -
    assume a: "tbl_get (cons_votes_block (retain_votes r b e)) (q, i) = Some w"
    then have o: "tbl_get (cons_votes_block ?d) (q, i) = Some w"
      by (simp add: retain_votes_get e_def)
    then have "vote_ok cr ?d q i w" using inv by (simp add: mid_inv_def votes_inv_def)
    then have "i < 255" using inv vote_index_less by (auto simp: mid_inv_def)
    then show ?thesis using a o by (simp add: retain_votes_get)
  qed
  have keep: "tbl_get (cons_votes_block (dbtx tx')) (q, i) = tbl_get (cons_votes_block ?d) (q, i)"
    if "q \<noteq> r" for q i
  proof -
    have "tbl_get (cons_votes_block (dbtx tx')) (q, i) = Some w \<longleftrightarrow>
        tbl_get (cons_votes_block ?d) (q, i) = Some w" for w
      using that unfolding get by (simp add: retain_votes_get e_def)
    then show ?thesis by (metis not_Some_eq)
  qed
  have votes: "vote_ok cr ?d r i w \<and> inner w = b"
    if w: "tbl_get (cons_votes_block (dbtx tx')) (r, i) = Some w" for i w
  proof (cases "tbl_get (sigs block) i")
    case None
    then have "tbl_get (cons_votes_block ?d) (r, i) = Some w \<and> inner w = b"
      using w old by (simp add: get)
    then show ?thesis using inv by (simp add: mid_inv_def votes_inv_def)
  next
    case (Some s)
    then have "w = \<lparr>inner = b, sig = s\<rparr>" using w by (simp add: get)
    moreover have "sig_valid cr (peers p) (header_sign_hash cr b) i s"
      using sigs Some by (simp add: res_simps b_def)
    ultimately show ?thesis using p dummy by (simp add: vote_ok_def r_def b_def)
  qed
  have quorum: "quorum_at (dbtx tx') r"
  proof -
    have "{i. tbl_get (sigs block) i \<noteq> None} \<subseteq>
        {i. tbl_get (cons_votes_block (dbtx tx')) (r, i) \<noteq> None}" by (auto simp: get)
    then have "card {i. tbl_get (sigs block) i \<noteq> None} \<le> get_num_votes_proposal (dbtx tx') r"
      unfolding num_votes_proposal by (intro card_mono) auto
    moreover have "params_at (dbtx tx') r = Some p" using p by (simp add: d' e_def)
    ultimately show ?thesis
      using verified_signers(2) [OF sigs] unfolding quorum_at_def by (intro exI [of _ p]) simp
  qed
  have c: "payload_hash_of cr pl = payload_hash b" "header_version b = 0"
    "consensus_params_hash b = params_hash cr p" "consensus_params_len b = clen"
    using content dummy by (auto simp: res_simps)
  show nt: "cons_blocks_notarized (dbtx tx') = tbl_insert r b (cons_blocks_notarized (dbtx tx))"
    and "get_current_round (dbtx tx') = get_current_round (dbtx tx)"
    by (simp_all add: d' e_def)
  show "mid_inv cr (dbtx tx')"
  proof (rule notarize_inv [OF inv no _ r _ nt])
    show "header_ok cr (dbtx tx') b"
      using c clen dummy p by (simp add: header_ok_def d' e_def r_def b_def)
    show "payloads_inv cr (dbtx tx')"
      using inv c by (simp add: mid_inv_def payloads_inv_def d' e_def)
  qed (use quorum votes keep in \<open>auto simp: r_def b_def\<close>, simp_all add: d' e_def)
qed

subsection \<open>Deleting a block\<close>

lemma delete_notarized_inv:
  assumes inv: "mid_inv cr d" and r: "r < get_current_round d"
  shows "mid_inv cr (delete_notarized_block r d)"
proof -
  let ?d = "delete_notarized_block r d"
  have d: "?d = d\<lparr>cons_blocks_notarized := tbl_remove r (cons_blocks_notarized d)\<rparr>"
    by (simp add: delete_notarized_block_def)
  have "notar_inv cr ?d" using inv by (simp add: d mid_inv_def notar_inv_def)
  moreover have "match_inv ?d" using inv r by (auto simp: d mid_inv_def match_inv_def)
  moreover have "live_inv ?d"
    by (rule live_inv_mono [of d])
      (use inv r in \<open>auto simp: d mid_inv_def live_inv_def live_round_def\<close>)
  moreover have "votes_inv cr ?d" by (rule votes_inv_sub [of cr d]) (use inv in \<open>auto simp: d mid_inv_def\<close>)
  moreover have "dummies_inv cr ?d"
    by (rule dummies_inv_sub [of cr d]) (use inv in \<open>auto simp: d mid_inv_def\<close>)
  ultimately show ?thesis
    using inv by (simp add: d mid_inv_def sched_inv_def props_inv_def payloads_inv_def)
qed

subsection \<open>Finality updates\<close>

text \<open>They touch the two finality tables and delete dummy votes, nothing else.\<close>

definition finality_step :: "cons_db \<Rightarrow> cons_db \<Rightarrow> bool" where
  "finality_step d d' \<longleftrightarrow>
     cons_current_round d' = cons_current_round d \<and>
     cons_params_schedule d' = cons_params_schedule d \<and> cons_params d' = cons_params d \<and>
     cons_blocks_proposals d' = cons_blocks_proposals d \<and>
     cons_blocks_notarized d' = cons_blocks_notarized d \<and>
     cons_blocks_pinned d' = cons_blocks_pinned d \<and>
     cons_blocks_payloads d' = cons_blocks_payloads d \<and> cons_votes_block d' = cons_votes_block d \<and>
     (\<forall>k s. tbl_get (cons_votes_dummy d') k = Some s \<longrightarrow> tbl_get (cons_votes_dummy d) k = Some s)"

lemma finality_step_refl: "finality_step d d"
  by (simp add: finality_step_def)

lemma finality_step_trans: "finality_step d e \<Longrightarrow> finality_step e f \<Longrightarrow> finality_step d f"
  by (auto simp: finality_step_def)

lemma finality_step_mid_inv:
  assumes "finality_step d d'" "mid_inv cr d" shows "mid_inv cr d'"
proof -
  have pa: "params_at d' = params_at d"
    using assms(1) by (intro params_at_cong) (simp_all add: finality_step_def)
  have cur: "get_current_round d' = get_current_round d"
    using assms(1) by (simp add: finality_step_def get_current_round_def)
  have ho: "header_ok cr d' = header_ok cr d"
    using assms(1) by (simp add: header_ok_def fun_eq_iff pa finality_step_def)
  have qu: "quorum_at d' = quorum_at d"
    using assms(1) by (simp add: quorum_at_def fun_eq_iff pa num_votes_proposal finality_step_def)
  have "dummies_inv cr d'"
    by (rule dummies_inv_sub [of cr d]) (use assms pa in \<open>auto simp: mid_inv_def finality_step_def\<close>)
  moreover have "votes_inv cr d'"
    by (rule votes_inv_sub [of cr d]) (use assms pa in \<open>auto simp: mid_inv_def finality_step_def\<close>)
  moreover have "live_inv d'"
    by (rule live_inv_mono [of d])
      (use assms cur in \<open>auto simp: mid_inv_def live_inv_def live_round_def finality_step_def\<close>)
  ultimately show ?thesis
    using assms cur ho qu
    by (simp add: mid_inv_def finality_step_def sched_inv_def props_inv_def notar_inv_def
        payloads_inv_def match_inv_def)
qed

lemma finality_step_cons_inv:
  "finality_step d d' \<Longrightarrow> cons_inv cr d \<Longrightarrow> cons_inv cr d'"
  using finality_step_mid_inv [of d d' cr]
  by (auto simp: cons_inv_def finality_step_def get_current_round_def)

lemma recalculate_finality_step:
  "recalculate_finality_consensus_tx cur tx = Ok tx' \<Longrightarrow> finality_step (dbtx tx) (dbtx tx')"
  unfolding recalculate_finality_consensus_tx_def Let_def
  by (clarsimp simp: res_simps)
    (simp add: finality_step_def update_finality_consensus_def prune_dummy_votes_def)

lemma update_finality_step:
  assumes "update_peer_finality_vote_round cur k vote tx = (Ok tx' :: ('e, cons_tx) res)"
  shows "finality_step (dbtx tx) (dbtx tx')"
proof -
  let ?tx = "upd (\<lambda>_. snd (update_finality_vote k vote (dbtx tx))) tx"
  have "finality_step (dbtx tx) (dbtx ?tx)"
    by (simp add: finality_step_def update_finality_vote_def)
  moreover have "tx' = ?tx \<or> recalculate_finality_consensus_tx cur ?tx = (Ok tx' :: ('e, cons_tx) res)"
    using assms by (auto simp: update_peer_finality_vote_round_def Let_def split: if_splits)
  ultimately show ?thesis using recalculate_finality_step finality_step_trans by blast
qed

subsection \<open>The loop over rounds\<close>

text \<open>
  \<open>ended\<close> is the specification of the loop: a round is over when a block is notarized at it or
  later, when its proposal has a quorum of votes, or when dummy votes have one.
\<close>

definition ended :: "cons_db \<Rightarrow> block_header option \<Rightarrow> block_round \<Rightarrow> bool" where
  "ended d highest r \<longleftrightarrow>
     (\<exists>h. highest = Some h \<and> r \<le> bh_round h) \<or>
     (\<exists>p. params_at d r = Some p \<and>
        (tbl_get (cons_blocks_proposals d) r \<noteq> None \<and>
           threshold (of_nat (length (peers p))) \<le> get_num_votes_proposal d r \<or>
         threshold (of_nat (length (peers p))) \<le> get_num_votes_dummy d r))"

definition loop_inv ::
  "crypto \<Rightarrow> block_round \<Rightarrow> block_header option \<Rightarrow> block_round \<Rightarrow> cons_db \<Rightarrow> bool" where
  "loop_inv cr start highest cur d \<longleftrightarrow> mid_inv cr d \<and> get_current_round d = start \<and> start \<le> cur \<and>
     start \<noteq> - 1 \<and> (\<forall>h. highest = Some h \<longrightarrow> bh_round h \<noteq> - 1) \<and>
     (\<forall>r b. tbl_get (cons_blocks_notarized d) r = Some b \<longrightarrow>
        r < cur \<or> (\<exists>h. highest = Some h \<and> r \<le> bh_round h))"

text \<open>What the loop leaves alone: all but the notarized blocks, which it only adds to.\<close>

definition loop_frame :: "cons_db \<Rightarrow> cons_db \<Rightarrow> bool" where
  "loop_frame d d' \<longleftrightarrow>
     cons_current_round d' = cons_current_round d \<and>
     cons_finality_consensus d' = cons_finality_consensus d \<and>
     cons_finality_votes d' = cons_finality_votes d \<and>
     cons_params_schedule d' = cons_params_schedule d \<and> cons_params d' = cons_params d \<and>
     cons_blocks_proposals d' = cons_blocks_proposals d \<and>
     cons_blocks_pinned d' = cons_blocks_pinned d \<and>
     cons_blocks_payloads d' = cons_blocks_payloads d \<and>
     cons_votes_dummy d' = cons_votes_dummy d \<and>
     (\<forall>r i. tbl_get (cons_votes_block d') (r, i) = tbl_get (cons_votes_block d) (r, i)) \<and>
     (\<forall>r b. tbl_get (cons_blocks_notarized d) r = Some b \<longrightarrow>
        tbl_get (cons_blocks_notarized d') r = Some b)"

lemma loop_frame_refl: "loop_frame d d"
  by (simp add: loop_frame_def)

lemma loop_frame_trans: "loop_frame d e \<Longrightarrow> loop_frame e f \<Longrightarrow> loop_frame d f"
  by (simp add: loop_frame_def)

lemma ended_frame: "loop_frame d d' \<Longrightarrow> ended d' = ended d"
proof -
  assume f: "loop_frame d d'"
  then have "params_at d' = params_at d" by (intro params_at_cong) (simp_all add: loop_frame_def)
  then show ?thesis
    using f by (simp add: ended_def fun_eq_iff num_votes_proposal num_votes_dummy loop_frame_def)
qed

text \<open>A round past the current one and past the highest notarized block is not over.\<close>

lemma no_quorum_of_none:
  assumes "sched_inv cr d" "params_at d r = Some p"
  shows "0 < threshold (of_nat (length (peers p)))"
  using params_at_ok [OF assms] np.thr_pos by (simp add: params_ok_def)

lemma no_votes_beyond:
  assumes "live_inv d" "\<not> live_round d r"
  shows "get_num_votes_proposal d r = 0" "get_num_votes_dummy d r = 0"
proof -
  have "tbl_get (cons_votes_block d) (r, i) = None" "tbl_get (cons_votes_dummy d) (r, i) = None" for i
    using assms unfolding live_inv_def by (metis not_Some_eq)+
  then show "get_num_votes_proposal d r = 0" "get_num_votes_dummy d r = 0"
    by (simp_all add: num_votes_proposal num_votes_dummy)
qed

lemma ended_not_max:
  assumes inv: "loop_inv cr start highest cur d" and e: "ended d highest r"
  shows "r \<noteq> - 1"
proof
  assume r: "r = - 1"
  have m: "mid_inv cr d" "get_current_round d \<noteq> - 1" and h: "\<And>h. highest = Some h \<Longrightarrow> bh_round h \<noteq> - 1"
    using inv by (auto simp: loop_inv_def)
  have "\<not> live_round d (- 1)"
    using m by (auto simp: live_round_def mid_inv_def live_inv_def word_order.extremum_unique)
  then have "get_num_votes_proposal d r = 0" "get_num_votes_dummy d r = 0"
    using m r no_votes_beyond by (auto simp: mid_inv_def)
  then show False
    using e h no_quorum_of_none [OF mid_inv_sched [OF m(1)]] r
    by (auto simp: ended_def word_order.extremum_unique) (metis less_irrefl_nat)+
qed

text \<open>One pass: it stops exactly when the round is not over, and otherwise keeps the invariant.\<close>

lemma round_body_real:
  assumes inv: "loop_inv cr start highest cur d"
    and high: "\<not> (case highest of Some h \<Rightarrow> cur \<le> bh_round h | None \<Rightarrow> False)"
    and pr: "tbl_get (cons_blocks_proposals d) cur = Some b" and q: "quorum_at d cur"
    and ne: "cur \<noteq> - 1"
  shows "\<exists>out. insert_notarized_block cur b None d = (Ok out :: ('e, _) res) \<and>
    loop_inv cr start highest (cur + 1) (snd out) \<and> loop_frame d (snd out)"
proof -
  have m: "mid_inv cr d" "get_current_round d \<le> cur" using inv by (auto simp: loop_inv_def)
  have below: "r < cur" if "tbl_get (cons_blocks_notarized d) r = Some x" for r x
    using inv that high by (auto simp: loop_inv_def split: option.splits)
  then have no: "tbl_get (cons_blocks_notarized d) cur = None" by (metis less_irrefl not_Some_eq)
  have "bh_round b = cur" "\<not> is_dummy b"
    using m pr by (auto simp: mid_inv_def props_inv_def header_ok_def)
  then obtain out where out: "insert_notarized_block cur b None d = (Ok out :: ('e, _) res)"
    and fields: "snd out = retain_votes cur b
      (d\<lparr>cons_blocks_notarized := tbl_insert cur b (cons_blocks_notarized d)\<rparr>)"
    using no by (simp add: insert_notarized_block_def)
  note step = notarize_proposal_inv [OF m(1) out pr no m(2) ne q]
  have "loop_inv cr start highest (cur + 1) (snd out)"
    using step inv below ne
    by (auto simp: loop_inv_def fields less_plus_one_iff plus_one_le_iff less_imp_le
        split: if_splits intro: order.trans [OF _ less_imp_le [OF less_plus_one]])
  moreover have "loop_frame d (snd out)"
    using step no by (auto simp: loop_frame_def fields retain_votes_def)
  ultimately show ?thesis using out by blast
qed

lemma loop_inv_next:
  assumes "loop_inv cr start highest cur d" "cur \<noteq> - 1"
  shows "loop_inv cr start highest (cur + 1) d"
  using assms less_plus_one [OF assms(2)]
  by (auto simp: loop_inv_def intro: order.trans less_imp_le order.strict_trans)

lemma num_peers_ok:
  "sched_inv cr d \<Longrightarrow> params_at d r = Some p \<Longrightarrow> num_peers p = Ok (of_nat (length (peers p)))"
  using params_at_ok by (simp add: res_simps params_ok_def)

lemma leader_ok:
  assumes "sched_inv cr d" "params_at d r = Some p"
  shows "\<exists>i. params_leader_idx cr p r' = Ok i"
  using params_at_ok [OF assms]
  by (simp add: params_leader_idx_def num_peers_ok [OF assms] leader_idx_def params_ok_def)

lemma check_pin_cases:
  "cur \<noteq> 0 \<Longrightarrow> check_pin cr cur d = Ok () \<or> check_pin cr cur d = Err PinnedMismatch"
  by (auto simp: check_pin_def arr_prev_def checked_sub_def word_le_nat_alt unat_gt_0 Suc_le_eq
      ensure_def split: option.splits)

lemma round_body_cases:
  assumes inv: "loop_inv cr start highest cur d"
  obtains (pin) "round_body cr start highest cur l d = Err PinnedMismatch"
  | (go) l' d' where "round_body cr start highest cur l d = Ok (Continue l' d')"
      "ended d highest cur" "loop_inv cr start highest (cur + 1) d'" "loop_frame d d'"
      "l' = Some cur \<or> l' = l"
  | (stop) t where "round_body cr start highest cur l d = Ok (Break t)" "\<not> ended d highest cur"
      "\<And>r b. tbl_get (cons_blocks_notarized d) r = Some b \<Longrightarrow> r < cur"
proof -
  have m: "mid_inv cr d" "sched_inv cr d" and start: "start \<le> cur"
    using inv by (auto simp: loop_inv_def mid_inv_def)
  define pin where "pin = (if start \<noteq> cur then check_pin cr cur d else Ok ())"
  have "cur \<noteq> 0" if "start \<noteq> cur" using start that by auto
  then have pins: "pin = Ok () \<or> pin = Err PinnedMismatch"
    using check_pin_cases by (auto simp: pin_def)
  obtain p where p: "params_at d cur = Some p" "params_ok cr p" using params_at_Some [OF m(2)] by blast
  have np: "num_peers p = (Ok (of_nat (length (peers p))) :: (round_invariant_error, _) res)"
    using num_peers_ok [OF m(2) p(1)] .
  have params: "get_consensus_params d cur = (Ok p :: (round_invariant_error, _) res)"
    using p by (simp add: res_simps)
  obtain i where leader: "params_leader_idx cr p cur = (Ok i :: (round_invariant_error, _) res)"
    using leader_ok [OF m(2) p(1)] by blast
  have pro: "get_proposal d cur =
      (Ok (tbl_get (cons_blocks_proposals d) cur) :: (round_invariant_error, _) res)"
    using m(1) by (auto simp: get_proposal_def mid_inv_def props_inv_def split: option.splits)
  let ?n = "of_nat (length (peers p)) :: num_peers"
  let ?high = "case highest of Some h \<Rightarrow> cur \<le> bh_round h | None \<Rightarrow> False"
  consider (pinned) "pin = Err PinnedMismatch" | (high) "pin = Ok ()" ?high
    | (real) b where "pin = Ok ()" "\<not> ?high" "tbl_get (cons_blocks_proposals d) cur = Some b"
        "threshold ?n \<le> get_num_votes_proposal d cur"
    | (other) "pin = Ok ()" "\<not> ?high" "tbl_get (cons_blocks_proposals d) cur = None \<or>
        \<not> threshold ?n \<le> get_num_votes_proposal d cur"
    using pins by (cases "tbl_get (cons_blocks_proposals d) cur") auto
  then show thesis
  proof cases
    case pinned
    then have "round_body cr start highest cur l d = Err PinnedMismatch"
      by (simp add: round_body_def flip: pin_def)
    then show thesis by (rule that(1))
  next
    case high
    then have e: "ended d highest cur" by (auto simp: ended_def split: option.splits)
    have "round_body cr start highest cur l d = Ok (Continue (Some cur) d)"
      using high by (simp add: round_body_def flip: pin_def)
    then show thesis
      using that(2) e loop_inv_next [OF inv ended_not_max [OF inv e]] loop_frame_refl by blast
  next
    case real
    then have e: "ended d highest cur" and q: "quorum_at d cur"
      using p by (auto simp: ended_def quorum_at_def)
    from round_body_real [OF inv real(2,3) q ended_not_max [OF inv e]] obtain out where
      out: "insert_notarized_block cur b None d = (Ok out :: (round_invariant_error, _) res)"
      "loop_inv cr start highest (cur + 1) (snd out)" "loop_frame d (snd out)" by blast
    have "round_body cr start highest cur l d = Ok (Continue (Some cur) (snd out))"
      using real out(1) params np pro by (simp add: round_body_def flip: pin_def)
    then show thesis using that(2) e out by blast
  next
    case other
    let ?dum = "threshold ?n \<le> get_num_votes_dummy d cur"
    have body: "round_body cr start highest cur l d =
        (if ?dum then Ok (Continue l d)
         else Ok (Break (tbl_get (cons_blocks_proposals d) cur \<noteq> None \<or>
           max_faulty ?n < get_num_votes_dummy d cur \<or> get_vote_dummy d cur i \<noteq> None)))"
      using other params np pro leader
      by (auto simp: round_body_def Let_def split: option.splits simp flip: pin_def)
    have e: "ended d highest cur \<longleftrightarrow> ?dum"
      using other p by (auto simp: ended_def split: option.splits)
    show thesis
    proof (cases ?dum)
      case True
      then show thesis
        using that(2) body e loop_inv_next [OF inv ended_not_max [OF inv]] loop_frame_refl by auto
    next
      case False
      have "r < cur" if "tbl_get (cons_blocks_notarized d) r = Some b" for r b
        using inv that other(2) by (auto simp: loop_inv_def split: option.splits)
      then show thesis using False that(3) body e by auto
    qed
  qed
qed

text \<open>The loop advances to the first round that is not over, or stops on a pin that does not match.\<close>

definition round_end_ok ::
  "crypto \<Rightarrow> block_round \<Rightarrow> block_header option \<Rightarrow> block_round \<Rightarrow> cons_db \<Rightarrow> round_end \<Rightarrow> bool" where
  "round_end_ok cr start highest cur d e \<longleftrightarrow>
     loop_inv cr start highest (re_round e) (re_db e) \<and> loop_frame d (re_db e) \<and> cur \<le> re_round e \<and>
     (\<forall>r. cur \<le> r \<longrightarrow> r < re_round e \<longrightarrow> ended d highest r) \<and> \<not> ended d highest (re_round e) \<and>
     (\<forall>r b. tbl_get (cons_blocks_notarized (re_db e)) r = Some b \<longrightarrow> r < re_round e)"

lemma round_loop_cases:
  assumes "loop_inv cr start highest cur d" and "\<And>r. l = Some r \<Longrightarrow> r < cur"
  shows "round_loop cr start highest cur l d = Err PinnedMismatch \<or>
    (\<exists>e. round_loop cr start highest cur l d = Ok e \<and> round_end_ok cr start highest cur d e \<and>
      (\<forall>r. re_last_notarized e = Some r \<longrightarrow> r < re_round e))"
  using assms
proof (induction cr start highest cur l d rule: round_loop.induct)
  case (1 cr start highest cur l d)
  note inv = "1.prems"(1)
  from inv show ?case
  proof (cases rule: round_body_cases [where l = l, consumes 1, case_names pin go stop])
    case pin
    then show ?thesis by (simp add: round_loop.simps)
  next
    case (stop t)
    let ?e = "\<lparr>re_round = cur, re_last_notarized = l, re_needs_timeout = t, re_db = d\<rparr>"
    have "round_loop cr start highest cur l d = Ok ?e" using stop by (simp add: round_loop.simps)
    moreover have "round_end_ok cr start highest cur d ?e"
      using inv stop by (auto simp: round_end_ok_def loop_frame_refl)
    ultimately show ?thesis using "1.prems"(2) by auto
  next
    case (go l' d')
    have ne: "cur \<noteq> - 1" using ended_not_max [OF inv go(2)] .
    then have nxt: "arr_next_expect cur = (Ok (cur + 1) :: (round_invariant_error, block_round) res)"
      by (simp add: arr_next_expect_Ok_iff)
    have eq: "round_loop cr start highest cur l d = round_loop cr start highest (cur + 1) l' d'"
      using go(1) nxt by (simp add: round_loop.simps [of _ _ _ cur])
    have l': "r < cur + 1" if "l' = Some r" for r
      using that go(5) "1.prems"(2) ne by (auto simp: less_plus_one_iff less_plus_one less_imp_le)
    have step: "round_end_ok cr start highest cur d e"
      if e: "round_end_ok cr start highest (cur + 1) d' e" for e
    proof -
      have "ended d highest r" if "cur \<le> r" "r < re_round e" for r
        using e that go(2) ne ended_frame [OF go(4)]
        by (cases "r = cur") (auto simp: round_end_ok_def plus_one_le_iff)
      then show ?thesis
        using e go(4) ne ended_frame [OF go(4)] less_plus_one [OF ne]
        by (auto simp: round_end_ok_def plus_one_le_iff less_imp_le intro: loop_frame_trans)
    qed
    show ?thesis
      using "1.IH" [OF go(1) refl nxt go(3) l'] step unfolding eq by blast
  qed
qed

subsection \<open>Ending a round\<close>

lemma recalculate_ok:
  assumes "sched_inv cr (dbtx tx)"
  shows "\<exists>tx'. recalculate_finality_consensus_tx cur tx = Ok tx'"
proof -
  obtain p where p: "params_at (dbtx tx) cur = Some p" "params_ok cr p"
    using params_at_Some [OF assms] by blast
  let ?n = "of_nat (length (peers p)) :: num_peers"
  have "max_faulty ?n < length (peers p)"
    using np.faulty_bound [of ?n] p(2) by (simp add: params_ok_def)
  then have i: "index (finality_votes_sorted (dbtx tx) (peers p)) (max_faulty ?n) =
      Ok (finality_votes_sorted (dbtx tx) (peers p) ! max_faulty ?n)"
    by (simp add: index_Ok_iff finality_votes_sorted_def)
  have g: "get_consensus_params (dbtx tx) cur = Ok p" using p(1) by (simp add: res_simps)
  have t: "to_num_peers (peers p) = Ok ?n" using p(2) by (simp add: res_simps params_ok_def)
  show ?thesis by (simp add: recalculate_finality_consensus_tx_def g t i Let_def)
qed

lemma update_finality_ok:
  assumes "sched_inv cr (dbtx tx)"
  shows "\<exists>tx'. update_peer_finality_vote_round cur k vote tx = (Ok tx' :: ('e, cons_tx) res)"
proof -
  have "sched_inv cr (dbtx (upd (\<lambda>_. snd (update_finality_vote k vote (dbtx tx))) tx))"
    using assms by (simp add: update_finality_vote_def sched_inv_def)
  from recalculate_ok [OF this, of cur, where 'a = 'e] show ?thesis
    by (simp add: update_peer_finality_vote_round_def Let_def)
qed

lemma set_round_inv:
  assumes "mid_inv cr d" "get_current_round d \<le> r"
  shows "mid_inv cr (set_current_round r d)"
proof -
  let ?d = "set_current_round r d"
  have d: "?d = d\<lparr>cons_current_round := Some r\<rparr>" by (simp add: set_current_round_def)
  have "live_inv ?d"
    by (rule live_inv_mono [of d])
      (use assms in \<open>auto simp: d mid_inv_def live_inv_def live_round_def\<close>)
  moreover have "match_inv ?d"
    using assms unfolding mid_inv_def match_inv_def
    by (simp add: d) (meson order.trans)
  moreover have "votes_inv cr ?d"
    by (rule votes_inv_sub [of cr d]) (use assms in \<open>auto simp: d mid_inv_def\<close>)
  moreover have "dummies_inv cr ?d"
    by (rule dummies_inv_sub [of cr d]) (use assms in \<open>auto simp: d mid_inv_def\<close>)
  ultimately show ?thesis
    using assms by (simp add: d mid_inv_def sched_inv_def props_inv_def notar_inv_def payloads_inv_def)
qed

text \<open>
  The hooks of a transaction leave the round in the channel equal to the round in the database,
  when it was so at the start.
\<close>

definition round_synced :: "block_round \<Rightarrow> cons_tx \<Rightarrow> bool" where
  "round_synced start tx \<longleftrightarrow> (\<forall>c. fst (current_round_with_timeout c) = start \<longrightarrow>
     fst (current_round_with_timeout (fold run_hook (on_commit_hooks tx) c)) = get_current_round (dbtx tx))"

primrec quiet_hook :: "cons_hook \<Rightarrow> bool" where
  "quiet_hook (SendRoundTimeout r t) = False"
| "quiet_hook (SendFinalitySelfVote r) = True"
| "quiet_hook (SendFinalityConsensus r) = True"
| "quiet_hook NotifyNewVotes = True"
| "quiet_hook NotifyNewProposal = True"

lemma quiet_hook_round:
  "quiet_hook h \<Longrightarrow> current_round_with_timeout (run_hook h c) = current_round_with_timeout c"
  by (cases h) auto

lemma round_synced_quiet:
  assumes "round_synced start tx" "on_commit_hooks tx' = on_commit_hooks tx @ hs" "\<forall>h \<in> set hs. quiet_hook h"
    and "get_current_round (dbtx tx') = get_current_round (dbtx tx)"
  shows "round_synced start tx'"
proof -
  have "current_round_with_timeout (fold run_hook hs c) = current_round_with_timeout c" for c
    using assms(3) by (induction hs arbitrary: c) (simp_all add: quiet_hook_round)
  then show ?thesis using assms by (simp add: round_synced_def)
qed

lemma round_synced_new: "round_synced (get_current_round d) (wtx_new d)"
  by (simp add: round_synced_def)

lemma update_finality_hooks:
  assumes "update_peer_finality_vote_round cur k vote tx = (Ok tx' :: ('e, cons_tx) res)"
  shows "\<exists>hs. on_commit_hooks tx' = on_commit_hooks tx @ hs \<and> (\<forall>h \<in> set hs. quiet_hook h)"
proof -
  have rec: "\<exists>hs. on_commit_hooks t' = on_commit_hooks t @ hs \<and> (\<forall>h \<in> set hs. quiet_hook h)"
    if "recalculate_finality_consensus_tx cur t = (Ok t' :: ('e, cons_tx) res)" for t t'
    using that unfolding recalculate_finality_consensus_tx_def Let_def
    by (clarsimp simp: res_simps)
  let ?tx = "upd (\<lambda>_. snd (update_finality_vote k vote (dbtx tx))) tx"
  have "tx' = ?tx \<or> recalculate_finality_consensus_tx cur ?tx = (Ok tx' :: ('e, cons_tx) res)"
    using assms by (auto simp: update_peer_finality_vote_round_def Let_def split: if_splits)
  then show ?thesis using rec [of ?tx tx'] by fastforce
qed

lemma highest_covers:
  assumes inv: "mid_inv cr d" and highest: "highest = get_prev_notarized_block d (- 1)"
    and r: "tbl_get (cons_blocks_notarized d) r = Some b"
  shows "\<exists>h. highest = Some h \<and> r \<le> bh_round h"
proof -
  have keys: "\<And>r b. tbl_get (cons_blocks_notarized d) r = Some b \<Longrightarrow> bh_round b = r"
    using inv by (auto simp: mid_inv_def notar_inv_def)
  have "r \<noteq> - 1" using r inv by (auto simp: mid_inv_def live_inv_def)
  then have "r < - 1" by (simp add: word_order.not_eq_extremum)
  then show ?thesis
    using r highest prev_notarized_Some_iff [OF keys] prev_notarized_None_iff by (metis not_Some_eq)
qed

lemma loop_inv_start:
  assumes "mid_inv cr d" "get_current_round d \<noteq> - 1"
  shows "loop_inv cr (get_current_round d) (get_prev_notarized_block d (- 1)) (get_current_round d) d"
proof -
  have keys: "\<And>r b. tbl_get (cons_blocks_notarized d) r = Some b \<Longrightarrow> bh_round b = r"
    using assms by (auto simp: mid_inv_def notar_inv_def)
  have "bh_round h \<noteq> - 1" if "get_prev_notarized_block d (- 1) = Some h" for h
    using that prev_notarized_Some_iff [OF keys, where r = "- 1" and b = h] by auto
  then show ?thesis using assms highest_covers [OF assms(1) refl] by (auto simp: loop_inv_def)
qed

text \<open>\<open>check_round_end\<close> never panics and turns \<open>mid_inv\<close> into \<open>cons_inv\<close>.\<close>

definition advanced :: "cons_db \<Rightarrow> cons_db \<Rightarrow> bool" where
  "advanced d d' \<longleftrightarrow>
     (let highest = get_prev_notarized_block d (- 1); cur = get_current_round d;
          cur' = get_current_round d' in
      cur \<le> cur' \<and> (\<forall>r. cur \<le> r \<longrightarrow> r < cur' \<longrightarrow> ended d highest r) \<and> \<not> ended d highest cur')"

lemma record_self_vote_ok:
  assumes "sched_inv cr (dbtx tx)" and "\<And>l. last_r = Some l \<Longrightarrow> l \<noteq> - 1"
  shows "\<exists>tx' hs. record_self_vote our cur last_r tx = (Ok tx' :: ('e, cons_tx) res) \<and>
    finality_step (dbtx tx) (dbtx tx') \<and> on_commit_hooks tx' = on_commit_hooks tx @ hs \<and>
    (\<forall>h \<in> set hs. quiet_hook h)"
proof (cases last_r)
  case None
  then show ?thesis by (simp add: record_self_vote_def finality_step_refl)
next
  case (Some l)
  have nx: "arr_next_expect l = (Ok (l + 1) :: ('e, _) res)"
    using assms(2) [OF Some] by (simp add: res_simps)
  let ?tx = "on_commit (SendFinalitySelfVote (l + 1)) tx"
  show ?thesis
  proof (cases our)
    case None
    then show ?thesis using Some nx by (simp add: record_self_vote_def finality_step_refl)
  next
    case (Some k)
    obtain tx' where t: "update_peer_finality_vote_round cur k (l + 1) ?tx = (Ok tx' :: ('e, _) res)"
      using update_finality_ok [of cr ?tx, where 'e = 'e] assms(1) by fastforce
    have "record_self_vote our cur last_r tx = (Ok tx' :: ('e, _) res)"
      using \<open>last_r = Some l\<close> nx t Some by (simp add: record_self_vote_def Let_def)
    moreover have "finality_step (dbtx tx) (dbtx tx')" using update_finality_step [OF t] by simp
    moreover obtain hs where "on_commit_hooks tx' = on_commit_hooks tx @ SendFinalitySelfVote (l + 1) # hs"
      "\<forall>h \<in> set hs. quiet_hook h" using update_finality_hooks [OF t] by auto
    ultimately show ?thesis
      by (intro exI [of _ tx'] exI [of _ "SendFinalitySelfVote (l + 1) # hs"]) simp
  qed
qed

lemma round_end_inv:
  assumes "round_end_ok cr start highest start d e"
    and "d1 = (if start \<noteq> re_round e then set_current_round (re_round e) (re_db e) else re_db e)"
  shows "cons_inv cr d1 \<and> get_current_round d1 = re_round e"
proof -
  have "loop_inv cr start highest (re_round e) (re_db e)" "start \<le> re_round e"
    using assms(1) by (auto simp: round_end_ok_def)
  then have re: "mid_inv cr (re_db e)" "get_current_round (re_db e) = start" "start \<le> re_round e"
    by (auto simp: loop_inv_def)
  then have "mid_inv cr d1" by (simp add: assms(2) set_round_inv)
  moreover have cur: "get_current_round d1 = re_round e"
    using re by (simp add: assms(2) set_current_round_def)
  moreover have "r < re_round e" if "tbl_get (cons_blocks_notarized d1) r = Some b" for r b
    using assms that by (auto simp: round_end_ok_def set_current_round_def split: if_splits)
  ultimately show ?thesis by (simp add: cons_inv_def)
qed

lemma check_round_end_cases:
  assumes inv: "mid_inv cr (dbtx tx)" and start: "start = get_current_round (dbtx tx)"
    and ne: "start \<noteq> - 1" and sync: "round_synced start tx"
  shows "check_round_end cr our start tx = Err PinnedMismatch \<or>
    (\<exists>tx'. check_round_end cr our start tx = Ok tx' \<and> cons_inv cr (dbtx tx') \<and>
      advanced (dbtx tx) (dbtx tx') \<and> round_synced start tx')"
proof -
  let ?d = "dbtx tx" and ?h = "get_prev_notarized_block (dbtx tx) (- 1)"
  have li: "loop_inv cr start ?h start ?d" using loop_inv_start inv ne start by auto
  consider "round_loop cr start ?h start None ?d = Err PinnedMismatch"
    | e where "round_loop cr start ?h start None ?d = Ok e" "round_end_ok cr start ?h start ?d e"
        "\<forall>r. re_last_notarized e = Some r \<longrightarrow> r < re_round e"
    using round_loop_cases [OF li, of None] by auto
  then show ?thesis
  proof cases
    case 1
    then show ?thesis by (simp add: check_round_end_def Let_def)
  next
    case (2 e)
    define d1 where
      "d1 = (if start \<noteq> re_round e then set_current_round (re_round e) (re_db e) else re_db e)"
    note ci = round_end_inv [OF 2(2) d1_def]
    have "sched_inv cr (dbtx (upd (\<lambda>_. d1) tx))" using ci by (simp add: cons_inv_def mid_inv_def)
    from record_self_vote_ok [OF this, of "re_last_notarized e" our "re_round e",
      where 'e = round_invariant_error] obtain tx2 hs where
      t: "record_self_vote our (re_round e) (re_last_notarized e) (upd (\<lambda>_. d1) tx) =
        (Ok tx2 :: (round_invariant_error, _) res)"
      "finality_step d1 (dbtx tx2)" "on_commit_hooks tx2 = on_commit_hooks tx @ hs"
      "\<forall>h \<in> set hs. quiet_hook h"
      using 2(3) less_imp_not_max by auto blast
    define tx' where "tx' = (if re_round e \<noteq> start \<or> re_needs_timeout e
      then on_commit (SendRoundTimeout (re_round e) (re_needs_timeout e)) tx2 else tx2)"
    have res: "check_round_end cr our start tx = Ok tx'"
      unfolding check_round_end_def Let_def 2(1) res_bind.simps d1_def [symmetric] t(1) tx'_def ..
    have db: "dbtx tx' = dbtx tx2" by (simp add: tx'_def)
    have cur: "get_current_round (dbtx tx2) = re_round e"
      using t(2) ci by (simp add: finality_step_def get_current_round_def)
    have "cons_inv cr (dbtx tx')" using finality_step_cons_inv [OF t(2)] ci db by simp
    moreover have "advanced ?d (dbtx tx')"
      using 2(2) start cur db by (simp add: advanced_def Let_def round_end_ok_def)
    moreover have "round_synced start tx'"
      using round_synced_quiet [OF sync t(3,4)] cur start
      by (auto simp: tx'_def round_synced_def Let_def)
    ultimately show ?thesis using res by blast
  qed
qed

end
