(* ===== verification/Cons_Correct.thy ===== *)
theory Cons_Correct
  imports Cons_Safety
begin

section \<open>The handlers keep the invariant of a node\<close>

text \<open>
  The state of a node is its database and its channels. \<open>node_inv\<close> is the invariant \<open>cons_inv\<close>
  together with the agreement of the channel of the current round with the database, on which the
  scheduling of new parameters relies. The contract \<open>tx_component\<close> of the database layer is
  interpreted on the three message handlers, so that it holds after every history of messages.
\<close>

subsection \<open>Votes\<close>

lemma process_vote_mid:
  assumes inv: "mid_inv cr d" and below: "\<forall>r b. tbl_get (cons_blocks_notarized d) r = Some b \<longrightarrow> r < cur"
    and cur: "cur = get_current_round d" and p: "params_at d cur = Some params"
    and vote: "bh_round (inner vote) = cur"
    and sg: "sig_valid cr (peers params) (header_sign_hash cr (inner vote)) i (sig vote)"
  shows "is_dummy (inner vote) \<Longrightarrow> consensus_params_hash (inner vote) = params_hash cr params \<Longrightarrow>
      mid_inv cr (snd (insert_dummy_vote cur i (sig vote) d))"
    and "\<not> is_dummy (inner vote) \<Longrightarrow>
      tbl_get (cons_blocks_proposals d) cur = None \<or>
        tbl_get (cons_blocks_proposals d) cur = Some (inner vote) \<Longrightarrow>
      mid_inv cr (snd (insert_block_vote cur i vote d))"
proof -
  assume "is_dummy (inner vote)" "consensus_params_hash (inner vote) = params_hash cr params"
  then have "dummy_vote_ok cr d cur i (sig vote)"
    unfolding dummy_vote_ok_def using p vote sg by (intro exI [of _ params] exI [of _ "inner vote"]) simp
  then show "mid_inv cr (snd (insert_dummy_vote cur i (sig vote) d))"
    using insert_dummy_vote_inv [OF inv] cur by simp
next
  assume "\<not> is_dummy (inner vote)" and pr: "tbl_get (cons_blocks_proposals d) cur = None \<or>
      tbl_get (cons_blocks_proposals d) cur = Some (inner vote)"
  then have "vote_ok cr d cur i vote" using p vote sg by (simp add: vote_ok_def)
  moreover have "tbl_get (cons_blocks_notarized d) cur = None" using below by (metis less_irrefl not_Some_eq)
  ultimately show "mid_inv cr (snd (insert_block_vote cur i vote d))"
    using cur pr by (intro insert_block_vote_inv [OF inv]) auto
qed

lemma get_proposal_Ok_iff [res_simps]:
  "get_proposal d r = Ok pr \<longleftrightarrow> pr = tbl_get (cons_blocks_proposals d) r \<and>
     (\<forall>b. pr = Some b \<longrightarrow> bh_round b = r)"
  by (auto simp: get_proposal_def res_simps split: option.splits)

lemma insert_votes_fields [simp]:
  "cons_blocks_notarized (snd (insert_block_vote r i v d)) = cons_blocks_notarized d"
  "cons_blocks_notarized (snd (insert_dummy_vote r i s d)) = cons_blocks_notarized d"
  "get_current_round (snd (insert_block_vote r i v d)) = get_current_round d"
  "get_current_round (snd (insert_dummy_vote r i s d)) = get_current_round d"
  "params_at (snd (insert_dummy_vote r i s d)) = params_at d"
  by (simp_all add: insert_block_vote_def insert_dummy_vote_def)

text \<open>What an accepted vote has passed, the table it went to, and what is left to do then.\<close>

lemma process_vote_elim:
  assumes "process_vote cr our cur params clen i vote tx = Ok tx'"
  obtains d' where "sig_valid cr (peers params) (header_sign_hash cr (inner vote)) i (sig vote)"
    and "is_dummy (inner vote) \<and> consensus_params_hash (inner vote) = params_hash cr params \<and>
        d' = snd (insert_dummy_vote cur i (sig vote) (dbtx tx)) \<or>
      \<not> is_dummy (inner vote) \<and> (tbl_get (cons_blocks_proposals (dbtx tx)) cur = None \<or>
          tbl_get (cons_blocks_proposals (dbtx tx)) cur = Some (inner vote)) \<and>
        d' = snd (insert_block_vote cur i vote (dbtx tx))"
    and "tx' = notify_new_votes (upd (\<lambda>_. d') tx) \<or>
      check_round_end cr our cur (notify_new_votes (upd (\<lambda>_. d') tx)) = Ok tx'"
proof (cases "is_dummy (inner vote)")
  case True
  let ?out = "insert_dummy_vote cur i (sig vote) (dbtx tx)"
  show thesis
    by (rule that [of "snd ?out"])
      (use assms True in \<open>auto simp: process_vote_def res_simps Let_def
         split: insert_outcome.splits if_splits\<close>)
next
  case False
  let ?out = "insert_block_vote cur i vote (dbtx tx)"
  show thesis
    by (rule that [of "snd ?out"])
      (use assms False in \<open>auto simp: process_vote_def res_simps Let_def
         split: insert_outcome.splits if_splits\<close>)
qed

lemma process_vote_inv:
  assumes inv: "mid_inv cr (dbtx tx)"
    and below: "\<forall>r b. tbl_get (cons_blocks_notarized (dbtx tx)) r = Some b \<longrightarrow> r < cur"
    and cur: "cur = get_current_round (dbtx tx)" "cur \<noteq> - 1"
    and p: "params_at (dbtx tx) cur = Some params"
    and vote: "bh_round (inner vote) = cur" and sync: "round_synced cur tx"
    and res: "process_vote cr our cur params clen i vote tx = Ok tx'"
  shows "cons_inv cr (dbtx tx') \<and> round_synced cur tx'"
proof -
  from res obtain d' where
    sg: "sig_valid cr (peers params) (header_sign_hash cr (inner vote)) i (sig vote)"
    and d': "is_dummy (inner vote) \<and> consensus_params_hash (inner vote) = params_hash cr params \<and>
        d' = snd (insert_dummy_vote cur i (sig vote) (dbtx tx)) \<or>
      \<not> is_dummy (inner vote) \<and> (tbl_get (cons_blocks_proposals (dbtx tx)) cur = None \<or>
          tbl_get (cons_blocks_proposals (dbtx tx)) cur = Some (inner vote)) \<and>
        d' = snd (insert_block_vote cur i vote (dbtx tx))"
    and tx': "tx' = notify_new_votes (upd (\<lambda>_. d') tx) \<or>
      check_round_end cr our cur (notify_new_votes (upd (\<lambda>_. d') tx)) = Ok tx'"
    by (rule process_vote_elim)
  let ?tx = "notify_new_votes (upd (\<lambda>_. d') tx)"
  have mid: "mid_inv cr d'" using d' process_vote_mid [OF inv below cur(1) p vote sg] by auto
  have f: "get_current_round d' = cur" "cons_blocks_notarized d' = cons_blocks_notarized (dbtx tx)"
    using d' cur(1) by auto
  have db: "dbtx ?tx = d'" by (simp add: notify_new_votes_def)
  have sy: "round_synced cur ?tx"
    by (rule round_synced_quiet [OF sync, where hs = "[NotifyNewVotes]"])
      (use f cur in \<open>simp_all add: notify_new_votes_def\<close>)
  from tx' show ?thesis
  proof
    assume "tx' = ?tx"
    then show ?thesis using sy db mid f below by (simp add: cons_inv_def)
  next
    assume "check_round_end cr our cur ?tx = Ok tx'"
    then show ?thesis using check_round_end_cases [of cr ?tx cur our] mid f cur(2) sy db by auto
  qed
qed

subsection \<open>Proposals\<close>

lemma insert_block_proposal_outcomes:
  assumes "insert_block_proposal r b p d = Ok out"
  shows "fst out = AlreadyPresent e \<Longrightarrow> snd out = d"
    and "fst out = Inserted \<Longrightarrow> cons_blocks_notarized (snd out) = cons_blocks_notarized d \<and>
      get_current_round (snd out) = get_current_round d \<and> params_at (snd out) = params_at d"
  using assms by (auto simp: insert_block_proposal_def res_simps split: option.splits)

lemma process_proposal_elim:
  assumes "process_proposal cr cur params clen i block pl tx = Ok out"
  obtains ins where "insert_block_proposal cur (inner block) pl (dbtx tx) =
      (Ok ins :: (process_vote_error, _) res)"
    and "\<not> is_dummy (inner block)"
    and "params_leader_idx cr params cur = (Ok i :: (process_vote_error, _) res)"
    and "verify_with_content cr (inner block) (params_hash cr params) clen pl = Ok ()"
    and "does_directly_extend cr (inner block) (get_prev_notarized_block (dbtx tx) cur)"
    and "(case fst ins of
       AlreadyPresent existing \<Rightarrow>
         if existing \<noteq> inner block then Err (ForkedProposal i existing)
         else Ok (Inl (upd (\<lambda>_. snd ins) tx))
     | Inserted \<Rightarrow> Ok (Inr (on_commit NotifyNewProposal (upd (\<lambda>_. snd ins) tx)))) = Ok out"
  using assms by (auto simp: process_proposal_def res_simps Let_def)

lemma upd_same: "upd (\<lambda>_. dbtx tx) tx = tx"
  by (simp add: upd_def)

lemma process_proposal_Inl:
  assumes "process_proposal cr cur params clen i block pl tx = Ok (Inl tx')"
  shows "tx' = tx"
proof -
  from assms obtain ins where ins: "insert_block_proposal cur (inner block) pl (dbtx tx) =
      (Ok ins :: (process_vote_error, _) res)"
    and "(case fst ins of
       AlreadyPresent existing \<Rightarrow>
         if existing \<noteq> inner block then Err (ForkedProposal i existing)
         else Ok (Inl (upd (\<lambda>_. snd ins) tx))
     | Inserted \<Rightarrow> Ok (Inr (on_commit NotifyNewProposal (upd (\<lambda>_. snd ins) tx)))) = Ok (Inl tx')"
    by (rule process_proposal_elim)
  then show ?thesis
    using insert_block_proposal_outcomes(1) [OF ins] upd_same
    by (cases "fst ins") (auto split: if_splits)
qed

lemma process_proposal_Inr:
  assumes "process_proposal cr cur params clen i block pl tx = Ok (Inr tx')"
  obtains ins where "insert_block_proposal cur (inner block) pl (dbtx tx) =
      (Ok ins :: (process_vote_error, _) res)" "fst ins = Inserted"
    "tx' = on_commit NotifyNewProposal (upd (\<lambda>_. snd ins) tx)"
proof -
  from assms obtain ins where ins: "insert_block_proposal cur (inner block) pl (dbtx tx) =
      (Ok ins :: (process_vote_error, _) res)"
    and "(case fst ins of
       AlreadyPresent existing \<Rightarrow>
         if existing \<noteq> inner block then Err (ForkedProposal i existing)
         else Ok (Inl (upd (\<lambda>_. snd ins) tx))
     | Inserted \<Rightarrow> Ok (Inr (on_commit NotifyNewProposal (upd (\<lambda>_. snd ins) tx)))) = Ok (Inr tx')"
    by (rule process_proposal_elim)
  then show thesis using that by (cases "fst ins") (auto split: if_splits)
qed

lemma process_proposal_inv:
  assumes inv: "mid_inv cr (dbtx tx)"
    and below: "\<forall>r b. tbl_get (cons_blocks_notarized (dbtx tx)) r = Some b \<longrightarrow> r < cur"
    and cur: "cur = get_current_round (dbtx tx)" and p: "params_at (dbtx tx) cur = Some params"
    and clen: "clen = of_nat (length (enc_params cr params))"
    and block: "bh_round (inner block) = cur" and sync: "round_synced cur tx"
    and res: "process_proposal cr cur params clen i block pl tx = Ok (Inr tx')"
  shows "mid_inv cr (dbtx tx') \<and> round_synced cur tx' \<and>
      cons_blocks_notarized (dbtx tx') = cons_blocks_notarized (dbtx tx) \<and>
      get_current_round (dbtx tx') = cur \<and> params_at (dbtx tx') = params_at (dbtx tx)"
proof -
  from res obtain ins0 :: "block_header insert_outcome \<times> cons_db" where nd: "\<not> is_dummy (inner block)"
    and content: "verify_with_content cr (inner block) (params_hash cr params) clen pl = Ok ()"
    by (rule process_proposal_elim)
  from res obtain ins where ins: "insert_block_proposal cur (inner block) pl (dbtx tx) =
      (Ok ins :: (process_vote_error, _) res)" and i: "fst ins = Inserted"
    and tx': "tx' = on_commit NotifyNewProposal (upd (\<lambda>_. snd ins) tx)"
    by (rule process_proposal_Inr)
  note f = insert_block_proposal_outcomes(2) [OF ins i]
  have "mid_inv cr (snd ins)"
  proof (rule insert_block_proposal_inv [OF inv _ cur [symmetric]])
    show "insert_block_proposal cur (inner block) pl (dbtx tx) =
        (Ok (Inserted, snd ins) :: (process_vote_error, _) res)" using ins i by (cases ins) simp
    show "tbl_get (cons_blocks_notarized (dbtx tx)) cur = None"
      using below by (metis less_irrefl not_Some_eq)
  qed (use content nd p clen block in \<open>auto simp: res_simps header_ok_def\<close>)
  moreover have "round_synced cur tx'"
    by (rule round_synced_quiet [OF sync, where hs = "[NotifyNewProposal]"]) (use f cur in \<open>auto simp: tx'\<close>)
  ultimately show ?thesis using f cur by (simp add: tx')
qed

text \<open>A vote or a proposal that is accepted keeps the invariant of the database.\<close>

lemma process_vote_response_tx_inv:
  assumes inv: "cons_inv cr d" and ne: "get_current_round d \<noteq> - 1"
    and res: "process_vote_response_tx cr our i resp (wtx_new d) = Ok tx'"
  shows "cons_inv cr (dbtx tx') \<and> round_synced (get_current_round d) tx'"
proof -
  let ?cur = "get_current_round d" and ?tx = "wtx_new d :: cons_tx"
  have mid: "mid_inv cr (dbtx ?tx)" and below: "\<forall>r b. tbl_get (cons_blocks_notarized (dbtx ?tx)) r = Some b \<longrightarrow> r < ?cur"
    using inv by (auto simp: cons_inv_def)
  have sync: "round_synced ?cur ?tx" by (rule round_synced_new)
  obtain params clen where p: "params_at (dbtx ?tx) ?cur = Some params"
    and clen: "clen = of_nat (length (enc_params cr params))"
    and r: "bh_round (inner (response_block resp)) = ?cur"
    and c: "(case resp of Vote block \<Rightarrow> process_vote cr our ?cur params clen i block ?tx
      | Proposal block payload \<Rightarrow>
          res_bind (process_proposal cr ?cur params clen i block payload ?tx) (\<lambda>r.
          case r of Inl tx1 \<Rightarrow> Ok tx1
          | Inr tx1 \<Rightarrow> process_vote cr our ?cur params clen i block tx1)) = Ok tx'"
    using res by (auto simp: process_vote_response_tx_def res_simps Let_def)
  show ?thesis
  proof (cases resp)
    case (Vote block)
    then show ?thesis
      using c r process_vote_inv [OF mid below _ ne p _ sync] by (simp add: response_block_def)
  next
    case (Proposal block pl)
    then have b: "bh_round (inner block) = ?cur" using r by (simp add: response_block_def)
    obtain out where out: "process_proposal cr ?cur params clen i block pl ?tx = Ok out"
      and o: "(case out of Inl tx1 \<Rightarrow> Ok tx1
          | Inr tx1 \<Rightarrow> process_vote cr our ?cur params clen i block tx1) = Ok tx'"
      using c Proposal by (auto simp: res_simps)
    show ?thesis
    proof (cases out)
      case (Inl tx1)
      then have "tx' = ?tx" using process_proposal_Inl out o by auto
      then show ?thesis using inv sync by simp
    next
      case (Inr tx1)
      then have t: "process_vote cr our ?cur params clen i block tx1 = Ok tx'" using o by simp
      have f: "mid_inv cr (dbtx tx1)" "round_synced ?cur tx1"
        "cons_blocks_notarized (dbtx tx1) = cons_blocks_notarized d"
        "get_current_round (dbtx tx1) = ?cur" "params_at (dbtx tx1) = params_at d"
        using process_proposal_inv [OF mid below _ p clen b sync out [unfolded Inr]] by simp_all
      show ?thesis
        by (rule process_vote_inv [OF f(1) _ _ ne _ b f(2) t]) (use f below p in auto)
    qed
  qed
qed

subsection \<open>Notarized blocks\<close>

lemma check_round_end_inv:
  assumes "mid_inv cr (dbtx tx)" "get_current_round (dbtx tx) = cur" "cur \<noteq> - 1" "round_synced cur tx"
    and "map_err f (check_round_end cr our cur tx) = Ok tx'"
  shows "cons_inv cr (dbtx tx') \<and> round_synced cur tx'"
  using check_round_end_cases [of cr tx cur our] assms by (auto simp: res_simps)

lemma dummy_votes_inv:
  assumes "mid_inv cr d" and "\<And>i s. (i, s) \<in> set es \<Longrightarrow> dummy_vote_ok cr d (get_current_round d) i s"
  shows "mid_inv cr (fold (\<lambda>(i, s) d'. snd (insert_dummy_vote (get_current_round d) i s d')) es d) \<and>
    get_current_round (fold (\<lambda>(i, s) d'. snd (insert_dummy_vote (get_current_round d) i s d')) es d) =
      get_current_round d"
proof -
  let ?P = "\<lambda>d'. mid_inv cr d' \<and> get_current_round d' = get_current_round d \<and> params_at d' = params_at d"
  have "?P (fold (\<lambda>(i, s) d'. snd (insert_dummy_vote (get_current_round d) i s d')) es d)"
  proof (rule fold_invariant [where Q = "\<lambda>e. e \<in> set es"])
    fix e d'
    assume e: "e \<in> set es" and P: "?P d'"
    obtain i s where [simp]: "e = (i, s)" by fastforce
    have "dummy_vote_ok cr d' (get_current_round d) i s"
      using assms(2) e P by (simp add: dummy_vote_ok_def)
    then show "?P ((\<lambda>(i, s) d'. snd (insert_dummy_vote (get_current_round d) i s d')) e d')"
      using P insert_dummy_vote_inv by simp
  qed (use assms in auto)
  then show ?thesis by simp
qed

lemma process_notarized_dummy_inv:
  assumes inv: "cons_inv cr d" and ne: "get_current_round d \<noteq> - 1"
    and p: "params_at d (bh_round (n_inner block)) = Some params"
    and sg: "verify_sigs cr (header_sign_hash cr) block params = Ok u"
    and dummy: "is_dummy (n_inner block)" "consensus_params_hash (n_inner block) = params_hash cr params"
    and res: "process_notarized_dummy cr our (get_current_round d) block (wtx_new d) = Ok tx'"
  shows "cons_inv cr (dbtx tx') \<and> round_synced (get_current_round d) tx'"
proof -
  let ?cur = "get_current_round d"
  let ?d = "fold (\<lambda>(i, s) d'. snd (insert_dummy_vote ?cur i s d')) (entries (sigs block)) d"
  let ?tx = "notify_new_votes (upd (\<lambda>_. ?d) (wtx_new d))"
  have r: "bh_round (n_inner block) = ?cur"
    and c: "map_err NotarizedRoundInvariant (check_round_end cr our ?cur ?tx) = Ok tx'"
    using res by (auto simp: process_notarized_dummy_def res_simps Let_def)
  have ok: "dummy_vote_ok cr d ?cur i s" if "(i, s) \<in> set (entries (sigs block))" for i s
    unfolding dummy_vote_ok_def using that p sg dummy r
    by (intro exI [of _ params] exI [of _ "n_inner block"]) (auto simp: res_simps tb.scan_get)
  have m: "mid_inv cr ?d" "get_current_round ?d = ?cur"
    using dummy_votes_inv [OF cons_inv_imp_mid [OF inv] ok] by blast+
  have "round_synced ?cur ?tx"
    by (rule round_synced_quiet [OF round_synced_new [of d], where hs = "[NotifyNewVotes]"])
      (use m in \<open>simp_all add: notify_new_votes_def\<close>)
  then show ?thesis
    using check_round_end_inv [OF _ _ ne _ c] m by (simp add: notify_new_votes_def)
qed

lemma insert_notarized_block_tx_hooks:
  "insert_notarized_block_tx block pl tx = Ok tx' \<Longrightarrow>
     on_commit_hooks tx' = on_commit_hooks tx @ [NotifyNewVotes]"
  by (auto simp: insert_notarized_block_tx_def res_simps Let_def notify_new_votes_def)

lemma process_notarized_real_inv:
  assumes inv: "cons_inv cr d" and ne: "get_current_round d \<noteq> - 1"
    and r: "bh_round (n_inner block) \<noteq> - 1"
    and p: "params_at d (bh_round (n_inner block)) = Some params"
    and sg: "verify_sigs cr (header_sign_hash cr) block params = Ok u"
    and content: "verify_with_content cr (n_inner block) (params_hash cr params) clen pl = Ok v"
    and clen: "clen = of_nat (length (enc_params cr params))" and nd: "\<not> is_dummy (n_inner block)"
    and res: "process_notarized_real cr our (get_current_round d) block pl (wtx_new d) = Ok tx'"
  shows "cons_inv cr (dbtx tx') \<and> round_synced (get_current_round d) tx'"
proof -
  let ?cur = "get_current_round d" and ?b = "n_inner block" and ?r = "bh_round (n_inner block)"
  let ?tx = "wtx_new d :: cons_tx" and ?latest = "get_prev_notarized_block d (get_current_round d)"
  have mid: "mid_inv cr d" and below: "\<And>r b. tbl_get (cons_blocks_notarized d) r = Some b \<Longrightarrow> r < ?cur"
    using inv by (auto simp: cons_inv_def)
  have keys: "\<And>r b. tbl_get (cons_blocks_notarized d) r = Some b \<Longrightarrow> bh_round b = r"
    using mid by (auto simp: mid_inv_def notar_inv_def)
  have latest: "r \<le> bh_round l" if "?latest = Some l" "tbl_get (cons_blocks_notarized d) r = Some b" for l r b
    using that below [OF that(2)] prev_notarized_Some_iff [OF keys] by blast
  have none: "tbl_get (cons_blocks_notarized d) r = None" if "?latest = None" for r
    using that below prev_notarized_None_iff by (metis not_Some_eq)
  have sync: "round_synced ?cur ?tx" by (rule round_synced_new)
  have fin: "cons_inv cr (dbtx tx') \<and> round_synced ?cur tx'"
    if above: "\<And>l. ?latest = Some l \<Longrightarrow> bh_round l < ?r"
      and t: "insert_notarized_block_tx block pl tx0 = Ok tx1" and m0: "mid_inv cr (dbtx tx0)"
      and t0: "get_current_round (dbtx tx0) = ?cur" "params_at (dbtx tx0) = params_at d"
        "on_commit_hooks tx0 = []"
        "\<And>r b. tbl_get (cons_blocks_notarized (dbtx tx0)) r = Some b \<Longrightarrow>
           tbl_get (cons_blocks_notarized d) r = Some b"
      and c: "map_err NotarizedRoundInvariant (check_round_end cr our ?cur tx1) = Ok tx'" for tx0 tx1
  proof -
    have no: "tbl_get (cons_blocks_notarized (dbtx tx0)) ?r = None"
    proof (rule ccontr)
      assume "tbl_get (cons_blocks_notarized (dbtx tx0)) ?r \<noteq> None"
      then obtain b where b: "tbl_get (cons_blocks_notarized d) ?r = Some b" using t0(4) by blast
      then obtain l where "?latest = Some l" using none by fastforce
      then show False using latest [OF _ b] above by (simp add: leD)
    qed
    note ins = insert_notarized_block_tx_inv [OF m0 _ r sg content clen nd no t, unfolded t0(2), OF p]
    have "round_synced ?cur tx1"
      by (rule round_synced_quiet [OF sync, where hs = "[NotifyNewVotes]"])
        (use insert_notarized_block_tx_hooks [OF t] t0 ins(3) in auto)
    then show ?thesis using check_round_end_inv [OF ins(1) _ ne _ c] ins(3) t0(1) by simp
  qed
  consider (same) "tx' = ?tx"
    | (ext) tx1 where "\<And>l. ?latest = Some l \<Longrightarrow> bh_round l < ?r"
        "insert_notarized_block_tx block pl ?tx = Ok tx1"
        "map_err NotarizedRoundInvariant (check_round_end cr our ?cur tx1) = Ok tx'"
    | (rew) l tx1 where "?latest = Some l" "bh_round l < ?r"
        "insert_notarized_block_tx block pl (upd (delete_notarized_block (bh_round l)) ?tx) = Ok tx1"
        "map_err NotarizedRoundInvariant (check_round_end cr our ?cur tx1) = Ok tx'"
    using res by (auto simp: process_notarized_real_def Let_def res_simps rewind_and_insert_def
        split: option.splits if_splits)
  then show ?thesis
  proof cases
    case same
    then show ?thesis using inv sync by simp
  next
    case ext
    show ?thesis by (rule fin [OF ext(1,2)]) (use mid ext(3) in auto)
  next
    case rew
    have lt: "bh_round l < ?cur" using rew(1) prev_notarized_Some_iff [OF keys] by blast
    show ?thesis
      by (rule fin [OF _ rew(3)])
        (use rew delete_notarized_inv [OF mid lt] in \<open>auto simp: delete_notarized_block_def split: if_splits\<close>)
  qed
qed

lemma process_notarized_block_response_tx_inv:
  assumes inv: "cons_inv cr d" and ne: "get_current_round d \<noteq> - 1"
    and r: "bh_round (n_inner (wn_block resp)) \<noteq> - 1"
    and res: "process_notarized_block_response_tx cr our resp (wtx_new d) = Ok tx'"
  shows "cons_inv cr (dbtx tx') \<and> round_synced (get_current_round d) tx'"
proof -
  let ?b = "n_inner (wn_block resp)"
  obtain params clen where p: "params_at d (bh_round ?b) = Some params"
    and clen: "clen = of_nat (length (enc_params cr params))"
    and sg: "verify_sigs cr (header_sign_hash cr) (wn_block resp) params = Ok ()"
    and content: "verify_with_content cr ?b (params_hash cr params) clen (wn_payload resp) = Ok ()"
    and c: "(if is_dummy ?b
        then process_notarized_dummy cr our (get_current_round d) (wn_block resp) (wtx_new d)
        else process_notarized_real cr our (get_current_round d) (wn_block resp) (wn_payload resp)
          (wtx_new d)) = Ok tx'"
    using res unfolding process_notarized_block_response_tx_def Let_def
    by (simp only: res_bind_Ok_iff map_err_Ok_iff get_consensus_params_Ok_iff params_len_Ok_iff
        wtx_simps) auto
  have h: "consensus_params_hash ?b = params_hash cr params" using content by (simp add: res_simps)
  show ?thesis
  proof (cases "is_dummy ?b")
    case True
    then show ?thesis using process_notarized_dummy_inv [OF inv ne p sg True h] c by simp
  next
    case False
    then show ?thesis using process_notarized_real_inv [OF inv ne r p sg content clen False] c by simp
  qed
qed

subsection \<open>What no message can take back\<close>

text \<open>
  Whatever the state of the database: the current round never goes back, a recorded proposal is never replaced,
  and pins and parameters are not touched. \<open>keep\<close> is the same for the steps that leave the
  current round alone.
\<close>

definition keep :: "cons_db \<Rightarrow> cons_db \<Rightarrow> bool" where
  "keep d d' \<longleftrightarrow>
     (\<forall>r b. tbl_get (cons_blocks_proposals d) r = Some b \<longrightarrow> tbl_get (cons_blocks_proposals d') r = Some b) \<and>
     cons_blocks_pinned d' = cons_blocks_pinned d \<and>
     cons_params_schedule d' = cons_params_schedule d \<and> cons_params d' = cons_params d \<and>
     get_current_round d' = get_current_round d"

definition progress :: "cons_db \<Rightarrow> cons_db \<Rightarrow> bool" where
  "progress d d' \<longleftrightarrow>
     (\<forall>r b. tbl_get (cons_blocks_proposals d) r = Some b \<longrightarrow> tbl_get (cons_blocks_proposals d') r = Some b) \<and>
     cons_blocks_pinned d' = cons_blocks_pinned d \<and>
     cons_params_schedule d' = cons_params_schedule d \<and> cons_params d' = cons_params d \<and>
     get_current_round d \<le> get_current_round d'"

lemma keep_refl [simp]: "keep d d"
  by (simp add: keep_def)

lemma keep_trans: "keep d e \<Longrightarrow> keep e f \<Longrightarrow> keep d f"
  by (simp add: keep_def)

lemma progress_refl [simp]: "progress d d"
  by (simp add: progress_def)

lemma keep_progress: "keep d e \<Longrightarrow> progress e f \<Longrightarrow> progress d f"
  by (simp add: keep_def progress_def)

lemma progress_trans: "progress d e \<Longrightarrow> progress e f \<Longrightarrow> progress d f"
  by (auto simp: progress_def)

lemma keep_writes [simp]:
  "keep d (snd (insert_block_vote r i v d))" "keep d (snd (insert_dummy_vote r i s d))"
  "keep d (delete_notarized_block r d)"
  by (simp_all add: keep_def insert_block_vote_def insert_dummy_vote_def delete_notarized_block_def)

lemma keep_insert_notarized:
  "insert_notarized_block r b pl d = Ok (a, d') \<Longrightarrow> keep d d'"
  by (auto simp: insert_notarized_block_def res_simps Let_def keep_def split: option.splits)

lemma keep_insert_proposal:
  "insert_block_proposal r b pl d = Ok (a, d') \<Longrightarrow> keep d d'"
  by (auto simp: insert_block_proposal_def res_simps keep_def split: option.splits)

lemma finality_step_keep: "finality_step d d' \<Longrightarrow> keep d d'"
  by (simp add: finality_step_def keep_def get_current_round_def)

lemma keep_round_body:
  "round_body cr start highest cur l d = Ok (Continue l' d') \<Longrightarrow> keep d d'"
  by (auto simp: round_body_def res_simps Let_def dest: keep_insert_notarized
      split: if_splits option.splits bool.splits)

lemma round_loop_mono:
  "round_loop cr start highest cur l d = Ok e \<Longrightarrow> cur \<le> re_round e \<and> keep d (re_db e)"
proof (induction cr start highest cur l d rule: round_loop.induct)
  case (1 cr start highest cur l d)
  show ?case
  proof (cases "round_body cr start highest cur l d")
    case (Ok it)
    show ?thesis
    proof (cases it)
      case (Continue l' d')
      with Ok "1.prems" obtain nx where nx: "arr_next_expect cur = (Ok nx :: (round_invariant_error, _) res)"
        and t: "round_loop cr start highest nx l' d' = Ok e"
        by (auto simp: round_loop.simps [of _ _ _ cur] split: res.splits)
      have "cur < nx" using nx by (auto simp: res_simps less_plus_one)
      then show ?thesis
        using "1.IH" [OF Ok Continue nx t] keep_round_body [of cr start highest cur l d l' d'] Ok Continue
        by (auto intro: keep_trans)
    next
      case (Break t)
      then show ?thesis using Ok "1.prems" by (auto simp: round_loop.simps [of _ _ _ cur])
    qed
  qed (use "1.prems" in \<open>simp_all add: round_loop.simps [of _ _ _ cur]\<close>)
qed

lemma record_self_vote_step:
  assumes "record_self_vote our cur l tx = (Ok tx' :: ('e, cons_tx) res)"
  shows "finality_step (dbtx tx) (dbtx tx')"
proof (cases l)
  case None
  then show ?thesis using assms by (simp add: record_self_vote_def finality_step_refl)
next
  case (Some v)
  show ?thesis
  proof (cases our)
    case None
    then show ?thesis using assms Some by (auto simp: record_self_vote_def res_simps finality_step_refl)
  next
    case (Some k)
    then obtain w where "update_peer_finality_vote_round cur k w (on_commit (SendFinalitySelfVote w) tx) =
        (Ok tx' :: ('e, cons_tx) res)"
      using assms \<open>l = Some v\<close> by (auto simp: record_self_vote_def res_simps Let_def)
    from update_finality_step [OF this] show ?thesis by simp
  qed
qed

lemma record_self_vote_keep:
  "record_self_vote our cur l tx = (Ok tx' :: ('e, cons_tx) res) \<Longrightarrow> keep (dbtx tx) (dbtx tx')"
  by (rule finality_step_keep [OF record_self_vote_step])

lemma check_round_end_progress:
  assumes "check_round_end cr our start tx = Ok tx'" "start = get_current_round (dbtx tx)"
  shows "progress (dbtx tx) (dbtx tx')"
proof -
  let ?h = "get_prev_notarized_block (dbtx tx) (- 1)"
  obtain e tx2 where e: "round_loop cr start ?h start None (dbtx tx) = Ok e"
    and t: "record_self_vote our (re_round e) (re_last_notarized e)
      (upd (\<lambda>_. if start \<noteq> re_round e then set_current_round (re_round e) (re_db e) else re_db e) tx) =
        (Ok tx2 :: (round_invariant_error, _) res)"
    and tx': "dbtx tx' = dbtx tx2"
    using assms(1) by (auto simp: check_round_end_def Let_def res_simps)
  show ?thesis
    using record_self_vote_keep [OF t] round_loop_mono [OF e] assms(2) tx'
    by (auto simp: keep_def progress_def set_current_round_def split: if_splits)
qed

lemma process_vote_progress:
  assumes "process_vote cr our cur params clen i vote tx = Ok tx'" "cur = get_current_round (dbtx tx)"
  shows "progress (dbtx tx) (dbtx tx')"
  using assms(1)
proof (rule process_vote_elim)
  fix d'
  let ?tx = "notify_new_votes (upd (\<lambda>_. d') tx)"
  assume "is_dummy (inner vote) \<and> consensus_params_hash (inner vote) = params_hash cr params \<and>
        d' = snd (insert_dummy_vote cur i (sig vote) (dbtx tx)) \<or>
      \<not> is_dummy (inner vote) \<and> (tbl_get (cons_blocks_proposals (dbtx tx)) cur = None \<or>
          tbl_get (cons_blocks_proposals (dbtx tx)) cur = Some (inner vote)) \<and>
        d' = snd (insert_block_vote cur i vote (dbtx tx))"
  then have k: "keep (dbtx tx) (dbtx ?tx)" by (elim disjE conjE) (simp_all add: notify_new_votes_def)
  assume "tx' = ?tx \<or> check_round_end cr our cur ?tx = Ok tx'"
  then show ?thesis
  proof
    assume "tx' = ?tx"
    then show ?thesis using keep_progress [OF k] by simp
  next
    assume c: "check_round_end cr our cur ?tx = Ok tx'"
    have "cur = get_current_round (dbtx ?tx)" using k assms(2) by (simp add: keep_def)
    from keep_progress [OF k check_round_end_progress [OF c this]] show ?thesis .
  qed
qed

lemma process_proposal_keep:
  assumes "process_proposal cr cur params clen i block pl tx = Ok (Inr tx')"
  shows "keep (dbtx tx) (dbtx tx')"
  using assms
proof (rule process_proposal_Inr)
  fix ins
  assume "insert_block_proposal cur (inner block) pl (dbtx tx) = (Ok ins :: (process_vote_error, _) res)"
    "tx' = on_commit NotifyNewProposal (upd (\<lambda>_. snd ins) tx)"
  then show ?thesis using keep_insert_proposal [of cur "inner block" pl "dbtx tx" "fst ins" "snd ins"] by simp
qed

lemma process_vote_response_tx_progress:
  assumes "process_vote_response_tx cr our i resp tx = Ok tx'"
  shows "progress (dbtx tx) (dbtx tx')"
proof (cases resp)
  case (Vote block)
  then show ?thesis
    using assms process_vote_progress by (auto simp: process_vote_response_tx_def res_simps Let_def)
next
  case (Proposal block pl)
  then obtain params clen out where
    out: "process_proposal cr (get_current_round (dbtx tx)) params clen i block pl tx = Ok out"
    and o: "(case out of Inl tx1 \<Rightarrow> Ok tx1
      | Inr tx1 \<Rightarrow> process_vote cr our (get_current_round (dbtx tx)) params clen i block tx1) = Ok tx'"
    using assms by (auto simp: process_vote_response_tx_def res_simps Let_def)
  show ?thesis
  proof (cases out)
    case (Inl tx1)
    then show ?thesis using process_proposal_Inl out o by fastforce
  next
    case (Inr tx1)
    then have k: "keep (dbtx tx) (dbtx tx1)" using process_proposal_keep out by simp
    have pv: "process_vote cr our (get_current_round (dbtx tx)) params clen i block tx1 = Ok tx'"
      using o Inr by simp
    have "get_current_round (dbtx tx) = get_current_round (dbtx tx1)" using k by (simp add: keep_def)
    from keep_progress [OF k process_vote_progress [OF pv this]] show ?thesis .
  qed
qed

lemma insert_notarized_block_tx_keep:
  assumes "insert_notarized_block_tx block pl tx = Ok tx'"
  shows "keep (dbtx tx) (dbtx tx')"
proof -
  obtain a d1 vb where "insert_notarized_block (bh_round (n_inner block)) (n_inner block) (Some pl) (dbtx tx) =
      (Ok (a, d1) :: (process_notarized_block_error, _) res)"
    and "dbtx tx' = d1\<lparr>cons_votes_block := vb\<rparr>"
    using assms by (auto simp: insert_notarized_block_tx_def res_simps Let_def fold_insert_block_vote
        notify_new_votes_def)
  then show ?thesis using keep_insert_notarized by (simp add: keep_def)
qed

lemma fold_insert_dummy_vote:
  "fold (\<lambda>(i, s) d. snd (insert_dummy_vote r i s d)) es d =
     d\<lparr>cons_votes_dummy := fold (\<lambda>(i, s). tbl_insert (r, i) s) es (cons_votes_dummy d)\<rparr>"
  by (induction es arbitrary: d) (auto simp: insert_dummy_vote_def)

lemma process_notarized_real_elim:
  assumes "process_notarized_real cr our cur block pl tx = Ok tx'"
  obtains "tx' = tx"
    | tx0 tx1 where "keep (dbtx tx) (dbtx tx0)" "insert_notarized_block_tx block pl tx0 = Ok tx1"
      "check_round_end cr our cur tx1 = Ok tx'"
proof -
  assume a: "tx' = tx \<Longrightarrow> thesis" "\<And>tx0 tx1. keep (dbtx tx) (dbtx tx0) \<Longrightarrow>
    insert_notarized_block_tx block pl tx0 = Ok tx1 \<Longrightarrow> check_round_end cr our cur tx1 = Ok tx' \<Longrightarrow> thesis"
  have del: "keep (dbtx tx) (dbtx (upd (delete_notarized_block r) tx))" for r by simp
  show thesis
    using assms a(1) a(2) [OF keep_refl] a(2) [OF del]
    by (auto simp: process_notarized_real_def Let_def res_simps rewind_and_insert_def
        split: option.splits if_splits)
qed

lemma process_notarized_real_progress:
  assumes "process_notarized_real cr our cur block pl tx = Ok tx'" "cur = get_current_round (dbtx tx)"
  shows "progress (dbtx tx) (dbtx tx')"
  using assms(1)
proof (rule process_notarized_real_elim)
  fix tx0 tx1
  assume t: "keep (dbtx tx) (dbtx tx0)" "insert_notarized_block_tx block pl tx0 = Ok tx1"
    "check_round_end cr our cur tx1 = Ok tx'"
  have k: "keep (dbtx tx) (dbtx tx1)"
    using keep_trans [OF t(1) insert_notarized_block_tx_keep [OF t(2)]] .
  then have "cur = get_current_round (dbtx tx1)" using assms(2) by (simp add: keep_def)
  from keep_progress [OF k check_round_end_progress [OF t(3) this]] show ?thesis .
qed simp

lemma process_notarized_block_response_tx_progress:
  assumes "process_notarized_block_response_tx cr our resp tx = Ok tx'"
  shows "progress (dbtx tx) (dbtx tx')"
proof (cases "is_dummy (n_inner (wn_block resp))")
  case True
  let ?d = "fold (\<lambda>(i, s) d. snd (insert_dummy_vote (get_current_round (dbtx tx)) i s d))
    (entries (sigs (wn_block resp))) (dbtx tx)"
  let ?tx = "notify_new_votes (upd (\<lambda>_. ?d) tx)"
  have c: "check_round_end cr our (get_current_round (dbtx tx)) ?tx = Ok tx'"
    using assms True by (auto simp: process_notarized_block_response_tx_def process_notarized_dummy_def
        res_simps Let_def)
  have k: "keep (dbtx tx) (dbtx ?tx)" by (simp add: notify_new_votes_def fold_insert_dummy_vote keep_def)
  then have "get_current_round (dbtx tx) = get_current_round (dbtx ?tx)" by (simp add: keep_def)
  from keep_progress [OF k check_round_end_progress [OF c this]] show ?thesis .
next
  case False
  then show ?thesis
    using assms process_notarized_real_progress
    by (auto simp: process_notarized_block_response_tx_def res_simps Let_def)
qed

lemma process_finality_step:
  assumes "process_finality_vote_update_response_tx cr k update tx = Ok tx'"
  shows "finality_step (dbtx tx) (dbtx tx') \<and>
    (\<exists>hs. on_commit_hooks tx' = on_commit_hooks tx @ hs \<and> (\<forall>h \<in> set hs. quiet_hook h))"
  using assms update_finality_step update_finality_hooks
  by (auto simp: process_finality_vote_update_response_tx_def res_simps Let_def)

end
