(* ===== verification/Cons_Node.thy ===== *)
theory Cons_Node
  imports Cons_Correct
begin

section \<open>A consensus node over a history of messages\<close>

text \<open>
  The three kinds of messages a node receives from its peers, as inputs of the database layer's
  contract, and its interpretation; then the start of a node (\<open>init.rs\<close>) and the scheduling of new
  parameters (\<open>consensus_params_change_tx\<close>).
\<close>

datatype cons_input =
  InVote peer_idx wait_vote_response
| InNotarized wait_notarized_block_response
| InFinality peer_pubkey "block_round signed"

datatype cons_error =
  VoteError process_vote_error
| NotarizedError process_notarized_block_error
| FinalityError process_finality_error

definition cons_body ::
  "crypto \<Rightarrow> peer_pubkey option \<Rightarrow> cons_input \<Rightarrow> cons_tx \<Rightarrow> (cons_error, unit \<times> cons_tx) res" where
  "cons_body cr our inp tx = (case inp of
      InVote i resp \<Rightarrow> map_err VoteError (unit_tx (process_vote_response_tx cr our i resp) tx)
    | InNotarized resp \<Rightarrow> map_err NotarizedError (unit_tx (process_notarized_block_response_tx cr our resp) tx)
    | InFinality k update \<Rightarrow>
        map_err FinalityError (unit_tx (process_finality_vote_update_response_tx cr k update) tx))"

text \<open>No quorum notarizes a block in the last of the rounds that a \<open>u64\<close> can count.\<close>

definition cons_admissible :: "cons_input \<Rightarrow> bool" where
  "cons_admissible inp = (case inp of
      InNotarized resp \<Rightarrow> bh_round (n_inner (wn_block resp)) \<noteq> - 1 | _ \<Rightarrow> True)"

text \<open>Either all rounds are used up, or the invariant holds and the channel has the current round.\<close>

definition node_inv :: "crypto \<Rightarrow> cons_state \<Rightarrow> bool" where
  "node_inv cr s \<longleftrightarrow> get_current_round (fst s) = - 1 \<or>
     cons_inv cr (fst s) \<and> fst (current_round_with_timeout (snd s)) = get_current_round (fst s)"

lemma unit_tx_Ok_iff [res_simps]: "unit_tx f tx = Ok r \<longleftrightarrow> f tx = Ok (snd r)"
  by (cases r) (auto simp: unit_tx_def res_simps)

lemma finality_step_round: "finality_step d d' \<Longrightarrow> get_current_round d' = get_current_round d"
  using finality_step_keep [of d d'] by (simp add: keep_def)

lemma cons_body_progress:
  assumes "cons_body cr our inp tx = Ok (u, tx')"
  shows "progress (dbtx tx) (dbtx tx')"
proof (cases inp)
  case (InVote i resp)
  then show ?thesis
    using assms by (auto simp: cons_body_def res_simps intro: process_vote_response_tx_progress)
next
  case (InNotarized resp)
  then show ?thesis
    using assms by (auto simp: cons_body_def res_simps intro: process_notarized_block_response_tx_progress)
next
  case (InFinality k update)
  then have "process_finality_vote_update_response_tx cr k update tx = Ok tx'"
    using assms by (simp add: cons_body_def res_simps)
  then have "finality_step (dbtx tx) (dbtx tx')" using process_finality_step by blast
  then show ?thesis using finality_step_keep keep_progress by fastforce
qed

lemma cons_body_inv:
  assumes "cons_body cr our inp (wtx_new d) = Ok (u, tx')" "cons_inv cr d"
    and "get_current_round d \<noteq> - 1" "cons_admissible inp"
  shows "cons_inv cr (dbtx tx') \<and> round_synced (get_current_round d) tx'"
proof (cases inp)
  case (InVote i resp)
  then show ?thesis using assms process_vote_response_tx_inv by (auto simp: cons_body_def res_simps)
next
  case (InNotarized resp)
  then show ?thesis
    using assms process_notarized_block_response_tx_inv
    by (auto simp: cons_body_def res_simps cons_admissible_def)
next
  case (InFinality k update)
  then have f: "process_finality_vote_update_response_tx cr k update (wtx_new d) = Ok tx'"
    using assms(1) by (simp add: cons_body_def res_simps)
  from process_finality_step [OF f] obtain hs where s: "finality_step d (dbtx tx')"
    "on_commit_hooks tx' = hs" "\<forall>h \<in> set hs. quiet_hook h" by auto
  then have "round_synced (get_current_round d) tx'"
    by (intro round_synced_quiet [OF round_synced_new [of d]]) (auto simp: finality_step_round)
  then show ?thesis using s(1) assms(2) finality_step_cons_inv by blast
qed

lemma cons_body_node_inv:
  assumes "node_inv cr (d, c)" "cons_admissible inp" "cons_body cr our inp (wtx_new d) = Ok (u, tx)"
  shows "node_inv cr (commit run_hook tx c)"
proof (cases "get_current_round d = - 1")
  case True
  then have "get_current_round (dbtx tx) = - 1"
    using cons_body_progress [OF assms(3)] by (simp add: progress_def word_order.extremum_unique)
  then show ?thesis by (simp add: node_inv_def commit_def)
next
  case False
  then have "cons_inv cr d" "fst (current_round_with_timeout c) = get_current_round d"
    using assms(1) by (auto simp: node_inv_def)
  with cons_body_inv [OF assms(3) _ False assms(2)] show ?thesis
    by (auto simp: node_inv_def commit_def round_synced_def)
qed

interpretation cn: tx_component run_hook "cons_body cr our" cons_admissible "node_inv cr"
  for cr our
  by unfold_locales (rule cons_body_node_inv)

text \<open>A node handling a list of messages, each in its own transaction.\<close>

definition cons_run :: "crypto \<Rightarrow> peer_pubkey option \<Rightarrow> cons_input list \<Rightarrow> cons_state \<Rightarrow> cons_state" where
  "cons_run cr our inps s =
     fold (\<lambda>i s. snd (write_with_expect_falliable run_hook (cons_body cr our i) s)) inps s"

lemma cons_run_progress: "progress (fst s) (fst (cons_run cr our inps s))"
proof -
  have step: "progress (fst s) (fst (snd (write_with_expect_falliable run_hook (cons_body cr our i) s)))" for i s
  proof (rule write_with_cases [of "cons_body cr our i" s run_hook])
    fix a tx
    assume "cons_body cr our i (wtx_new (fst s)) = Ok (a, tx)"
      "write_with_expect_falliable run_hook (cons_body cr our i) s = (Ok a, commit run_hook tx (snd s))"
    then show ?thesis using cons_body_progress [of cr our i "wtx_new (fst s)" a tx] by (simp add: commit_def)
  qed simp_all
  show ?thesis unfolding cons_run_def
  proof (induction inps arbitrary: s)
    case (Cons i inps)
    from progress_trans [OF step [of s i] Cons [of "snd (write_with_expect_falliable run_hook (cons_body cr our i) s)"]]
    show ?case by simp
  qed simp
qed

subsection \<open>Starting\<close>

lemma cons_inv_init:
  assumes "init_tx cr params pinned cons_db_empty = Ok (cur, d)" "params_ok cr params"
  shows "cons_inv cr d \<and> cur = 0 \<and> get_current_round d = 0"
proof -
  obtain pn where d: "d = cons_db_empty\<lparr>cons_params_schedule := tbl_insert 0 (params_hash cr params) tbl_empty,
      cons_params := tbl_insert (params_hash cr params) params tbl_empty, cons_blocks_pinned := pn\<rparr>"
    and c: "cur = get_current_round d"
  proof -
    show thesis
      using assms(1) that
      by (cases pinned) (auto simp: init_tx_def insert_consensus_params_def Let_def res_simps
          cons_db_empty_def)
  qed
  have g: "get_current_round d = 0" by (simp add: d get_current_round_def cons_db_empty_def)
  have "sched_inv cr d" using assms(2) by (simp add: sched_inv_def d)
  then have "cons_inv cr d"
    by (simp add: cons_inv_def mid_inv_def props_inv_def notar_inv_def votes_inv_def dummies_inv_def
        payloads_inv_def match_inv_def live_inv_def d cons_db_empty_def)
  then show ?thesis using g c by simp
qed

text \<open>Opening a database that satisfies the invariant cannot fail but for a pin.\<close>

lemma open_internal_tx_inv:
  assumes inv: "cons_inv cr d" and cur: "cur = get_current_round d" "cur \<noteq> - 1"
  shows "open_internal_tx cr our cur v (wtx_new d) = Err PinnedMismatch \<or>
    (\<exists>tx'. open_internal_tx cr our cur v (wtx_new d) = Ok tx' \<and> cons_inv cr (dbtx tx') \<and>
      round_synced cur tx')"
proof -
  have "\<exists>tx hs. (case our of None \<Rightarrow> Ok (wtx_new d) | Some k \<Rightarrow> update_peer_finality_vote_round cur k v (wtx_new d))
      = (Ok tx :: (round_invariant_error, _) res) \<and> finality_step d (dbtx tx) \<and>
      on_commit_hooks tx = hs \<and> (\<forall>h \<in> set hs. quiet_hook h)"
  proof (cases our)
    case None
    then show ?thesis by (simp add: finality_step_refl)
  next
    case (Some k)
    have "sched_inv cr (dbtx (wtx_new d :: cons_tx))" using inv by (simp add: cons_inv_def mid_inv_def)
    from update_finality_ok [OF this, where 'e = round_invariant_error] obtain tx where
      t: "update_peer_finality_vote_round cur k v (wtx_new d) = (Ok tx :: (round_invariant_error, _) res)"
      by blast
    then show ?thesis using Some update_finality_step [OF t] update_finality_hooks [OF t] by auto
  qed
  then obtain tx hs where t: "(case our of None \<Rightarrow> Ok (wtx_new d)
      | Some k \<Rightarrow> update_peer_finality_vote_round cur k v (wtx_new d)) = (Ok tx :: (round_invariant_error, _) res)"
    and f: "finality_step d (dbtx tx)" "on_commit_hooks tx = hs" "\<forall>h \<in> set hs. quiet_hook h" by blast
  have "cons_inv cr (dbtx tx)" using finality_step_cons_inv [OF f(1) inv] .
  moreover have g: "get_current_round (dbtx tx) = cur" using finality_step_round [OF f(1)] cur by simp
  moreover have "round_synced cur tx"
    using round_synced_quiet [OF round_synced_new [of d], of tx hs] f cur g by simp
  ultimately show ?thesis
    using check_round_end_cases [of cr tx cur our] cur(2) t
    by (auto simp: open_internal_tx_def dest: cons_inv_imp_mid)
qed

lemma prev_notarized_less:
  assumes "cons_inv cr d" "get_prev_notarized_block d r = Some h"
  shows "bh_round h < r"
  using assms prev_notarized_Some_iff [of d r h]
  by (auto simp: cons_inv_def mid_inv_def notar_inv_def)

lemma open_internal_inv:
  assumes inv: "cons_inv cr d" and cur: "cur = get_current_round d" "cur \<noteq> - 1"
    and res: "open_internal cr our cur d = Ok s"
  shows "node_inv cr s \<and> cons_inv cr (fst s)"
proof -
  obtain c where c: "open_channels cur d = (Ok c :: ('a, _) res)"
    and w: "(case write_with_expect_falliable run_hook
        (unit_tx (open_internal_tx cr our cur (finality_self_vote c))) (d, c) of
       (Ok u, s) \<Rightarrow> Ok s
     | (Err e, _) \<Rightarrow> Panic ''Database should be in consistent state when opening''
     | (Panic m, _) \<Rightarrow> Panic m) = (Ok s :: ('a, _) res)"
    using res by (auto simp: open_internal_def res_simps)
  have ch: "fst (current_round_with_timeout c) = cur"
    using c by (auto simp: open_channels_def res_simps)
  obtain tx where t: "open_internal_tx cr our cur (finality_self_vote c) (wtx_new d) = Ok tx"
    and s: "s = commit run_hook tx c"
    using w by (auto simp: write_with_expect_falliable_def unit_tx_Ok_iff split: res.splits prod.splits)
  have "cons_inv cr (dbtx tx)" "round_synced cur tx"
    using open_internal_tx_inv [OF inv cur, of our "finality_self_vote c"] t by auto
  then show ?thesis using ch by (auto simp: s node_inv_def commit_def round_synced_def)
qed

lemma open_internal_progress:
  assumes "open_internal cr our cur d = (Ok s :: ('e, cons_state) res)" "cur = get_current_round d"
  shows "progress d (fst s)"
proof -
  obtain c where
    w: "(case write_with_expect_falliable run_hook
        (unit_tx (open_internal_tx cr our cur (finality_self_vote c))) (d, c) of
       (Ok u, s) \<Rightarrow> Ok s
     | (Err e, _) \<Rightarrow> Panic ''Database should be in consistent state when opening''
     | (Panic m, _) \<Rightarrow> Panic m) = (Ok s :: ('e, _) res)"
    using assms(1) by (auto simp: open_internal_def res_simps)
  then obtain tx where t: "open_internal_tx cr our cur (finality_self_vote c) (wtx_new d) = Ok tx"
    and s: "s = commit run_hook tx c"
    by (auto simp: write_with_expect_falliable_def unit_tx_Ok_iff split: res.splits prod.splits)
  obtain tx1 where f: "finality_step d (dbtx tx1)" and e: "check_round_end cr our cur tx1 = Ok tx"
  proof (cases our)
    case None
    then show thesis using t that [of "wtx_new d"] by (simp add: open_internal_tx_def finality_step_refl)
  next
    case (Some k)
    then show thesis
      using t that update_finality_step [where tx = "wtx_new d"] by (fastforce simp: open_internal_tx_def res_simps)
  qed
  have "cur = get_current_round (dbtx tx1)" using finality_step_round [OF f] assms(2) by simp
  from keep_progress [OF finality_step_keep [OF f] check_round_end_progress [OF e this]] show ?thesis
    by (simp add: s commit_def)
qed

text \<open>Without pins a database that satisfies the invariant opens.\<close>

lemma open_channels_ok:
  assumes "cons_inv cr d"
  shows "\<exists>c. open_channels cur d = (Ok c :: ('e, _) res)"
proof (cases "get_prev_notarized_block d cur")
  case None
  then show ?thesis by (simp add: open_channels_def)
next
  case (Some h)
  then have "bh_round h \<noteq> - 1" using prev_notarized_less [OF assms] less_imp_not_max by blast
  then have "arr_next_expect (bh_round h) = (Ok (bh_round h + 1) :: ('e, _) res)" by (simp add: res_simps)
  then show ?thesis using Some by (simp add: open_channels_def)
qed

subsection \<open>Errors come from pins only\<close>

lemma reads_not_Err [simp]:
  "to_num_peers xs \<noteq> Err e" "num_peers p \<noteq> Err e" "get_consensus_params d r \<noteq> Err e'"
  "get_proposal d r \<noteq> Err e''" "leader_idx cr r n \<noteq> Err e3" "arr_next_expect x \<noteq> Err e4"
  by (auto simp: num_peers_def to_num_peers_def get_consensus_params_def get_consensus_params_opt_def
      get_proposal_def leader_idx_def arr_next_expect_def res_bind_Err_iff split: option.splits)

lemma params_leader_not_Err [simp]: "params_leader_idx cr p r \<noteq> Err e"
  by (simp add: params_leader_idx_def res_bind_Err_iff)

lemma insert_notarized_not_Err [simp]: "insert_notarized_block r b pl d \<noteq> Err e"
  by (auto simp: insert_notarized_block_def res_bind_Err_iff Let_def split: option.splits)

lemma check_pin_Err: "check_pin cr cur d = Err e \<Longrightarrow> \<exists>r h. tbl_get (cons_blocks_pinned d) r = Some h"
  by (auto simp: check_pin_def res_bind_Err_iff get_pinned_block_def split: option.splits)

lemma round_body_pins:
  assumes "round_body cr start highest cur l d = res"
  shows "res = Err e \<Longrightarrow> \<exists>r h. tbl_get (cons_blocks_pinned d) r = Some h"
    and "res = Ok (Continue l' d') \<Longrightarrow> cons_blocks_pinned d' = cons_blocks_pinned d"
proof -
  show "\<exists>r h. tbl_get (cons_blocks_pinned d) r = Some h" if "res = Err e"
    using assms that
    by (auto simp: round_body_def res_bind_Err_iff Let_def dest: check_pin_Err
        split: if_splits option.splits bool.splits)
  have ins: "insert_notarized_block r b None d = (Ok (out, d') :: (round_invariant_error, _) res) \<Longrightarrow>
      cons_blocks_pinned d' = cons_blocks_pinned d" for r b out d'
    by (auto simp: insert_notarized_block_def res_simps Let_def split: option.splits)
  show "cons_blocks_pinned d' = cons_blocks_pinned d" if "res = Ok (Continue l' d')"
    using assms that
    by (auto simp: round_body_def res_simps Let_def dest: ins split: if_splits option.splits bool.splits)
qed

lemma round_loop_Err:
  "round_loop cr start highest cur l d = Err e \<Longrightarrow> \<exists>r h. tbl_get (cons_blocks_pinned d) r = Some h"
proof (induction cr start highest cur l d rule: round_loop.induct)
  case (1 cr start highest cur l d)
  show ?case
  proof (cases "round_body cr start highest cur l d")
    case (Ok it)
    show ?thesis
    proof (cases it)
      case (Continue l' d')
      with Ok "1.prems" obtain nx where nx: "arr_next_expect cur = (Ok nx :: (round_invariant_error, _) res)"
        and t: "round_loop cr start highest nx l' d' = Err e"
        by (auto simp: round_loop.simps [of _ _ _ cur] split: res.splits)
      show ?thesis using "1.IH" [OF Ok Continue nx t] round_body_pins(2) [OF Ok] Continue by simp
    next
      case (Break t)
      then show ?thesis using Ok "1.prems" by (simp add: round_loop.simps [of _ _ _ cur])
    qed
  next
    case (Err e')
    then show ?thesis using round_body_pins(1) by blast
  qed (use "1.prems" in \<open>simp add: round_loop.simps [of _ _ _ cur]\<close>)
qed

lemma update_finality_not_Err [simp]: "update_peer_finality_vote_round cur k v tx \<noteq> Err e"
  by (auto simp: update_peer_finality_vote_round_def recalculate_finality_consensus_tx_def Let_def
      res_bind_Err_iff)

lemma check_round_end_Err:
  "check_round_end cr our start tx = Err e \<Longrightarrow> \<exists>r h. tbl_get (cons_blocks_pinned (dbtx tx)) r = Some h"
  by (auto simp: check_round_end_def record_self_vote_def Let_def res_bind_Err_iff
      split: option.splits dest: round_loop_Err)

lemma open_internal_ok:
  assumes inv: "cons_inv cr d" and cur: "cur = get_current_round d" "cur \<noteq> - 1"
    and pins: "\<And>r. tbl_get (cons_blocks_pinned d) r = None"
  shows "\<exists>s. open_internal cr our cur d = (Ok s :: ('e, cons_state) res)"
proof -
  obtain c where c: "open_channels cur d = (Ok c :: ('e, _) res)" using open_channels_ok [OF inv] by blast
  let ?v = "finality_self_vote c"
  have "open_internal_tx cr our cur ?v (wtx_new d) \<noteq> Err e" for e
  proof
    assume "open_internal_tx cr our cur ?v (wtx_new d) = Err e"
    then obtain tx where t: "check_round_end cr our cur tx = Err e" and f: "finality_step d (dbtx tx)"
      by (cases our) (auto simp: open_internal_tx_def res_bind_Err_iff finality_step_refl
          dest: update_finality_step)
    from check_round_end_Err [OF t] show False using pins f by (auto simp: finality_step_def)
  qed
  then obtain tx where "open_internal_tx cr our cur ?v (wtx_new d) = Ok tx"
    using open_internal_tx_inv [OF inv cur, of our ?v] by blast
  then show ?thesis using c by (simp add: open_internal_def write_with_expect_falliable_def unit_tx_def)
qed

subsection \<open>Scheduling parameters\<close>

lemma params_at_insert:
  assumes "r < a"
  shows "params_at (d\<lparr>cons_params_schedule := tbl_insert a h (cons_params_schedule d)\<rparr>) r = params_at d r"
proof -
  let ?t = "cons_params_schedule d"
  have eq: "last_entry (\<lambda>k. k \<le> r) (entries (tbl_insert a h ?t)) = Some (k, v) \<longleftrightarrow>
      last_entry (\<lambda>k. k \<le> r) (entries ?t) = Some (k, v)" for k v
    using assms by (auto simp: tb.last_Some)
  have "last_entry (\<lambda>k. k \<le> r) (entries (tbl_insert a h ?t)) = last_entry (\<lambda>k. k \<le> r) (entries ?t)"
    using eq by (metis option.exhaust surj_pair)
  then show ?thesis by (simp add: params_at_def cong: option.case_cong)
qed

lemma params_at_more_params:
  assumes "sched_inv cr d" "tbl_get (cons_params d) h = None \<or> tbl_get (cons_params d) h = Some p"
  shows "params_at (d\<lparr>cons_params := tbl_insert h p (cons_params d)\<rparr>) r = params_at d r"
proof (cases "last_entry (\<lambda>k. k \<le> r) (entries (cons_params_schedule d))")
  case None
  then show ?thesis by (simp add: params_at_def)
next
  case (Some e)
  obtain k h' where e: "e = (k, h')" by fastforce
  then have "tbl_get (cons_params_schedule d) k = Some h'" using Some by (simp add: tb.last_Some)
  then have "tbl_get (cons_params d) h' \<noteq> None" using assms(1) unfolding sched_inv_def by blast
  then show ?thesis using assms(2) Some e by (auto simp: params_at_def)
qed

text \<open>The invariant only looks at the parameters of rounds up to the current one.\<close>

lemma cons_inv_params:
  assumes inv: "cons_inv cr d" and sched: "sched_inv cr d'"
    and pa: "\<And>r. r \<le> get_current_round d \<Longrightarrow> params_at d' r = params_at d r"
    and same: "cons_current_round d' = cons_current_round d"
      "cons_blocks_proposals d' = cons_blocks_proposals d"
      "cons_blocks_notarized d' = cons_blocks_notarized d"
      "cons_blocks_payloads d' = cons_blocks_payloads d"
      "cons_votes_block d' = cons_votes_block d" "cons_votes_dummy d' = cons_votes_dummy d"
  shows "cons_inv cr d'"
proof -
  have cur: "get_current_round d' = get_current_round d" using same by (simp add: get_current_round_def)
  have mid: "mid_inv cr d" and below: "\<And>r b. tbl_get (cons_blocks_notarized d) r = Some b \<Longrightarrow> r < get_current_round d"
    using inv by (auto simp: cons_inv_def)
  have live: "r \<le> get_current_round d" if "live_round d r" for r
    using that below by (auto simp: live_round_def less_imp_le)
  have lv: "live_inv d'" using mid cur same by (simp add: mid_inv_def live_inv_def live_round_def)
  have ho: "header_ok cr d' b = header_ok cr d b" if "bh_round b \<le> get_current_round d" for b
    using pa [OF that] same by (simp add: header_ok_def)
  have "props_inv cr d'"
    unfolding props_inv_def
  proof (intro allI impI)
    fix r b assume "tbl_get (cons_blocks_proposals d') r = Some b"
    then have "bh_round b = r \<and> header_ok cr d b" "live_round d r"
      using mid same by (auto simp: mid_inv_def props_inv_def live_inv_def)
    then show "bh_round b = r \<and> header_ok cr d' b" using ho live by auto
  qed
  moreover have "notar_inv cr d'"
    unfolding notar_inv_def
  proof (intro allI impI)
    fix r b assume "tbl_get (cons_blocks_notarized d') r = Some b"
    then have b: "tbl_get (cons_blocks_notarized d) r = Some b" using same by simp
    then have n: "bh_round b = r" "header_ok cr d b" "quorum_at d r"
      "\<forall>i v. tbl_get (cons_votes_block d) (r, i) = Some v \<longrightarrow> inner v = b"
      using mid unfolding mid_inv_def notar_inv_def by blast+
    have le: "r \<le> get_current_round d" using below [OF b] by simp
    have "quorum_at d' r" using n(3) pa [OF le] same by (simp add: quorum_at_def num_votes_proposal)
    then show "bh_round b = r \<and> header_ok cr d' b \<and> quorum_at d' r \<and>
        (\<forall>i v. tbl_get (cons_votes_block d') (r, i) = Some v \<longrightarrow> inner v = b)"
      using n ho le same by simp
  qed
  moreover have "votes_inv cr d'"
    unfolding votes_inv_def
  proof (intro allI impI)
    fix r i v assume "tbl_get (cons_votes_block d') (r, i) = Some v"
    then have "vote_ok cr d r i v" "live_round d r"
      using mid same(5) unfolding mid_inv_def votes_inv_def live_inv_def by metis+
    then show "vote_ok cr d' r i v" using pa [OF live] vote_ok_cong by blast
  qed
  moreover have "dummies_inv cr d'"
    unfolding dummies_inv_def
  proof (intro allI impI)
    fix r i v assume "tbl_get (cons_votes_dummy d') (r, i) = Some v"
    then have "dummy_vote_ok cr d r i v" "live_round d r"
      using mid same(6) unfolding mid_inv_def dummies_inv_def live_inv_def by metis+
    then show "dummy_vote_ok cr d' r i v" using pa [OF live] dummy_vote_ok_cong by blast
  qed
  ultimately have "mid_inv cr d'"
    using mid sched lv same cur by (simp add: mid_inv_def payloads_inv_def match_inv_def)
  then show ?thesis using below cur same by (simp add: cons_inv_def)
qed

lemma consensus_params_change_elim:
  assumes "consensus_params_change_tx cr c r ts ps d = Ok d'"
  obtains params new_params where "params_at d r = Some params"
    and "make_change params r ts ps (map_option (\<lambda>b. (bh_round b, header_hash cr b))
      (get_prev_notarized_block d (half r))) = (Ok new_params :: ('e, _) res)"
    and "fst (current_round_with_timeout c) < apply_round new_params"
    and "d' = snd (insert_consensus_params cr (apply_round new_params) new_params d)"
  using assms by (auto simp: consensus_params_change_tx_def res_simps Let_def)

lemma insert_consensus_params_inv:
  assumes inv: "cons_inv cr d" and a: "get_current_round d < a" and p: "params_ok cr p"
    and fresh: "tbl_get (cons_params_schedule d) a = None"
    and coll: "tbl_get (cons_params d) (params_hash cr p) = None \<or>
      tbl_get (cons_params d) (params_hash cr p) = Some p"
  shows "cons_inv cr (snd (insert_consensus_params cr a p d))"
proof -
  let ?d1 = "d\<lparr>cons_params := tbl_insert (params_hash cr p) p (cons_params d)\<rparr>"
  let ?d = "?d1\<lparr>cons_params_schedule := tbl_insert a (params_hash cr p) (cons_params_schedule ?d1)\<rparr>"
  have d: "snd (insert_consensus_params cr a p d) = ?d"
    using fresh by (simp add: insert_consensus_params_def Let_def)
  have s: "sched_inv cr d" using inv by (simp add: cons_inv_def mid_inv_def)
  have "sched_inv cr ?d"
    using s p coll unfolding sched_inv_def by auto
  moreover have "params_at ?d r = params_at d r" if "r \<le> get_current_round d" for r
    using params_at_insert [where d = ?d1 and r = r and a = a] params_at_more_params [OF s coll] that a by simp
  ultimately show ?thesis unfolding d by (intro cons_inv_params [OF inv]) simp_all
qed

end
