(* ===== verification/Cons_Getters.thy ===== *)
theory Cons_Getters
  imports Cons_Node
begin

section \<open>What a node answers\<close>

text \<open>
  \<open>consensus/src/consensus/getters.rs\<close>: the read-only operations with logic of their own, among
  them the answers to the requests of \<open>consensus-core/src/msg.rs\<close>, and the length of a round's
  timeout. The remaining getters of the file are one call of an operation of \<open>ctx.rs\<close> each.
\<close>

record wait_notarized_block_request =
  min_notarized_round :: block_round
  req_cur_round :: block_round

definition get_notarized_block_resp ::
  "crypto \<Rightarrow> wait_notarized_block_request \<Rightarrow> cons_db \<Rightarrow> ('e, wait_notarized_block_response option) res" where
  "get_notarized_block_resp cr req d =
     (case first_entry (\<lambda>k. min_notarized_round req \<le> k) (entries (cons_blocks_notarized d)) of
        Some (_, block) \<Rightarrow>
          res_bind (expect ''Must have payload for every notarized block''
              (tbl_get (cons_blocks_payloads d) (payload_hash block))) (\<lambda>pl.
          Ok (Some \<lparr>wn_block = notarized_new block (get_votes_proposal d (bh_round block)),
                    wn_payload = pl\<rparr>))
      | None \<Rightarrow>
          res_bind (get_consensus_params d (req_cur_round req)) (\<lambda>params.
          let votes = get_votes_dummy d (req_cur_round req) in
          res_bind (num_peers params) (\<lambda>np.
          if threshold np \<le> length votes then
            res_bind (new_dummy cr (req_cur_round req) params) (\<lambda>block.
            Ok (Some \<lparr>wn_block = notarized_new block votes, wn_payload = payload_empty\<rparr>))
          else Ok None)))"

definition get_vote ::
  "crypto \<Rightarrow> block_round \<Rightarrow> consensus_params \<Rightarrow> peer_idx \<Rightarrow> cons_db \<Rightarrow> ('e, wait_vote_response option) res" where
  "get_vote cr r params i d =
     (case get_vote_dummy d r i of
        Some s \<Rightarrow> res_bind (new_dummy cr r params) (\<lambda>b. Ok (Some (Vote \<lparr>inner = b, sig = s\<rparr>)))
      | None \<Rightarrow>
          (case get_vote_block d r i of
             None \<Rightarrow> Ok None
           | Some block \<Rightarrow>
               res_bind (num_peers params) (\<lambda>np.
               res_bind (leader_idx cr r np) (\<lambda>leader.
               if i = leader then
                 (case get_block_payload d (payload_hash (inner block)) of
                    None \<Rightarrow> Ok None
                  | Some pl \<Rightarrow> Ok (Some (Proposal block pl)))
               else Ok (Some (Vote block))))))"

definition get_finalized_block ::
  "channels \<Rightarrow> block_round \<Rightarrow> cons_db \<Rightarrow> block_header notarized option" where
  "get_finalized_block c r d =
     (if finality_consensus c \<le> r then None
      else case arr_next r of
        None \<Rightarrow> None
      | Some nx \<Rightarrow>
          (case get_prev_notarized_block d nx of
             None \<Rightarrow> None
           | Some block \<Rightarrow> Some (notarized_new block (get_votes_proposal d (bh_round block)))))"

text \<open>Milliseconds; the arithmetic is that of \<open>u64\<close>.\<close>

definition get_current_round_timeout :: "channels \<Rightarrow> cons_db \<Rightarrow> ('e, 64 word) res" where
  "get_current_round_timeout c d =
     (let finality = finality_consensus c; cur = fst (current_round_with_timeout c) in
      res_bind (get_consensus_params d cur) (\<lambda>params.
      res_bind (num_peers params) (\<lambda>np.
      let lag = (case checked_sub cur (finality + of_nat (total np)) of Some l \<Rightarrow> l | None \<Rightarrow> 0);
          multiplier = push_bit (unat (min lag 32)) (1 :: 64 word) in
      Ok (200 * multiplier))))"

definition get_current_round_and_params :: "cons_db \<Rightarrow> ('e, block_round \<times> consensus_params) res" where
  "get_current_round_and_params d =
     (let r = get_current_round d in res_bind (get_consensus_params d r) (\<lambda>p. Ok (r, p)))"

definition get_init_params :: "cons_db \<Rightarrow> ('e, consensus_params) res" where
  "get_init_params d = get_consensus_params d 0"

definition signatories :: "consensus_params \<Rightarrow> (peer_idx \<times> signature) list \<Rightarrow> peer_pubkey list" where
  "signatories params votes =
     map (\<lambda>(i, _). peers params ! unat i) (filter (\<lambda>(i, _). unat i < length (peers params)) votes)"

definition history_entry ::
  "cons_db \<Rightarrow> block_round \<Rightarrow> ('e, block_round \<times> block_header option \<times> peer_pubkey list) res" where
  "history_entry d r =
     res_bind (get_consensus_params d r) (\<lambda>params.
     case get_notarized_block d r of
       Some h \<Rightarrow> Ok (r, Some h, signatories params (get_votes_proposal d r))
     | None \<Rightarrow> Ok (r, None, signatories params (get_votes_dummy d r)))"

definition get_consensus_history ::
  "64 word \<Rightarrow> cons_db \<Rightarrow> ('e, (block_round \<times> block_header option \<times> peer_pubkey list) list) res" where
  "get_consensus_history limit d =
     (let cur = get_current_round d;
          start = (if limit \<le> cur then cur - limit + 1 else 0) in
      res_bind (res_fold (\<lambda>r acc. res_bind (history_entry d r) (\<lambda>e. Ok (acc @ [e])))
        (map of_nat [unat start..<Suc (unat cur)]) []) (\<lambda>h. Ok (rev h)))"

subsection \<open>A notarized answer verifies\<close>

lemma fold_tbl_insert_get:
  "distinct (map fst es) \<Longrightarrow> tbl_get (fold (\<lambda>(i, s). tbl_insert i s) es t) j =
     (case map_of es j of Some s \<Rightarrow> Some s | None \<Rightarrow> tbl_get t j)"
  by (induction es arbitrary: t) (auto split: option.splits simp: map_of_eq_None_iff image_iff)

lemma sorted_round_idx:
  "sorted_wrt (<) (map fst es) \<Longrightarrow> \<forall>e \<in> set es. fst (fst e) = r \<Longrightarrow>
     distinct (map fst (map (\<lambda>((_ :: block_round, i :: peer_idx), v). (i, f v)) es))"
proof (induction es)
  case (Cons e es)
  obtain q i v where [simp]: "e = ((q, i), v)" by (metis surj_pair)
  have "i \<notin> set (map fst (map (\<lambda>((_, i), v). (i, f v)) es))"
    using Cons.prems by (force simp: less_prod_def)
  then show ?case using Cons by auto
qed simp

lemma round_votes_distinct:
  "distinct (map fst (map (\<lambda>((_, i), v). (i, f v))
     (range_entries (round_keys r) (entries (t :: (block_round \<times> peer_idx, 'v) table)))))"
  by (rule sorted_round_idx [OF tb.range_sorted]) (auto simp: range_entries_def round_keys_iff)

lemma notarized_new_proposal_get:
  "tbl_get (sigs (notarized_new b (get_votes_proposal d r))) i =
     map_option sig (tbl_get (cons_votes_block d) (r, i))"
proof -
  have "distinct (map fst (get_votes_proposal d r))"
    unfolding get_votes_proposal_def by (rule round_votes_distinct)
  then show ?thesis
    by (simp add: notarized_new_def fold_tbl_insert_get votes_proposal_map_of split: option.splits)
qed

lemma notarized_new_dummy_get:
  "tbl_get (sigs (notarized_new b (get_votes_dummy d r))) i = tbl_get (cons_votes_dummy d) (r, i)"
proof -
  have "distinct (map fst (get_votes_dummy d r))"
    unfolding get_votes_dummy_def using round_votes_distinct [of "\<lambda>s. s"] by simp
  then show ?thesis
    by (simp add: notarized_new_def fold_tbl_insert_get votes_dummy_map_of split: option.splits)
qed

text \<open>A served dummy is of the round that was asked for and carries a quorum of signatures of dummies of that round; it verifies when
  all of them are signatures of its own header.\<close>

lemma notarized_resp_dummy:
  assumes inv: "mid_inv cr d" and p: "params_at d r = Some p" and b: "new_dummy cr r p = (Ok b :: ('e, _) res)"
    and q: "threshold (of_nat (length (peers p))) \<le> length (get_votes_dummy d r)"
  shows "threshold (of_nat (length (peers p))) \<le> card {i. tbl_get (sigs (notarized_new b (get_votes_dummy d r))) i \<noteq> None}"
    "tbl_get (sigs (notarized_new b (get_votes_dummy d r))) i = Some s \<Longrightarrow> dummy_vote_ok cr d r i s"
    "(\<forall>i s. tbl_get (sigs (notarized_new b (get_votes_dummy d r))) i = Some s \<longrightarrow> sig_valid cr (peers p) (header_sign_hash cr b) i s) \<Longrightarrow>
       verify_sigs cr (header_sign_hash cr) (notarized_new b (get_votes_dummy d r)) p = Ok ()"
proof -
  let ?n = "notarized_new b (get_votes_dummy d r)"
  have "length (get_votes_dummy d r) = get_num_votes_dummy d r"
    by (simp add: get_votes_dummy_def get_num_votes_dummy_def)
  then show c: "threshold (of_nat (length (peers p))) \<le> card {i. tbl_get (sigs ?n) i \<noteq> None}"
    using q by (simp add: num_votes_dummy notarized_new_dummy_get)
  show "tbl_get (sigs ?n) i = Some s \<Longrightarrow> dummy_vote_ok cr d r i s"
    using inv by (simp add: mid_inv_def dummies_inv_def notarized_new_dummy_get)
  have "params_ok cr p" using params_at_ok [OF mid_inv_sched [OF inv] p] .
  then show "(\<forall>i s. tbl_get (sigs ?n) i = Some s \<longrightarrow> sig_valid cr (peers p) (header_sign_hash cr b) i s) \<Longrightarrow>
      verify_sigs cr (header_sign_hash cr) ?n p = Ok ()"
    using c by (simp add: res_simps params_ok_def entries_card) (simp add: notarized_new_def)
qed

lemma notarized_block_verifies:
  assumes inv: "mid_inv cr d" and b: "tbl_get (cons_blocks_notarized d) r = Some b"
  obtains p where "params_at d r = Some p"
    "verify_sigs cr (header_sign_hash cr) (notarized_new b (get_votes_proposal d r)) p = Ok ()"
proof -
  let ?n = "notarized_new b (get_votes_proposal d r)"
  obtain p where p: "params_at d r = Some p" "params_ok cr p"
    using params_at_Some [OF mid_inv_sched [OF inv]] by blast
  have q: "quorum_at d r" and match: "\<And>i v. tbl_get (cons_votes_block d) (r, i) = Some v \<Longrightarrow> inner v = b"
    using inv b unfolding mid_inv_def notar_inv_def by blast+
  have "length (entries (sigs ?n)) = get_num_votes_proposal d r"
    by (simp add: entries_card num_votes_proposal notarized_new_proposal_get)
  moreover have "sig_valid cr (peers p) (header_sign_hash cr b) i s"
    if s: "tbl_get (sigs ?n) i = Some s" for i s
  proof -
    obtain v where v: "tbl_get (cons_votes_block d) (r, i) = Some v" "s = sig v"
      using s by (auto simp: notarized_new_proposal_get)
    then have "vote_ok cr d r i v" using inv by (simp add: mid_inv_def votes_inv_def)
    then show ?thesis using v match p(1) by (auto simp: vote_ok_def)
  qed
  ultimately have "verify_sigs cr (header_sign_hash cr) ?n p = Ok ()"
    using p q by (simp add: res_simps params_ok_def quorum_at_def) (simp add: notarized_new_def)
  then show thesis using that p(1) by blast
qed

end
