(* ===== verification/Node_App.thy ===== *)
theory Node_App
  imports Meta_Module Cons_Getters
begin

section \<open>The application layer\<close>

text \<open>
  \<open>node-app/src\<close> and \<open>node/src/app_api.rs\<close>: the layer that takes finalized blocks from the consensus,
  runs their consensus items through the modules, and feeds the resulting changes of the peer set
  back into the consensus.

  One transaction of the application spans the tables of the consensus, of the application and of
  every module; \<open>app_db\<close> holds them all, the tables of a module under its identifier. The running
  module instances are data: the repository has two kinds. The state \<open>app_state\<close> is the database,
  the channels, the running modules, and the copies of peer set and module configurations that the main loop
  keeps in memory between items. What comes from outside (the crypto, the encoders, the
  installed constructors, the node's own key, the behaviour of \<open>redb\<close>) is the record \<open>app_env\<close>.
\<close>

record app_db =
  app_cons :: cons_db
  app_cur_round :: "(block_round \<times> 32 word) option"
  app_ctrl :: "module_id \<Rightarrow> ctrl_db"
  app_meta :: "module_id \<Rightarrow> meta_db"

datatype dyn_module_init = CtrlModuleInit | MetaModuleInit

datatype dyn_module = CtrlInst ctrl_module | MetaInst meta_module

record dyn_module_with_config =
  dm_config :: module_config
  dm_inner :: dyn_module

type_synonym modules = "(module_id, dyn_module_with_config) table"
type_synonym configs = "(module_id, module_config) table"

record app_env =
  env_crypto :: crypto
  env_ctrl_codec :: ctrl_codec
  env_meta_codec :: meta_codec
  env_dec_citems :: "byte list \<Rightarrow> citem list option"
  env_excl :: bool
  env_inits :: "(module_kind, dyn_module_init) table"
  env_self :: "peer_pubkey option"

datatype app_hook = ModuleHook module_id propose_hook

type_synonym app_tx = "(app_db, app_hook) wtx"
type_synonym app_props = "module_id \<Rightarrow> proposals"

fun run_app_hook :: "app_hook \<Rightarrow> app_props \<Rightarrow> app_props" where
  "run_app_hook (ModuleHook i h) c = c(i := run_propose_hook h (c i))"

definition CONSENSUS_CTRL_MODULE_ID :: module_id where
  "CONSENSUS_CTRL_MODULE_ID = 0"

datatype process_citem_error =
    UnknownModuleId module_id
  | ProcessingCItemFailed whatever module_id
  | ProcessingInputFailed whatever module_id
  | ProcessingOutputFailed whatever module_id
  | ProcessingEffectFailed whatever module_id

subsection \<open>Transactions of a module within the transaction of the application\<close>

text \<open>\<open>ModuleWriteTransactionCtx::new(module_id, dbtx)\<close>: the module sees its own tables only.\<close>

definition module_tx ::
  "('d \<Rightarrow> 'm) \<Rightarrow> ('m \<Rightarrow> 'd \<Rightarrow> 'd) \<Rightarrow> ('h \<Rightarrow> 'k) \<Rightarrow> (('m, 'h) wtx \<Rightarrow> ('e, 'a \<times> ('m, 'h) wtx) res) \<Rightarrow>
     ('d, 'k) wtx \<Rightarrow> ('e, 'a \<times> ('d, 'k) wtx) res" where
  "module_tx get put hook f tx =
     res_bind (f (wtx_new (get (dbtx tx)))) (\<lambda>(a, m).
       Ok (a, \<lparr>dbtx = put (dbtx m) (dbtx tx),
               on_commit_hooks = on_commit_hooks tx @ map hook (on_commit_hooks m)\<rparr>))"

definition ctrl_tx :: "module_id \<Rightarrow> ((ctrl_db, propose_hook) wtx \<Rightarrow> ('e, 'a \<times> (ctrl_db, propose_hook) wtx) res) \<Rightarrow>
     app_tx \<Rightarrow> ('e, 'a \<times> app_tx) res" where
  "ctrl_tx i = module_tx (\<lambda>d. app_ctrl d i) (\<lambda>m d. d\<lparr>app_ctrl := (app_ctrl d)(i := m)\<rparr>) (ModuleHook i)"

definition meta_tx :: "module_id \<Rightarrow> ((meta_db, propose_hook) wtx \<Rightarrow> ('e, 'a \<times> (meta_db, propose_hook) wtx) res) \<Rightarrow>
     app_tx \<Rightarrow> ('e, 'a \<times> app_tx) res" where
  "meta_tx i = module_tx (\<lambda>d. app_meta d i) (\<lambda>m d. d\<lparr>app_meta := (app_meta d)(i := m)\<rparr>) (ModuleHook i)"

text \<open>The calls on a module through the trait \<open>IModule\<close>.\<close>

definition module_process_citem ::
  "app_env \<Rightarrow> module_id \<Rightarrow> dyn_module \<Rightarrow> peer_pubkey \<Rightarrow> peer_set \<Rightarrow> byte list \<Rightarrow> app_tx \<Rightarrow>
     (whatever, citem_effect list \<times> app_tx) res" where
  "module_process_citem env i m voter ps raw = (case m of
      CtrlInst cm \<Rightarrow> ctrl_tx i (ctrl_process_citem cm (env_ctrl_codec env) voter ps raw)
    | MetaInst mm \<Rightarrow> meta_tx i (meta_process_citem (env_excl env) mm (env_meta_codec env) voter ps raw))"

definition module_process_input ::
  "module_id \<Rightarrow> dyn_module \<Rightarrow> byte list \<Rightarrow> app_tx \<Rightarrow> (whatever, citem_effect list \<times> app_tx) res" where
  "module_process_input i m raw = (case m of
      CtrlInst _ \<Rightarrow> ctrl_tx i (ctrl_process_input raw)
    | MetaInst _ \<Rightarrow> meta_tx i (meta_process_input raw))"

definition module_process_output ::
  "module_id \<Rightarrow> dyn_module \<Rightarrow> byte list \<Rightarrow> app_tx \<Rightarrow> (whatever, citem_effect list \<times> app_tx) res" where
  "module_process_output i m raw = (case m of
      CtrlInst _ \<Rightarrow> ctrl_tx i (ctrl_process_output raw)
    | MetaInst _ \<Rightarrow> meta_tx i (meta_process_output raw))"

definition unit_result :: "('e, 't) res \<Rightarrow> ('e, unit \<times> 't) res" where
  "unit_result r = res_bind r (\<lambda>t. Ok ((), t))"

definition module_process_effects ::
  "app_env \<Rightarrow> module_id \<Rightarrow> dyn_module \<Rightarrow> peer_set \<Rightarrow> module_citem_effect list \<Rightarrow> app_tx \<Rightarrow>
     (whatever, unit \<times> app_tx) res" where
  "module_process_effects env i m ps effects = (case m of
      CtrlInst _ \<Rightarrow> ctrl_tx i (\<lambda>tx. unit_result (ctrl_process_effects ps effects tx))
    | MetaInst _ \<Rightarrow> meta_tx i (\<lambda>tx. unit_result (meta_process_effects (env_excl env) ps effects tx)))"

subsection \<open>Effects on the core consensus\<close>

definition core_pre_effect ::
  "app_env \<Rightarrow> channels \<Rightarrow> block_round \<Rightarrow> timestamp \<Rightarrow> module_citem_effect \<Rightarrow> peer_set \<times> app_tx \<Rightarrow>
     ('e, peer_set \<times> app_tx) res" where
  "core_pre_effect env ch r ts e s =
     (if effect_module_kind e \<noteq> MODULE_KIND_CONSENSUS_CTRL then Ok s
      else if effect_eid (effect_inner e) = ctrl_effect_id (ConsensusParamsChange []) then
        (case effect_decode (dec_params_change (env_ctrl_codec env)) (ctrl_effect_id (ConsensusParamsChange []))
            (effect_inner e) of
          Ok ps \<Rightarrow>
            res_bind (consensus_params_change_tx (env_crypto env) ch r ts ps (app_cons (dbtx (snd s)))) (\<lambda>c.
              Ok (ps, (snd s)\<lparr>dbtx := (dbtx (snd s))\<lparr>app_cons := c\<rparr>\<rparr>))
        | Err _ \<Rightarrow> Panic ''Can't fail to decode''
        | Panic m \<Rightarrow> Panic m)
      else Ok s)"

definition process_consensus_change_effects_core_pre ::
  "app_env \<Rightarrow> channels \<Rightarrow> block_round \<Rightarrow> timestamp \<Rightarrow> module_citem_effect list \<Rightarrow> peer_set \<times> app_tx \<Rightarrow>
     ('e, peer_set \<times> app_tx) res" where
  "process_consensus_change_effects_core_pre env ch r ts effects s = res_fold (core_pre_effect env ch r ts) effects s"

definition invalidates_configs :: "module_citem_effect \<Rightarrow> bool" where
  "invalidates_configs e \<longleftrightarrow> effect_module_kind e = MODULE_KIND_CONSENSUS_CTRL \<and>
     (effect_eid (effect_inner e) = ctrl_effect_id (AddModuleEffect 0 0 (ConsensusVersion 0 0)) \<or>
      effect_eid (effect_inner e) = ctrl_effect_id (ModuleVersionUpgradeEffect 0 (ConsensusVersion 0 0) (ConsensusVersion 0 0)))"

definition process_consensus_change_effects_core_post ::
  "module_citem_effect list \<Rightarrow> configs option \<Rightarrow> configs option" where
  "process_consensus_change_effects_core_post effects mc =
     fold (\<lambda>e mc. if invalidates_configs e then None else mc) effects mc"

subsection \<open>Processing a consensus item\<close>

definition tag_effects :: "module_kind \<Rightarrow> citem_effect list \<Rightarrow> module_citem_effect list" where
  "tag_effects k es = map (\<lambda>e. \<lparr>effect_module_kind = k, effect_inner = e\<rparr>) es"

definition process_peer_citem ::
  "app_env \<Rightarrow> modules \<Rightarrow> peer_pubkey \<Rightarrow> peer_set \<Rightarrow> byte list module_dyn \<Rightarrow> app_tx \<Rightarrow>
     (process_citem_error, module_citem_effect list \<times> app_tx) res" where
  "process_peer_citem env mods voter ps mc tx =
     (let i = md_module_id mc in
      res_bind (ensure (voter \<in> set ps)
        (ProcessingCItemFailed ''Ignoring citem from a peer pending consensus removal'' i)) (\<lambda>_.
      case tbl_get mods i of
        None \<Rightarrow> Err (UnknownModuleId i)
      | Some m \<Rightarrow>
          res_bind (map_err (\<lambda>e. ProcessingCItemFailed e i)
              (module_process_citem env i (dm_inner m) voter ps (md_inner mc) tx)) (\<lambda>(es, tx).
            Ok (tag_effects (mc_kind (dm_config m)) es, tx))))"

text \<open>The two loops of a transaction, over its inputs and over its outputs.\<close>

definition process_parts ::
  "(module_id \<Rightarrow> dyn_module \<Rightarrow> byte list \<Rightarrow> app_tx \<Rightarrow> (whatever, citem_effect list \<times> app_tx) res) \<Rightarrow>
     (whatever \<Rightarrow> module_id \<Rightarrow> process_citem_error) \<Rightarrow> modules \<Rightarrow> byte list module_dyn list \<Rightarrow>
     module_citem_effect list \<times> app_tx \<Rightarrow> (process_citem_error, module_citem_effect list \<times> app_tx) res" where
  "process_parts call failed mods parts =
     res_fold (\<lambda>part (es, tx). let i = md_module_id part in
       case tbl_get mods i of
         None \<Rightarrow> Err (UnknownModuleId i)
       | Some m \<Rightarrow>
           res_bind (map_err (\<lambda>e. failed e i) (call i (dm_inner m) (md_inner part) tx)) (\<lambda>(es', tx).
             Ok (es @ tag_effects (mc_kind (dm_config m)) es', tx))) parts"

definition process_item ::
  "app_env \<Rightarrow> modules \<Rightarrow> peer_pubkey \<Rightarrow> peer_set \<Rightarrow> citem \<Rightarrow> app_tx \<Rightarrow>
     (process_citem_error, module_citem_effect list \<times> app_tx) res" where
  "process_item env mods voter ps c tx = (case c of
      PeerCItem mc \<Rightarrow> process_peer_citem env mods voter ps mc tx
    | Transaction t \<Rightarrow>
        res_bind (process_parts module_process_input ProcessingInputFailed mods (tx_inputs t) ([], tx))
          (process_parts module_process_output ProcessingOutputFailed mods (tx_outputs t)))"

definition all_process_effects ::
  "app_env \<Rightarrow> modules \<Rightarrow> peer_set \<Rightarrow> module_citem_effect list \<Rightarrow> app_tx \<Rightarrow> (process_citem_error, app_tx) res" where
  "all_process_effects env mods ps effects =
     res_fold (\<lambda>(i, m) tx.
       res_bind (map_err (\<lambda>e. ProcessingEffectFailed e i) (module_process_effects env i (dm_inner m) ps effects tx))
         (\<lambda>(u, tx). Ok tx)) (entries mods)"

definition save_cur_round_and_idx :: "block_round \<Rightarrow> 32 word \<Rightarrow> app_db \<Rightarrow> app_db" where
  "save_cur_round_and_idx r i d = d\<lparr>app_cur_round := Some (r, i)\<rparr>"

definition load_cur_round_and_idx :: "app_db \<Rightarrow> block_round \<times> 32 word" where
  "load_cur_round_and_idx d = (case app_cur_round d of Some p \<Rightarrow> p | None \<Rightarrow> (0, 0))"

text \<open>The body of the transaction: it also yields the peer set and the invalidation of the configurations.\<close>

definition process_citem_body ::
  "app_env \<Rightarrow> channels \<Rightarrow> modules \<Rightarrow> block_round \<times> 32 word \<Rightarrow> timestamp \<Rightarrow> peer_pubkey \<Rightarrow> peer_set \<Rightarrow>
     configs option \<Rightarrow> citem \<Rightarrow> app_tx \<Rightarrow>
     (process_citem_error, (peer_set \<times> configs option) \<times> app_tx) res" where
  "process_citem_body env ch mods pos ts voter ps mc c tx =
     res_bind (process_item env mods voter ps c tx) (\<lambda>(effects, tx).
     res_bind (process_consensus_change_effects_core_pre env ch (fst pos) ts effects (ps, tx)) (\<lambda>(ps', tx).
     res_bind (all_process_effects env mods ps' effects tx) (\<lambda>tx.
       Ok ((ps', process_consensus_change_effects_core_post effects mc),
           tx\<lparr>dbtx := save_cur_round_and_idx (fst pos) (snd pos) (dbtx tx)\<rparr>))))"

record app_state =
  as_db :: app_db
  as_chan :: channels
  as_props :: app_props
  as_modules :: modules
  as_modules_changed :: nat
  as_peer_set :: "peer_set option"
  as_configs :: "configs option"

text \<open>The transaction of one item. The source alters \<open>peer_set\<close> and \<open>modules_configs\<close> in place, so an error that comes
  after the effects leaves them altered; \<open>Err\<close> carries no state here, because \<open>process_citem\<close> resets both copies on
  every error, before anything reads them.\<close>

definition process_citem_try ::
  "app_env \<Rightarrow> block_round \<times> 32 word \<Rightarrow> timestamp \<Rightarrow> peer_pubkey \<Rightarrow> peer_set \<Rightarrow> citem \<Rightarrow> app_state \<Rightarrow>
     (process_citem_error, app_state) res" where
  "process_citem_try env pos ts voter ps c s =
     (case write_with_expect_falliable run_app_hook
         (process_citem_body env (as_chan s) (as_modules s) pos ts voter ps (as_configs s) c) (as_db s, as_props s) of
        (Ok (ps', mc), (d, props)) \<Rightarrow>
          Ok (s\<lparr>as_db := d, as_props := props, as_peer_set := Some ps', as_configs := mc\<rparr>)
      | (Err e, _) \<Rightarrow> Err e
      | (Panic m, _) \<Rightarrow> Panic m)"

definition citem_idx_next :: "32 word \<Rightarrow> ('e, 32 word) res" where
  "citem_idx_next i = expect ''We can't overflow'' (checked_add i 1)"

definition process_citem ::
  "app_env \<Rightarrow> block_round \<times> 32 word \<Rightarrow> block_header \<Rightarrow> peer_pubkey \<Rightarrow> citem \<Rightarrow> app_state \<Rightarrow>
     (whatever, app_state) res" where
  "process_citem env pos b voter c s =
     res_bind (expect ''Must be set at this point'' (as_peer_set s)) (\<lambda>ps.
     case process_citem_try env pos (bh_timestamp b) voter ps c s of
       Ok s' \<Rightarrow> Ok s'
     | Err _ \<Rightarrow>
         res_bind (citem_idx_next (snd pos)) (\<lambda>i.
           Ok (s\<lparr>as_peer_set := None, as_configs := None,
                 as_db := save_cur_round_and_idx (fst pos) i (as_db s)\<rparr>))
     | Panic m \<Rightarrow> Panic m)"

subsection \<open>The running modules\<close>

definition init_data :: "dyn_module_init \<Rightarrow> module_init" where
  "init_data i = (case i of CtrlModuleInit \<Rightarrow> ctrl_module_init | MetaModuleInit \<Rightarrow> meta_module_init)"

text \<open>The constructors as the consensus control module sees them.\<close>

definition inits_data :: "(module_kind, dyn_module_init) table \<Rightarrow> modules_inits" where
  "inits_data t = fold (\<lambda>(k, i). tbl_insert k (init_data i)) (entries t) tbl_empty"

definition module_init_call ::
  "app_env \<Rightarrow> dyn_module_init \<Rightarrow> module_id \<Rightarrow> consensus_version \<Rightarrow> app_db \<Rightarrow>
     (module_init_error, dyn_module \<times> app_db \<times> proposals) res" where
  "module_init_call env init i v d = (case init of
      CtrlModuleInit \<Rightarrow>
        res_bind (ctrl_init (env_ctrl_codec env) v (env_self env) (inits_data (env_inits env)) (app_ctrl d i))
          (\<lambda>(cm, m, props). Ok (CtrlInst cm, d\<lparr>app_ctrl := (app_ctrl d)(i := m)\<rparr>, props))
    | MetaModuleInit \<Rightarrow>
        res_bind (meta_init v (env_self env) (app_meta d i))
          (\<lambda>(mm, m, props). Ok (MetaInst mm, d\<lparr>app_meta := (app_meta d)(i := m)\<rparr>, props)))"

record setup_state =
  st_existing :: modules
  st_modules :: modules
  st_changed :: bool
  st_db :: app_db
  st_props :: app_props

definition setup_new ::
  "app_env \<Rightarrow> module_id \<Rightarrow> module_config \<Rightarrow> setup_state \<Rightarrow> (whatever, setup_state) res" where
  "setup_new env i cfg st =
     (case tbl_get (env_inits env) (mc_kind cfg) of
        None \<Rightarrow> Err ''Missing module init for kind''
      | Some init \<Rightarrow>
          res_bind (map_err (\<lambda>_. ''Failed to setup module'') (module_init_call env init i (mc_version cfg) (st_db st)))
            (\<lambda>(m, d, props).
              Ok (st\<lparr>st_changed := True, st_existing := tbl_remove i (st_existing st),
                     st_modules := tbl_insert i \<lparr>dm_config = cfg, dm_inner = m\<rparr> (st_modules st),
                     st_db := d, st_props := (st_props st)(i := props)\<rparr>)))"

definition setup_module ::
  "app_env \<Rightarrow> module_id \<times> module_config \<Rightarrow> setup_state \<Rightarrow> (whatever, setup_state) res" where
  "setup_module env = (\<lambda>(i, cfg) st.
     case tbl_get (st_existing st) i of
       Some m \<Rightarrow>
         if dm_config m = cfg
         then Ok (st\<lparr>st_modules := tbl_insert i m (st_modules st), st_existing := tbl_remove i (st_existing st)\<rparr>)
         else setup_new env i cfg st
     | None \<Rightarrow> setup_new env i cfg st)"

definition setup_modules_to_static ::
  "app_env \<Rightarrow> configs \<Rightarrow> app_state \<Rightarrow> (whatever, setup_state) res" where
  "setup_modules_to_static env cfgs s =
     res_bind (res_fold (setup_module env) (entries cfgs)
         \<lparr>st_existing = as_modules s, st_modules = tbl_empty, st_changed = False,
          st_db = as_db s, st_props = as_props s\<rparr>) (\<lambda>st.
     res_bind (assert_or_panic ''Some existing modules are without config in the new round''
         (entries (st_existing st) = [])) (\<lambda>_. Ok st))"

definition setup_modules_to :: "app_env \<Rightarrow> configs \<Rightarrow> app_state \<Rightarrow> (whatever, bool \<times> app_state) res" where
  "setup_modules_to env cfgs s =
     res_bind (setup_modules_to_static env cfgs s) (\<lambda>st.
       Ok (st_changed st, s\<lparr>as_db := st_db st, as_props := st_props st, as_modules := st_modules st,
         as_modules_changed := (if st_changed st then as_modules_changed s + 1 else as_modules_changed s)\<rparr>))"

definition consensus_ctrl_module_expect :: "app_state \<Rightarrow> ('e, ctrl_module) res" where
  "consensus_ctrl_module_expect s =
     res_bind (expect ''Must have a app consensus module'' (tbl_get (as_modules s) CONSENSUS_CTRL_MODULE_ID)) (\<lambda>m.
       case dm_inner m of CtrlInst cm \<Rightarrow> Ok cm | MetaInst _ \<Rightarrow> Panic ''Must be a core consensus module'')"

definition reload_invalidated_copies :: "app_env \<Rightarrow> app_state \<Rightarrow> (whatever, app_state) res" where
  "reload_invalidated_copies env s =
     res_bind (case as_peer_set s of
         Some _ \<Rightarrow> Ok s
       | None \<Rightarrow> res_bind (consensus_ctrl_module_expect s) (\<lambda>_.
           Ok (s\<lparr>as_peer_set := Some (get_peer_set (app_ctrl (as_db s) CONSENSUS_CTRL_MODULE_ID))\<rparr>))) (\<lambda>s.
     case as_configs s of
       Some _ \<Rightarrow> Ok s
     | None \<Rightarrow> res_bind (consensus_ctrl_module_expect s) (\<lambda>_.
         let cfgs = modules_configs (app_ctrl (as_db s) CONSENSUS_CTRL_MODULE_ID)
         in res_bind (setup_modules_to env cfgs (s\<lparr>as_configs := Some cfgs\<rparr>)) (\<lambda>(changed, s). Ok s)))"

definition init_consensus_ctrl ::
  "app_env \<Rightarrow> consensus_params \<Rightarrow> app_state \<Rightarrow> (whatever, configs \<times> app_state) res" where
  "init_consensus_ctrl env params s =
     res_bind (assert_or_panic ''modules_write.is_empty()'' (entries (as_modules s) = [])) (\<lambda>_.
     case tbl_get (env_inits env) MODULE_KIND_CONSENSUS_CTRL of
       None \<Rightarrow> Err ''Missing module init for consensus module kind''
     | Some MetaModuleInit \<Rightarrow> Panic ''Must be a consensus module''
     | Some CtrlModuleInit \<Rightarrow>
         let m = app_ctrl (as_db s) CONSENSUS_CTRL_MODULE_ID in
         if is_bootstrapped m then Ok (modules_configs m, s)
         else res_bind (bootstrap_consensus CONSENSUS_CTRL_MODULE_ID (init_core_module_cons_version params)
                 (peers params) m) (\<lambda>(cfg, m').
           Ok (tbl_insert CONSENSUS_CTRL_MODULE_ID cfg tbl_empty,
               s\<lparr>as_db := (as_db s)\<lparr>app_ctrl := (app_ctrl (as_db s))(CONSENSUS_CTRL_MODULE_ID := m')\<rparr>\<rparr>)))"

definition record_supported_modules_versions :: "app_env \<Rightarrow> app_state \<Rightarrow> (whatever, app_state) res" where
  "record_supported_modules_versions env s =
     res_bind (consensus_ctrl_module_expect s) (\<lambda>_.
     res_bind (record_module_init_versions
         (fold (\<lambda>(k, i). tbl_insert k (init_supported_versions (init_data i))) (entries (env_inits env)) tbl_empty)
         (app_ctrl (as_db s) CONSENSUS_CTRL_MODULE_ID)) (\<lambda>m.
       Ok (s\<lparr>as_db := (as_db s)\<lparr>app_ctrl := (app_ctrl (as_db s))(CONSENSUS_CTRL_MODULE_ID := m)\<rparr>\<rparr>)))"

subsection \<open>The main loop\<close>

text \<open>
  \<open>ack_and_wait_next_block\<close> on the current consensus state and the current values of the two finality
  channels. It either waits for a channel, having acknowledged a round (\<open>Inl\<close>), or returns a
  block with its leader and its items.
\<close>

definition ack_and_wait_next_block ::
  "app_env \<Rightarrow> channels \<Rightarrow> cons_db \<Rightarrow> block_round \<Rightarrow>
     ('e, block_round + (block_header \<times> peer_pubkey \<times> citem list)) res" where
  "ack_and_wait_next_block env ch d req =
     (if \<not> (req < finality_consensus ch \<and> req < finality_self_vote ch) then Ok (Inl req)
      else res_bind (expect ''Must have a notarized block since own finality is past this height''
               (get_next_notarized_block d req)) (\<lambda>b.
        if \<not> (bh_round b < finality_consensus ch \<and> bh_round b < finality_self_vote ch) then Ok (Inl (bh_round b))
        else
          res_bind (expect ''Must have notarized block payload'' (get_block_payload d (payload_hash b))) (\<lambda>payload.
          res_bind (get_consensus_params d (bh_round b)) (\<lambda>params.
          res_bind (num_peers params) (\<lambda>n.
          res_bind (leader_idx (env_crypto env) (bh_round b) n) (\<lambda>l.
          res_bind (expect ''Must exist''
              (if unat l < length (peers params) then Some (peers params ! unat l) else None)) (\<lambda>leader.
          res_bind (expect ''Can't fail'' (env_dec_citems env payload)) (\<lambda>citems.
            Ok (Inr (b, leader, citems)))))))))) "

fun process_citems ::
  "app_env \<Rightarrow> block_header \<Rightarrow> peer_pubkey \<Rightarrow> citem list \<Rightarrow> nat \<Rightarrow> (block_round \<times> 32 word) \<times> app_state \<Rightarrow>
     (whatever, (block_round \<times> 32 word) \<times> app_state) res" where
  "process_citems env b voter [] n s = Ok s"
| "process_citems env b voter (c # cs) n (pos, s) =
     res_bind (expect ''Can't fail'' (if n < 2 ^ 32 then Some (of_nat n :: 32 word) else None)) (\<lambda>idx.
     res_bind (if snd pos \<le> idx
         then res_bind (reload_invalidated_copies env s) (process_citem env pos b voter c)
         else Ok s) (\<lambda>s.
       process_citems env b voter cs (Suc n) ((fst pos, idx), s)))"

definition process_block ::
  "app_env \<Rightarrow> block_header \<Rightarrow> peer_pubkey \<Rightarrow> citem list \<Rightarrow> (block_round \<times> 32 word) \<times> app_state \<Rightarrow>
     (whatever, (block_round \<times> 32 word) \<times> app_state) res" where
  "process_block env b voter cs s =
     res_bind (process_citems env b voter cs 0 s) (\<lambda>(pos, s).
     res_bind (expect ''Can't fail'' (arr_next (bh_round b))) (\<lambda>r.
       Ok ((r, 0), s\<lparr>as_db := save_cur_round_and_idx r 0 (as_db s)\<rparr>)))"

text \<open>From the start of \<open>NodeApp::run\<close> to the head of its loop.\<close>

definition run_start :: "app_env \<Rightarrow> app_state \<Rightarrow> (whatever, (block_round \<times> 32 word) \<times> app_state) res" where
  "run_start env s =
     (let pos = load_cur_round_and_idx (as_db s) in
      res_bind (get_consensus_params (app_cons (as_db s)) (fst pos)) (\<lambda>params.
      res_bind (init_consensus_ctrl env params s) (\<lambda>(cfgs, s).
      res_bind (setup_modules_to env cfgs s) (\<lambda>(changed, s).
      res_bind (assert_or_panic ''changed'' changed) (\<lambda>_.
      res_bind (record_supported_modules_versions env s) (\<lambda>s.
        Ok (pos, s\<lparr>as_peer_set := None, as_configs := None\<rparr>)))))))"

text \<open>One round of the loop: the next block is processed when there is one.\<close>

definition run_step ::
  "app_env \<Rightarrow> (block_round \<times> 32 word) \<times> app_state \<Rightarrow> (whatever, (block_round \<times> 32 word) \<times> app_state) res" where
  "run_step env s =
     res_bind (ack_and_wait_next_block env (as_chan (snd s)) (app_cons (as_db (snd s))) (fst (fst s))) (\<lambda>n.
       case n of
         Inl _ \<Rightarrow> Ok s
       | Inr (b, leader, citems) \<Rightarrow> process_block env b leader citems s)"

end
