(* ===== verification/Meta_Theorems.thy ===== *)
theory Meta_Theorems
  imports Meta_Module
begin

section \<open>Properties of the meta module\<close>

text \<open>
  When a value becomes the value of a key, that open votes never reach the threshold unnoticed, and
  where the module panics on a table that it opens twice.
\<close>

lemma votes_range_mem:
  "e \<in> set (votes_range d key) \<longleftrightarrow> fst (fst e) = key \<and> tbl_get (key_value_votes d) (fst e) = Some (snd e)"
  using tb.range_set [of "fst e" "snd e" "\<lambda>k. (key, 0) \<le> k \<and> k \<le> (key, - 1)" "key_value_votes d"]
  by (cases e) (auto simp: votes_range_def less_eq_prod_def)

lemma votes_range_distinct: "distinct (map fst (votes_range d key))"
  unfolding votes_range_def by (rule sorted_keys_distinct [OF tb.range_sorted])

text \<open>The peers of the set that stand for a value of a key.\<close>

definition value_voters :: "meta_db \<Rightarrow> peer_set \<Rightarrow> meta_key \<Rightarrow> meta_value \<Rightarrow> peer_pubkey set" where
  "value_voters d ps key value = {p \<in> set ps. tbl_get (key_value_votes d) (key, p) = Some value}"

lemma finite_value_voters [simp]: "finite (value_voters d ps key value)"
  by (simp add: value_voters_def)

lemma count_value_votes_card: "count_value_votes d ps key value = card (value_voters d ps key value)"
proof -
  let ?r = "filter (\<lambda>e. snd e = value \<and> snd (fst e) \<in> set ps) (votes_range d key)"
  have "distinct (map fst ?r)" using votes_range_distinct by (simp add: distinct_map_filter)
  then have "card (set (map fst ?r)) = length (map fst ?r)" by (rule distinct_card)
  then have "length ?r = card (fst ` set ?r)" by (simp only: set_map length_map)
  also have "fst ` set ?r = Pair key ` value_voters d ps key value"
  proof -
    have "(key, p) \<in> fst ` set ?r" if "p \<in> value_voters d ps key value" for p
      using that votes_range_mem [of "((key, p), value)" d key] by (force simp: value_voters_def)
    moreover have "x \<in> Pair key ` value_voters d ps key value" if "x \<in> fst ` set ?r" for x
      using that votes_range_mem [of _ d key] by (cases x) (force simp: value_voters_def)
    ultimately show ?thesis by blast
  qed
  also have "card \<dots> = card (value_voters d ps key value)" by (simp add: card_image inj_on_def)
  finally show ?thesis by (simp add: count_value_votes_def)
qed

lemma value_voters_insert:
  "value_voters (d\<lparr>key_value_votes := tbl_insert (key, voter) value (key_value_votes d)\<rparr>) ps k v =
     (if k = key then (if v = value then {p \<in> set ps. p = voter \<or> tbl_get (key_value_votes d) (key, p) = Some value}
        else value_voters d ps k v - {voter}) else value_voters d ps k v)"
  by (auto simp: value_voters_def)

lemma value_voters_settle:
  "value_voters (settle_value ps key value d) ps k v = (if k = key then {} else value_voters d ps k v)"
  by (auto simp: value_voters_def settle_value_def)

subsection \<open>Votes\<close>

text \<open>C37. A value becomes the value of a key exactly when a new vote brings the peers of the set that
  stand for it to the threshold: then the effect is emitted and the votes of these peers on the key are
  cleared. Otherwise the values stay, and the vote is recorded. Votes on other keys are
  untouched, and the call neither fails nor panics.\<close>

theorem meta_value_at_threshold:
  assumes "length ps \<le> 255"
  shows "\<exists>effects d'. process_citem_vote_key_value cd voter ps key value d = Ok (effects, d') \<and>
    (if tbl_get (key_value_votes d) (key, voter) \<noteq> Some value \<and>
        threshold (of_nat (length ps)) \<le>
          card {p \<in> set ps. p = voter \<or> tbl_get (key_value_votes d) (key, p) = Some value}
     then tbl_get (consensus_values d') = (tbl_get (consensus_values d))(key \<mapsto> value) \<and>
       effects = [effect_encode KEY_VALUE_EFFECT_ID (enc_key_value_effect cd (key, value))] \<and>
       (\<forall>p \<in> set ps. tbl_get (key_value_votes d') (key, p) = None)
     else consensus_values d' = consensus_values d \<and> effects = [] \<and>
       tbl_get (key_value_votes d') (key, voter) = Some value) \<and>
    (\<forall>k p. k \<noteq> key \<longrightarrow> tbl_get (key_value_votes d') (k, p) = tbl_get (key_value_votes d) (k, p))"
  using assms
  by (auto simp: process_citem_vote_key_value_def Let_def to_num_peers_def count_value_votes_card
      value_voters_insert settle_value_def tb.get_keep_None tb.get_keep fun_eq_iff split: option.splits)

definition meta_db_empty :: meta_db where
  "meta_db_empty = \<lparr>meta_self_version = None, key_value_votes = tbl_empty, consensus_values = tbl_empty,
     pending_proposals = tbl_empty\<rparr>"

definition test_meta_codec :: "meta_citem \<Rightarrow> meta_codec" where
  "test_meta_codec c = \<lparr>enc_meta_citem = (\<lambda>_. []), dec_meta_citem = (\<lambda>_. Some c),
     enc_key_value_effect = (\<lambda>_. [])\<rparr>"

theorem meta_value_at_threshold_witness:
  "\<exists>effects d'. process_citem_vote_key_value (test_meta_codec (ProposeValue 3 [1])) 7 [7] 3 [1] meta_db_empty = Ok (effects, d') \<and>
     tbl_get (consensus_values d') 3 = Some [1]"
proof -
  have "{p \<in> set [7]. p = 7 \<or> tbl_get (key_value_votes meta_db_empty) (3, p) = Some [1]} = {7 :: peer_pubkey}"
    by auto
  then show ?thesis
    using meta_value_at_threshold [of "[7]" "test_meta_codec (ProposeValue 3 [1])" 7 3 "[1]" meta_db_empty]
    by (auto simp: threshold_small meta_db_empty_def)
qed

subsection \<open>Open votes\<close>

text \<open>No value is one that the peers of the set have agreed on without it being settled.\<close>

definition votes_open :: "peer_set \<Rightarrow> meta_db \<Rightarrow> bool" where
  "votes_open ps d \<longleftrightarrow>
     (\<forall>key value. card (value_voters d ps key value) < threshold (of_nat (length ps)))"

lemma threshold_pos: "ps \<noteq> [] \<Longrightarrow> length ps \<le> 255 \<Longrightarrow> 0 < threshold (of_nat (length ps))"
  using np.thr_pos [of "of_nat (length ps)"] by (simp add: total_def unat_of_nat)

lemma vote_key_value_open:
  assumes "votes_open ps d" "ps \<noteq> []"
    and ok: "process_citem_vote_key_value cd voter ps key value d = Ok (effects, d')"
  shows "votes_open ps d'"
proof (cases "tbl_get (key_value_votes d) (key, voter) = Some value")
  case True
  then show ?thesis using assms(1) ok by (simp add: process_citem_vote_key_value_def)
next
  case False
  let ?d1 = "d\<lparr>key_value_votes := tbl_insert (key, voter) value (key_value_votes d)\<rparr>"
  have len: "length ps \<le> 255"
    using ok False by (auto simp: process_citem_vote_key_value_def Let_def res_simps)
  have other: "card (value_voters ?d1 ps k v) < threshold (of_nat (length ps))" if "(k, v) \<noteq> (key, value)" for k v
  proof -
    have "value_voters ?d1 ps k v \<subseteq> value_voters d ps k v" using that by (auto simp: value_voters_insert)
    then have "card (value_voters ?d1 ps k v) \<le> card (value_voters d ps k v)" by (simp add: card_mono)
    also have "\<dots> < threshold (of_nat (length ps))" using assms(1) by (simp add: votes_open_def)
    finally show ?thesis .
  qed
  show ?thesis
  proof (cases "threshold (of_nat (length ps)) \<le> card (value_voters ?d1 ps key value)")
    case True
    then have "d' = settle_value ps key value ?d1"
      using ok False len by (simp add: process_citem_vote_key_value_def Let_def to_num_peers_def count_value_votes_card)
    then show ?thesis using other threshold_pos [OF assms(2) len] by (auto simp: votes_open_def value_voters_settle)
  next
    case small: False
    then have "d' = ?d1"
      using ok False len by (simp add: process_citem_vote_key_value_def Let_def to_num_peers_def count_value_votes_card)
    moreover have "card (value_voters ?d1 ps k v) < threshold (of_nat (length ps))" for k v
      using other [of k v] small by (cases "(k, v) = (key, value)") simp_all
    ultimately show ?thesis by (simp add: votes_open_def)
  qed
qed

lemma dispatch_meta_open:
  "votes_open ps d \<Longrightarrow> ps \<noteq> [] \<Longrightarrow> dispatch_meta excl cd voter ps c d = Ok (effects, d') \<Longrightarrow> votes_open ps d'"
  by (cases c) (auto simp: process_citem_approve_vote_def res_simps split: option.splits intro: vote_key_value_open)

lemma meta_process_citem_elim:
  assumes "meta_process_citem excl mm cd voter ps raw tx = Ok (effects, tx')"
  obtains c where "voter \<in> set ps" "dispatch_meta excl cd voter ps c (dbtx tx) = Ok (effects, dbtx tx')"
  using assms by (auto simp: meta_process_citem_def res_simps on_commit_def)

definition meta_body ::
  "bool \<Rightarrow> meta_module \<Rightarrow> meta_codec \<Rightarrow> peer_set \<Rightarrow> peer_pubkey \<times> byte list \<Rightarrow> (meta_db, propose_hook) wtx \<Rightarrow>
     (whatever, citem_effect list \<times> (meta_db, propose_hook) wtx) res" where
  "meta_body excl mm cd ps = (\<lambda>(voter, raw). meta_process_citem excl mm cd voter ps raw)"

definition meta_run ::
  "bool \<Rightarrow> meta_module \<Rightarrow> meta_codec \<Rightarrow> peer_set \<Rightarrow> (peer_pubkey \<times> byte list) list \<Rightarrow> meta_db \<times> proposals \<Rightarrow>
     meta_db \<times> proposals" where
  "meta_run excl mm cd ps inps s =
     fold (\<lambda>i s. snd (write_with_expect_falliable run_propose_hook (meta_body excl mm cd ps i) s)) inps s"

interpretation mt: tx_component run_propose_hook "meta_body excl mm cd ps" "\<lambda>_. True" "\<lambda>s. votes_open ps (fst s)"
  for excl mm cd ps
proof
  fix d i a tx and c :: proposals
  assume inv: "votes_open ps (fst (d, c))" and ok: "meta_body excl mm cd ps i (wtx_new d) = Ok (a, tx)"
  obtain voter raw where i: "i = (voter, raw)" by (cases i)
  obtain c' where "voter \<in> set ps" "dispatch_meta excl cd voter ps c' d = Ok (a, dbtx tx)"
    using ok by (auto simp: i meta_body_def elim: meta_process_citem_elim)
  moreover from this(1) have "ps \<noteq> []" by auto
  ultimately have "votes_open ps (dbtx tx)" using dispatch_meta_open inv by (metis fst_conv)
  then show "votes_open ps (fst (commit run_propose_hook tx c))" by (simp add: commit_def)
qed

text \<open>While the peer set stays the same, agreement never goes unnoticed: whatever consensus items
  are processed on an empty module database, for no key and value do the recorded votes of the
  peers reach the threshold. A vote that would make them do so settles the value at once.\<close>

lemma meta_votes_stay_open:
  assumes "ps \<noteq> []" "length ps \<le> 255"
  shows "card (value_voters (fst (meta_run excl mm cd ps inps (meta_db_empty, []))) ps key value)
    < threshold (of_nat (length ps))"
proof -
  have "votes_open ps (fst (meta_db_empty, [] :: proposals))"
    using threshold_pos [OF assms] by (simp add: votes_open_def value_voters_def meta_db_empty_def)
  then have "votes_open ps (fst (meta_run excl mm cd ps inps (meta_db_empty, [])))"
    unfolding meta_run_def by (rule mt.history_inv) (simp add: list_all_iff)
  then show ?thesis by (simp add: votes_open_def)
qed

subsection \<open>Tables opened twice\<close>

text \<open>The number of votes per value that the recheck collects.\<close>

definition count_of :: "(meta_value, nat) table \<Rightarrow> meta_value \<Rightarrow> nat" where
  "count_of t v = (case tbl_get t v of Some n \<Rightarrow> n | None \<Rightarrow> 0)"

lemma fold_counts:
  "count_of (fold (\<lambda>e t. if P e then tbl_insert (snd e) (Suc (case tbl_get t (snd e) of Some n \<Rightarrow> n | None \<Rightarrow> 0)) t
       else t) es t) v = count_of t v + length (filter (\<lambda>e. snd e = v \<and> P e) es)"
  by (induction es arbitrary: t) (auto simp: count_of_def)

lemma value_counts_card: "count_of (value_counts d ps key) v = card (value_voters d ps key v)"
  using fold_counts [of "\<lambda>e. snd (fst e) \<in> set ps" "votes_range d key" tbl_empty v]
    count_value_votes_card [of d ps key v]
  by (simp add: value_counts_def count_of_def count_value_votes_def)

lemma settle_first_excl:
  "settle_first True ps thr key vs d =
     (if \<exists>e \<in> set vs. thr \<le> snd e then Panic ''TableAlreadyOpen'' else Ok d)"
  by (induction vs) (fastforce simp: reopen_table_def)+

text \<open>The keys on which the recheck would settle a value.\<close>

definition settles :: "peer_set \<Rightarrow> meta_db \<Rightarrow> meta_key \<Rightarrow> bool" where
  "settles ps d key \<longleftrightarrow> tbl_get (consensus_values d) key = None \<and>
     (\<exists>value. threshold (of_nat (length ps)) \<le> card (value_voters d ps key value))"

lemma value_counts_reach:
  assumes "0 < thr"
  shows "(\<exists>e \<in> set (entries (value_counts d ps key)). thr \<le> snd e) \<longleftrightarrow>
    (\<exists>v. thr \<le> card (value_voters d ps key v))"
proof
  assume "\<exists>e \<in> set (entries (value_counts d ps key)). thr \<le> snd e"
  then obtain v n where "tbl_get (value_counts d ps key) v = Some n" "thr \<le> n"
    by (auto simp: tb.scan_get)
  then show "\<exists>v. thr \<le> card (value_voters d ps key v)"
    using value_counts_card [of d ps key v] by (auto simp: count_of_def)
next
  assume "\<exists>v. thr \<le> card (value_voters d ps key v)"
  then obtain v where "thr \<le> count_of (value_counts d ps key) v" by (auto simp: value_counts_card)
  then obtain n where "tbl_get (value_counts d ps key) v = Some n" "thr \<le> n"
    using assms by (auto simp: count_of_def split: option.splits)
  then show "\<exists>e \<in> set (entries (value_counts d ps key)). thr \<le> snd e"
    by (force simp: tb.scan_get [symmetric])
qed

lemma recheck_key_excl:
  assumes "ps \<noteq> []" "length ps \<le> 255"
  shows "recheck_key True ps key d = (if settles ps d key then Panic ''TableAlreadyOpen'' else Ok d)"
  using assms value_counts_reach [OF threshold_pos [OF assms], of d ps key]
  by (auto simp: recheck_key_def settles_def to_num_peers_def settle_first_excl)

lemma settles_has_vote:
  assumes "settles ps d key" "ps \<noteq> []" "length ps \<le> 255"
  shows "key \<in> set (keys_with_votes d)"
proof -
  obtain v where "value_voters d ps key v \<noteq> {}"
    using assms threshold_pos [OF assms(2,3)] by (fastforce simp: settles_def)
  then obtain p where "tbl_get (key_value_votes d) (key, p) = Some v" by (auto simp: value_voters_def)
  then have "((key, p), v) \<in> set (entries (key_value_votes d))" by (simp add: tb.scan_get)
  then show ?thesis by (force simp: keys_with_votes_def)
qed

text \<open>C38. When a peer leaves and the votes already recorded then suffice for a value (the threshold of
  the smaller set is lower), every node with the meta module panics on the removal: the recheck
  opens the table of values again that it still holds. It changes nothing otherwise.\<close>

theorem recheck_after_removal_panics:
  assumes "ps \<noteq> []" "length ps \<le> 255"
  shows "recheck_consensus_after_peer_removal True ps d =
    (if \<exists>key value. tbl_get (consensus_values d) key = None \<and>
          threshold (of_nat (length ps)) \<le> card (value_voters d ps key value)
     then Panic ''TableAlreadyOpen'' else Ok d)"
proof -
  have "recheck_consensus_after_peer_removal True ps d =
      (if \<exists>key \<in> set (keys_with_votes d). settles ps d key then Panic ''TableAlreadyOpen'' else Ok d)"
    unfolding recheck_consensus_after_peer_removal_def
    by (rule res_fold_guard) (rule recheck_key_excl [OF assms])
  moreover have "(\<exists>key \<in> set (keys_with_votes d). settles ps d key) \<longleftrightarrow> (\<exists>key. settles ps d key)"
    using settles_has_vote [OF _ assms] by blast
  ultimately show ?thesis by (auto simp: settles_def)
qed

definition three_votes :: meta_db where
  "three_votes = meta_db_empty\<lparr>key_value_votes :=
     tbl_insert (3, 7) [1] (tbl_insert (3, 8) [1] (tbl_insert (3, 9) [1] tbl_empty))\<rparr>"

theorem recheck_after_removal_panics_witness:
  "recheck_consensus_after_peer_removal True [6, 7, 8, 9, 10] three_votes = Ok three_votes \<and>
   recheck_consensus_after_peer_removal True [7, 8, 9, 10] three_votes = Panic ''TableAlreadyOpen''"
proof
  have v: "value_voters three_votes ps k v =
      (if k = 3 \<and> v = [1] then set ps \<inter> {7, 8, 9} else {})" for ps k v
    by (auto simp: value_voters_def three_votes_def meta_db_empty_def split: if_splits)
  have t: "threshold 5 = 4" "threshold 4 = 3" by (simp_all add: threshold_def max_faulty_def total_def)
  have "tbl_get (consensus_values three_votes) k = None" for k by (simp add: three_votes_def meta_db_empty_def)
  then show "recheck_consensus_after_peer_removal True [7, 8, 9, 10] three_votes = Panic ''TableAlreadyOpen''"
    using recheck_after_removal_panics [of "[7, 8, 9, 10]" three_votes] by (force simp: v t)
  have "set [6, 7, 8, 9, 10] \<inter> {7, 8, 9} = {7, 8, 9 :: peer_pubkey}" by auto
  then have "card (set [6, 7, 8, 9, 10] \<inter> {7, 8, 9 :: peer_pubkey}) = 3" by simp
  then show "recheck_consensus_after_peer_removal True [6, 7, 8, 9, 10] three_votes = Ok three_votes"
    using recheck_after_removal_panics [of "[6, 7, 8, 9, 10]" three_votes] by (simp add: v t del: set_simps)
qed

lemma find_matching_peer_ok:
  "\<forall>e \<in> set es. fst (fst e) = key \<Longrightarrow>
     \<exists>found. find_matching_peer key value es = Ok found \<and>
       (\<forall>p. found = Some p \<longrightarrow> ((key, p), value) \<in> set es)"
  by (induction key "value" es rule: find_matching_peer.induct) auto

lemma meta_proposals_approve:
  assumes "meta_proposals mm d = (Ok cs :: ('e, _) res)" "ApproveVote key p \<in> set cs"
  shows "\<exists>v. tbl_get (key_value_votes d) (key, p) = Some v"
proof -
  have "\<forall>key p. ApproveVote key p \<in> set cs \<longrightarrow> (\<exists>v. tbl_get (key_value_votes d) (key, p) = Some v)"
  proof (rule res_fold_invariant [OF assms(1) [unfolded meta_proposals_def]], simp)
    fix e and acc acc' :: "meta_citem list"
    assume i: "\<forall>key p. ApproveVote key p \<in> set acc \<longrightarrow> (\<exists>v. tbl_get (key_value_votes d) (key, p) = Some v)"
    assume st: "(case e of (key, value) \<Rightarrow> \<lambda>acc. if should_propose mm d key value then
         res_bind (find_matching_peer key value (votes_range d key)) (\<lambda>found.
           Ok (acc @ [case found of Some peer \<Rightarrow> ApproveVote key peer | None \<Rightarrow> ProposeValue key value]))
       else Ok acc) acc = (Ok acc' :: ('e, _) res)"
    obtain k v where e: "e = (k, v)" by (cases e)
    obtain found where f: "find_matching_peer k v (votes_range d k) = (Ok found :: ('e, _) res)"
      "\<And>p. found = Some p \<Longrightarrow> tbl_get (key_value_votes d) (k, p) = Some v"
      using find_matching_peer_ok [of "votes_range d k" k v] by (auto simp: votes_range_mem)
    show "\<forall>key p. ApproveVote key p \<in> set acc' \<longrightarrow> (\<exists>v. tbl_get (key_value_votes d) (key, p) = Some v)"
      using i st f by (auto simp: e split: if_splits option.splits)
  qed
  then show ?thesis using assms(2) by blast
qed

text \<open>C39. An approval of another peer's vote never succeeds, although the module itself proposes it
  when it wants a value that a peer already voted for: processing a proposed approval, by any
  peer, panics on the table of votes, which the approval holds while the vote opens it.\<close>

theorem proposed_approval_panics:
  assumes "meta_proposals mm d = (Ok cs :: (whatever, _) res)" "ApproveVote key p \<in> set cs"
    and "dec_meta_citem cd (enc_meta_citem cd (ApproveVote key p)) = Some (ApproveVote key p)"
    and "voter \<in> set ps"
  shows "meta_process_citem True mm' cd voter ps (enc_meta_citem cd (ApproveVote key p)) (wtx_new d) =
    Panic ''TableAlreadyOpen''"
  using meta_proposals_approve [OF assms(1,2)] assms(3,4)
  by (auto simp: meta_process_citem_def meta_decode_from_raw_def process_citem_approve_vote_def reopen_table_def)

theorem proposed_approval_panics_witness:
  "\<exists>cs. meta_proposals \<lparr>mm_version = META_VERSION, mm_peer_pubkey = Some 8\<rparr> (meta_db_empty\<lparr>
       key_value_votes := tbl_insert (3, 7) [1] tbl_empty, pending_proposals := tbl_insert 3 [1] tbl_empty\<rparr>) =
       (Ok cs :: (whatever, _) res) \<and> cs = [ApproveVote 3 7] \<and>
   meta_process_citem True \<lparr>mm_version = META_VERSION, mm_peer_pubkey = Some 7\<rparr> (test_meta_codec (ApproveVote 3 7)) 8 [7, 8]
     (enc_meta_citem (test_meta_codec (ApproveVote 3 7)) (ApproveVote 3 7)) (wtx_new (meta_db_empty\<lparr>
       key_value_votes := tbl_insert (3, 7) [1] tbl_empty, pending_proposals := tbl_insert 3 [1] tbl_empty\<rparr>)) =
   Panic ''TableAlreadyOpen''"
proof -
  let ?d = "meta_db_empty\<lparr>key_value_votes := tbl_insert (3, 7) [1] tbl_empty,
    pending_proposals := tbl_insert 3 [1] tbl_empty\<rparr>"
  let ?mm = "\<lparr>mm_version = META_VERSION, mm_peer_pubkey = Some 8\<rparr>"
  have p: "meta_proposals ?mm ?d = (Ok [ApproveVote 3 7] :: (whatever, _) res)"
    by (simp add: meta_proposals_def should_propose_def votes_range_def range_entries_def tbl_insert.rep_eq
        tbl_empty.rep_eq tbl_get_def less_eq_prod_def)
  show ?thesis
    by (rule exI [of _ "[ApproveVote 3 7]"], intro conjI p refl proposed_approval_panics [OF p])
      (simp_all add: test_meta_codec_def)
qed

end
