(* ===== verification/Cons_Theorems.thy ===== *)
theory Cons_Theorems
  imports Cons_Getters
begin

section \<open>Properties of the consensus\<close>

text \<open>
  The properties of the consensus handlers, stated over the definitions of the model. Closed
  instances run on \<open>test_db\<close>, the database of a new federation.
\<close>

definition test_db :: "peer_set \<Rightarrow> cons_db" where
  "test_db ps = cons_db_empty\<lparr>cons_params_schedule := tbl_insert 0 1 tbl_empty,
     cons_params := tbl_insert 1 (test_params ps) tbl_empty\<rparr>"

lemma params_hash_test [simp]: "params_hash test_crypto p = 1"
  by (simp add: params_hash_def)

lemma test_db_init: "init_tx test_crypto (test_params ps) None cons_db_empty = Ok (0, test_db ps)"
  by (simp add: init_tx_def insert_consensus_params_def Let_def test_db_def cons_db_empty_def
      get_current_round_def)

lemma params_ok_test [simp]: "params_ok test_crypto (test_params ps) \<longleftrightarrow> ps \<noteq> [] \<and> length ps \<le> 255"
  by (simp add: params_ok_def test_params_def)

lemma test_db_inv: "ps \<noteq> [] \<Longrightarrow> length ps \<le> 255 \<Longrightarrow> cons_inv test_crypto (test_db ps)"
  using cons_inv_init [OF test_db_init] by simp

lemma test_db_fields [simp]:
  "get_current_round (test_db ps) = 0" "params_at (test_db ps) r = Some (test_params ps)"
proof -
  show "get_current_round (test_db ps) = 0"
    by (simp add: test_db_def cons_db_empty_def get_current_round_def)
  have "last_entry (\<lambda>k. k \<le> r) (entries (cons_params_schedule (test_db ps))) = Some (0, 1)"
    by (auto simp: test_db_def tb.last_Some)
  then show "params_at (test_db ps) r = Some (test_params ps)" by (simp add: params_at_def test_db_def)
qed

subsection \<open>Transactions\<close>

text \<open>A handler that returns an error or panics leaves the node as it was: neither a table nor a
  channel changes.\<close>

lemma failed_handlers_change_nothing:
  "(fst (process_vote_response cr our i resp s) = Ok () \<or> snd (process_vote_response cr our i resp s) = s) \<and>
   (fst (process_notarized_block_response cr our nresp s) = Ok () \<or>
      snd (process_notarized_block_response cr our nresp s) = s) \<and>
   (fst (process_finality_vote_update_response cr k update s) = Ok () \<or>
      snd (process_finality_vote_update_response cr k update s) = s)"
  by (auto simp: process_vote_response_def process_notarized_block_response_def
      process_finality_vote_update_response_def write_with_expect_falliable_def split: res.splits)

text \<open>C3. Whatever messages a node gets, in whatever order, and whichever of them fail: a node that
  started on a new database keeps its invariant. Notarized blocks carry a quorum of valid
  votes for them, all votes are valid, votes of the current round match its proposal, nothing
  is recorded past the current round, and the channel shows the round of the database.\<close>

theorem consensus_invariant:
  assumes "cons_init cr params cons_db_empty our pinned = Ok s" "params_ok cr params"
    and "list_all cons_admissible inps"
  shows "node_inv cr (cons_run cr our inps s)"
proof -
  obtain cur d where i: "init_tx cr params pinned cons_db_empty = Ok (cur, d)"
    and o: "open_internal cr our cur d = (Ok s :: (init_error, _) res)"
    using assms(1) by (auto simp: cons_init_def res_simps)
  from cons_inv_init [OF i assms(2)] have "cons_inv cr d" "cur = get_current_round d" "cur \<noteq> - 1"
    by simp_all
  then have "node_inv cr s" using open_internal_inv o by blast
  then show ?thesis unfolding cons_run_def by (rule cn.history_inv [OF _ assms(3)])
qed

lemma test_node:
  assumes "ps \<noteq> []" "length ps \<le> 255"
  shows "\<exists>s. cons_init test_crypto (test_params ps) cons_db_empty our None = Ok s"
proof -
  have pins: "tbl_get (cons_blocks_pinned (test_db ps)) r = None" for r
    by (simp add: test_db_def cons_db_empty_def)
  have "\<exists>s. open_internal test_crypto our 0 (test_db ps) = (Ok s :: (init_error, _) res)"
    by (rule open_internal_ok [OF test_db_inv [OF assms]]) (simp_all add: pins)
  then show ?thesis using test_db_init [of ps] by (auto simp: cons_init_def)
qed

theorem consensus_invariant_witness:
  "\<exists>s. node_inv test_crypto (cons_run test_crypto None
     [InVote 0 (Vote \<lparr>inner = test_header 0 0 0, sig = 3\<rparr>), InFinality 7 \<lparr>inner = 4, sig = 5\<rparr>] s)"
proof -
  obtain s where "cons_init test_crypto (test_params [7]) cons_db_empty None None = Ok s"
    using test_node [of "[7]" None] by auto
  then have "node_inv test_crypto (cons_run test_crypto None
     [InVote 0 (Vote \<lparr>inner = test_header 0 0 0, sig = 3\<rparr>), InFinality 7 \<lparr>inner = 4, sig = 5\<rparr>] s)"
    by (rule consensus_invariant) (simp_all add: cons_admissible_def)
  then show ?thesis by (rule exI)
qed

subsection \<open>The end of a round\<close>



text \<open>C5. What no message can take back, whatever the state of the database: the current round never
  goes back, and the proposal recorded for a round, once there, is never replaced, so that a node
  never signs two proposals of a round. Pins and scheduled parameters stay as they were.\<close>

theorem messages_never_take_back:
  "get_current_round (fst s) \<le> get_current_round (fst (cons_run cr our inps s)) \<and>
   map_le (tbl_get (cons_blocks_proposals (fst s)))
     (tbl_get (cons_blocks_proposals (fst (cons_run cr our inps s)))) \<and>
   cons_blocks_pinned (fst (cons_run cr our inps s)) = cons_blocks_pinned (fst s) \<and>
   cons_params_schedule (fst (cons_run cr our inps s)) = cons_params_schedule (fst s)"
  using cons_run_progress [of s cr our inps] by (auto simp: progress_def map_le_def)

subsection \<open>Agreement\<close>

text \<open>Two databases that satisfy the invariant and hold the same parameters of a round notarize the same block in it, provided
  that, outside a set of at most \<open>max_faulty\<close> peers, the votes of the round that the two hold of one peer,
  whose signatures verify, are for the same block.\<close>

lemma notarized_blocks_agree:
  assumes "cons_inv cr d1" "cons_inv cr d2"
    and "params_at d1 r = Some p" "params_at d2 r = Some p"
    and "tbl_get (cons_blocks_notarized d1) r = Some b1" "tbl_get (cons_blocks_notarized d2) r = Some b2"
    and "card F \<le> max_faulty (of_nat (length (peers p)))"
    and "\<And>i v w. i \<notin> F \<Longrightarrow> tbl_get (cons_votes_block d1) (r, i) = Some v \<Longrightarrow> tbl_get (cons_votes_block d2) (r, i) = Some w \<Longrightarrow>
       sig_valid cr (peers p) (header_sign_hash cr (inner v)) i (sig v) \<Longrightarrow>
       sig_valid cr (peers p) (header_sign_hash cr (inner w)) i (sig w) \<Longrightarrow> inner v = inner w"
  shows "b1 = b2"
proof -
  have m: "mid_inv cr d1" "mid_inv cr d2" using assms(1,2) by (simp_all add: cons_inv_def)
  obtain p1 where v1: "verify_sigs cr (header_sign_hash cr) (notarized_new b1 (get_votes_proposal d1 r)) p1 = Ok ()"
    and "params_at d1 r = Some p1" by (rule notarized_block_verifies [OF m(1) assms(5)])
  obtain p2 where v2: "verify_sigs cr (header_sign_hash cr) (notarized_new b2 (get_votes_proposal d2 r)) p2 = Ok ()"
    and "params_at d2 r = Some p2" by (rule notarized_block_verifies [OF m(2) assms(6)])
  have [simp]: "p1 = p" "p2 = p" using assms(3,4) \<open>params_at d1 r = Some p1\<close> \<open>params_at d2 r = Some p2\<close> by simp_all
  have ne: "peers p \<noteq> []" using params_at_ok [OF mid_inv_sched [OF m(1)] assms(3)] by (simp add: params_ok_def)
  have b: "\<And>i v. tbl_get (cons_votes_block d1) (r, i) = Some v \<Longrightarrow> inner v = b1"
    "\<And>i w. tbl_get (cons_votes_block d2) (r, i) = Some w \<Longrightarrow> inner w = b2"
    using m assms(5,6) unfolding mid_inv_def notar_inv_def by blast+
  from notarizations_share_honest [OF v1 [simplified] v2 [simplified] ne assms(7)]
  obtain i s t where "i \<notin> F" "tbl_get (sigs (notarized_new b1 (get_votes_proposal d1 r))) i = Some s"
    "tbl_get (sigs (notarized_new b2 (get_votes_proposal d2 r))) i = Some t"
    "sig_valid cr (peers p) (header_sign_hash cr b1) i s" "sig_valid cr (peers p) (header_sign_hash cr b2) i t"
    by (auto simp: notarized_new_def)
  then obtain v w where "i \<notin> F" "tbl_get (cons_votes_block d1) (r, i) = Some v" "tbl_get (cons_votes_block d2) (r, i) = Some w"
    "sig_valid cr (peers p) (header_sign_hash cr b1) i (sig v)" "sig_valid cr (peers p) (header_sign_hash cr b2) i (sig w)"
    by (auto simp: notarized_new_proposal_get)
  then show ?thesis using assms(8) b by metis
qed

text \<open>
  A database with one notarized block, over a crypto that tells this block from every other. Its signatures are the key
  and the hash that was signed: the signature of a key verifies, and one of another key or hash does not.
\<close>

definition agree_block :: block_header where
  "agree_block = (test_header 0 0 0)\<lparr>bh_payload_len := 1, consensus_params_hash := 0, payload_hash := 5\<rparr>"

definition agree_crypto :: crypto where
  "agree_crypto = test_crypto\<lparr>blake3 := from_be_bytes, enc_header := (\<lambda>h. if h = agree_block then [1] else []),
     verify_strict := (\<lambda>k h s. s = word_cat k h), sign := (\<lambda>k h. word_cat k h)\<rparr>"

definition agree_db :: cons_db where
  "agree_db = cons_db_empty\<lparr>cons_current_round := Some 1,
     cons_params_schedule := tbl_insert 0 0 tbl_empty, cons_params := tbl_insert 0 (test_params [7]) tbl_empty,
     cons_blocks_notarized := tbl_insert 0 agree_block tbl_empty,
     cons_blocks_payloads := tbl_insert 5 [5] tbl_empty,
     cons_votes_block := tbl_insert (0, 0) \<lparr>inner = agree_block, sig = word_cat (7 :: hash) (1 :: hash)\<rparr> tbl_empty\<rparr>"

lemma agree_sign_hash: "header_sign_hash agree_crypto x = (if x = agree_block then 1 else 0)"
proof -
  have "blake3 agree_crypto = from_be_bytes" by (simp add: agree_crypto_def)
  then have "header_sign_hash agree_crypto x = header_hash agree_crypto x"
    unfolding header_sign_hash_def sign_hash_def using from_be_bytes_prefix [of "bytes_of_string ''bfte'' @ bytes_of_string HEADER_TAG"]
    by simp
  then show ?thesis by (simp add: header_hash_def agree_crypto_def from_be_bytes_def)
qed

lemma agree_params [simp]: "params_at agree_db r = Some (test_params [7])" "get_current_round agree_db = 1"
proof -
  have "last_entry (\<lambda>k. k \<le> r) (entries (cons_params_schedule agree_db)) = Some (0, 0)"
    by (auto simp: agree_db_def tb.last_Some)
  then show "params_at agree_db r = Some (test_params [7])" by (simp add: params_at_def agree_db_def)
  show "get_current_round agree_db = 1" by (simp add: agree_db_def get_current_round_def)
qed

lemma agree_votes: "get_num_votes_proposal agree_db 0 = 1"
proof -
  have "{i. tbl_get (cons_votes_block agree_db) (0, i) \<noteq> None} = {0}"
    by (auto simp: agree_db_def cons_db_empty_def split: if_splits)
  then show ?thesis by (simp add: num_votes_proposal)
qed

lemma agree_fields [simp]:
  "tbl_get (cons_blocks_notarized agree_db) r = (if r = 0 then Some agree_block else None)"
  "tbl_get (cons_votes_block agree_db) k = (if k = (0, 0) then Some \<lparr>inner = agree_block, sig = word_cat (7 :: hash) (1 :: hash)\<rparr> else None)"
  "tbl_get (cons_blocks_proposals agree_db) r = None" "tbl_get (cons_votes_dummy agree_db) k = None"
  "tbl_get (cons_blocks_payloads agree_db) h = (if h = 5 then Some [5] else None)"
  "bh_round agree_block = 0" "\<not> is_dummy agree_block"
  by (simp_all add: agree_db_def cons_db_empty_def agree_block_def test_header_def is_dummy_def)

lemma agree_inv: "cons_inv agree_crypto agree_db"
proof -
  have ho: "header_ok agree_crypto agree_db agree_block"
    by (simp add: header_ok_def) (simp add: agree_block_def test_header_def agree_crypto_def params_hash_def from_be_bytes_def)
  have "quorum_at agree_db 0"
    by (simp add: quorum_at_def agree_votes test_params_def threshold_def max_faulty_def total_def)
  then have "notar_inv agree_crypto agree_db" using ho by (simp add: notar_inv_def)
  moreover have "votes_inv agree_crypto agree_db"
    by (simp add: votes_inv_def vote_ok_def sig_valid_def agree_sign_hash) (simp add: agree_crypto_def test_params_def)
  moreover have "sched_inv agree_crypto agree_db"
    by (simp add: sched_inv_def agree_db_def params_ok_def test_params_def agree_crypto_def params_hash_def
        from_be_bytes_def)
  moreover have "payloads_inv agree_crypto agree_db"
    by (simp add: payloads_inv_def payload_hash_of_def agree_crypto_def from_be_bytes_def)
  ultimately show ?thesis
    by (simp add: cons_inv_def mid_inv_def props_inv_def dummies_inv_def match_inv_def live_inv_def live_round_def)
qed

end
