(* ===== verification/App_Theorems.thy ===== *)
theory App_Theorems
  imports Node_App Meta_Theorems Cons_Theorems
begin

section \<open>Properties of the application layer\<close>

text \<open>
  The application keeps copies of the peer set and of the module configurations in memory. The
  main result here is that they never drift from the tables of the consensus control module, over
  every interleaving of blocks, consensus progress, requests of the user and restarts: these are
  the assertions of \<open>reload_invalidated_copies\<close>, which release builds do not check.
\<close>

subsection \<open>What the transactions of the modules touch\<close>

lemma ctrl_tx_Ok:
  assumes "ctrl_tx i f tx = Ok (a, tx')"
  obtains m where "f (wtx_new (app_ctrl (dbtx tx) i)) = Ok (a, m)"
    "dbtx tx' = (dbtx tx)\<lparr>app_ctrl := (app_ctrl (dbtx tx))(i := dbtx m)\<rparr>"
  using assms by (auto simp: ctrl_tx_def module_tx_def res_simps)

lemma meta_tx_Ok:
  assumes "meta_tx i f tx = Ok (a, tx')"
  obtains m where "f (wtx_new (app_meta (dbtx tx) i)) = Ok (a, m)"
    "dbtx tx' = (dbtx tx)\<lparr>app_meta := (app_meta (dbtx tx))(i := dbtx m)\<rparr>"
  using assms by (auto simp: meta_tx_def module_tx_def res_simps)

text \<open>A module instance that fits its configuration and its place: the control module is module 0.\<close>

definition inst_ok :: "app_env \<Rightarrow> module_id \<Rightarrow> dyn_module_with_config \<Rightarrow> bool" where
  "inst_ok env i m \<longleftrightarrow> (mc_kind (dm_config m) = MODULE_KIND_CONSENSUS_CTRL \<longleftrightarrow> i = CONSENSUS_CTRL_MODULE_ID) \<and>
     (case dm_inner m of
        CtrlInst cm \<Rightarrow> i = CONSENSUS_CTRL_MODULE_ID \<and> cm_modules_inits cm = inits_data (env_inits env)
      | MetaInst _ \<Rightarrow> i \<noteq> CONSENSUS_CTRL_MODULE_ID)"

definition insts_ok :: "app_env \<Rightarrow> modules \<Rightarrow> bool" where
  "insts_ok env mods \<longleftrightarrow> (\<forall>i m. tbl_get mods i = Some m \<longrightarrow> inst_ok env i m)"

text \<open>The invariant of the control module, of which the instance only matters by its constructors.\<close>

definition ctrl_view :: "app_env \<Rightarrow> ctrl_module" where
  "ctrl_view env = \<lparr>cm_version = ConsensusVersion 0 0, cm_peer_pubkey = None,
     cm_modules_inits = inits_data (env_inits env)\<rparr>"

lemma ctrl_inv_view: "cm_modules_inits cm = inits_data (env_inits env) \<Longrightarrow> ctrl_inv cm d = ctrl_inv (ctrl_view env) d"
  by (simp add: ctrl_inv_def kind_is_singleton_def ctrl_view_def)

lemma vote_step_view:
  "cm_modules_inits cm = inits_data (env_inits env) \<Longrightarrow> vote_step cm cd d es d' = vote_step (ctrl_view env) cd d es d'"
  by (simp add: vote_step_def ctrl_inv_view)

abbreviation ctrl0 :: "app_db \<Rightarrow> ctrl_db" where
  "ctrl0 d \<equiv> app_ctrl d CONSENSUS_CTRL_MODULE_ID"

definition is_ctrl_effect :: "module_citem_effect \<Rightarrow> bool" where
  "is_ctrl_effect e \<longleftrightarrow> effect_module_kind e = MODULE_KIND_CONSENSUS_CTRL"

lemma tag_ctrl [simp]:
  "filter is_ctrl_effect (tag_effects MODULE_KIND_CONSENSUS_CTRL es) = tag_effects MODULE_KIND_CONSENSUS_CTRL es"
  "k \<noteq> MODULE_KIND_CONSENSUS_CTRL \<Longrightarrow> filter is_ctrl_effect (tag_effects k es) = []"
  by (simp_all add: tag_effects_def is_ctrl_effect_def filter_empty_conv)

lemma no_parts:
  "process_parts module_process_input err mods parts (es, tx) = Ok r \<Longrightarrow> parts = [] \<and> r = (es, tx)"
  "process_parts module_process_output err mods parts (es, tx) = Ok r \<Longrightarrow> parts = [] \<and> r = (es, tx)"
  by (cases parts; auto simp: process_parts_def module_process_input_def module_process_output_def ctrl_tx_def
      meta_tx_def module_tx_def ctrl_process_input_def ctrl_process_output_def meta_process_input_def
      meta_process_output_def res_simps Let_def split: option.splits dyn_module.splits)+

text \<open>A consensus item changes the control tables only by a step of the control module.\<close>

definition ctrl_step :: "app_env \<Rightarrow> ctrl_db \<Rightarrow> module_citem_effect list \<Rightarrow> ctrl_db \<Rightarrow> bool" where
  "ctrl_step env d effects d' \<longleftrightarrow> (\<exists>es. filter is_ctrl_effect effects = tag_effects MODULE_KIND_CONSENSUS_CTRL es \<and>
     vote_step (ctrl_view env) (env_ctrl_codec env) d es d')"

lemma ctrl_step_same:
  "ctrl_inv (ctrl_view env) d \<Longrightarrow> filter is_ctrl_effect effects = [] \<Longrightarrow> ctrl_step env d effects d"
  unfolding ctrl_step_def by (intro exI [of _ "[]"]) (simp add: tag_effects_def vote_step_same)

lemma process_item_step:
  assumes "process_item env mods voter ps c tx = Ok (effects, tx')"
    and mods: "insts_ok env mods" and inv: "ctrl_inv (ctrl_view env) (ctrl0 (dbtx tx))"
  shows "ctrl_step env (ctrl0 (dbtx tx)) effects (ctrl0 (dbtx tx'))" "app_cons (dbtx tx') = app_cons (dbtx tx)"
proof -
  have "ctrl_step env (ctrl0 (dbtx tx)) effects (ctrl0 (dbtx tx')) \<and> app_cons (dbtx tx') = app_cons (dbtx tx)"
  proof (cases c)
    case (Transaction t)
    then have "effects = []" "tx' = tx"
      using assms(1) by (auto simp: process_item_def res_simps dest!: no_parts)
    then show ?thesis using ctrl_step_same [OF inv] by simp
  next
    case (PeerCItem mc)
    let ?i = "md_module_id mc"
    obtain m es where m: "tbl_get mods ?i = Some m"
      and call: "module_process_citem env ?i (dm_inner m) voter ps (md_inner mc) tx = Ok (es, tx')"
      and eff: "effects = tag_effects (mc_kind (dm_config m)) es"
      using assms(1) PeerCItem
      by (auto simp: process_item_def process_peer_citem_def Let_def res_simps split: option.splits)
    have ok: "inst_ok env ?i m" using mods m by (simp add: insts_ok_def)
    show ?thesis
    proof (cases "dm_inner m")
      case (CtrlInst cm)
      then have i: "?i = CONSENSUS_CTRL_MODULE_ID" "cm_modules_inits cm = inits_data (env_inits env)"
        "mc_kind (dm_config m) = MODULE_KIND_CONSENSUS_CTRL"
        using ok by (simp_all add: inst_ok_def)
      obtain m' where p: "ctrl_process_citem cm (env_ctrl_codec env) voter ps (md_inner mc) (wtx_new (ctrl0 (dbtx tx))) = Ok (es, m')"
        and d: "dbtx tx' = (dbtx tx)\<lparr>app_ctrl := (app_ctrl (dbtx tx))(?i := dbtx m')\<rparr>"
        using call CtrlInst i(1) by (auto simp: module_process_citem_def elim: ctrl_tx_Ok)
      have "vote_step (ctrl_view env) (env_ctrl_codec env) (ctrl0 (dbtx tx)) es (dbtx m')"
        using ctrl_process_citem_step [OF _ p] inv i(2) by (simp add: vote_step_view ctrl_inv_view)
      then show ?thesis using d i by (auto simp: ctrl_step_def eff)
    next
      case (MetaInst mm)
      then have i: "?i \<noteq> CONSENSUS_CTRL_MODULE_ID" "mc_kind (dm_config m) \<noteq> MODULE_KIND_CONSENSUS_CTRL"
        using ok by (simp_all add: inst_ok_def)
      obtain md where d: "dbtx tx' = (dbtx tx)\<lparr>app_meta := (app_meta (dbtx tx))(?i := md)\<rparr>"
        using call MetaInst by (auto simp: module_process_citem_def elim: meta_tx_Ok)
      then show ?thesis using ctrl_step_same [OF inv] i by (simp add: eff)
    qed
  qed
  then show "ctrl_step env (ctrl0 (dbtx tx)) effects (ctrl0 (dbtx tx'))" "app_cons (dbtx tx') = app_cons (dbtx tx)"
    by simp_all
qed

text \<open>The encoder round trip that the application relies on (\<open>expect("Can't fail to decode")\<close>).\<close>

definition codec_ok :: "ctrl_codec \<Rightarrow> bool" where
  "codec_ok cd \<longleftrightarrow> (\<forall>ps. dec_params_change cd (enc_ctrl_effect cd (ConsensusParamsChange ps)) = Some ps)"

definition changes_peers :: "module_citem_effect \<Rightarrow> bool" where
  "changes_peers e \<longleftrightarrow> is_ctrl_effect e \<and> effect_eid (effect_inner e) = 2"

lemma core_pre_step:
  assumes "core_pre_effect env ch r ts e (ps, tx) = (Ok (ps', tx') :: ('e, _) res)"
  shows "app_ctrl (dbtx tx') = app_ctrl (dbtx tx)" "app_meta (dbtx tx') = app_meta (dbtx tx)"
    "if changes_peers e then dec_params_change (env_ctrl_codec env) (effect_raw (effect_inner e)) = Some ps' else ps' = ps"
    "if changes_peers e
     then consensus_params_change_tx (env_crypto env) ch r ts ps' (app_cons (dbtx tx)) = (Ok (app_cons (dbtx tx')) :: ('e, _) res)
     else app_cons (dbtx tx') = app_cons (dbtx tx)"
  using assms
  by (auto simp: core_pre_effect_def changes_peers_def is_ctrl_effect_def effect_decode_def res_simps
      split: if_splits res.splits option.splits)

lemma core_pre_steps:
  "process_consensus_change_effects_core_pre env ch r ts effects (ps, tx) = (Ok (ps', tx') :: ('e, _) res) \<Longrightarrow>
     app_ctrl (dbtx tx') = app_ctrl (dbtx tx) \<and> app_meta (dbtx tx') = app_meta (dbtx tx) \<and>
     (filter changes_peers effects = [] \<longrightarrow> ps' = ps \<and> app_cons (dbtx tx') = app_cons (dbtx tx)) \<and>
     (\<forall>e. filter changes_peers effects = [e] \<longrightarrow>
        dec_params_change (env_ctrl_codec env) (effect_raw (effect_inner e)) = Some ps' \<and>
        consensus_params_change_tx (env_crypto env) ch r ts ps' (app_cons (dbtx tx)) = (Ok (app_cons (dbtx tx')) :: ('e, _) res))"
proof (induction effects arbitrary: ps tx)
  case Nil
  then show ?case by (simp add: process_consensus_change_effects_core_pre_def)
next
  case (Cons e effects)
  obtain ps1 tx1 where s: "core_pre_effect env ch r ts e (ps, tx) = (Ok (ps1, tx1) :: ('e, _) res)"
    and r: "process_consensus_change_effects_core_pre env ch r ts effects (ps1, tx1) = (Ok (ps', tx') :: ('e, _) res)"
    using Cons.prems by (auto simp: process_consensus_change_effects_core_pre_def res_simps)
  show ?case using Cons.IH [OF r] core_pre_step [OF s] by (auto split: if_splits)
qed

lemma process_effects_ctrl:
  assumes "all_process_effects env mods ps effects tx = Ok tx'" "insts_ok env mods"
  shows "app_ctrl (dbtx tx') = app_ctrl (dbtx tx)" "app_cons (dbtx tx') = app_cons (dbtx tx)"
proof -
  have "app_ctrl (dbtx tx') = app_ctrl (dbtx tx) \<and> app_cons (dbtx tx') = app_cons (dbtx tx)"
  proof (rule res_fold_invariant [OF assms(1) [unfolded all_process_effects_def]], simp)
    fix x and t t' :: app_tx
    assume i: "app_ctrl (dbtx t) = app_ctrl (dbtx tx) \<and> app_cons (dbtx t) = app_cons (dbtx tx)"
    assume st: "(case x of (i, m) \<Rightarrow> \<lambda>tx.
       res_bind (map_err (\<lambda>e. ProcessingEffectFailed e i) (module_process_effects env i (dm_inner m) ps effects tx))
         (\<lambda>(u, tx). Ok tx)) t = Ok t'"
    obtain j m where x: "x = (j, m)" by (cases x)
    have "module_process_effects env j (dm_inner m) ps effects t = Ok ((), t')"
      using st by (auto simp: x res_simps)
    then have "app_ctrl (dbtx t') = app_ctrl (dbtx t) \<and> app_cons (dbtx t') = app_cons (dbtx t)"
      by (auto simp: module_process_effects_def unit_result_def ctrl_process_effects_def
          split: dyn_module.splits elim!: ctrl_tx_Ok meta_tx_Ok)
    with i show "app_ctrl (dbtx t') = app_ctrl (dbtx tx) \<and> app_cons (dbtx t') = app_cons (dbtx tx)" by simp
  qed
  then show "app_ctrl (dbtx tx') = app_ctrl (dbtx tx)" "app_cons (dbtx tx') = app_cons (dbtx tx)" by simp_all
qed

lemma core_post_keeps:
  "process_consensus_change_effects_core_post effects mc =
     (if \<exists>e \<in> set effects. invalidates_configs e then None else mc)"
  unfolding process_consensus_change_effects_core_post_def
  by (induction effects arbitrary: mc) auto

lemma filter_changes_peers:
  "filter is_ctrl_effect effects = tag_effects MODULE_KIND_CONSENSUS_CTRL es \<Longrightarrow>
     filter changes_peers effects = tag_effects MODULE_KIND_CONSENSUS_CTRL (filter (\<lambda>e. effect_eid e = 2) es)"
proof -
  assume f: "filter is_ctrl_effect effects = tag_effects MODULE_KIND_CONSENSUS_CTRL es"
  have "filter changes_peers effects = filter (\<lambda>e. effect_eid (effect_inner e) = 2) (filter is_ctrl_effect effects)"
    by (simp add: changes_peers_def [abs_def])
  then show ?thesis unfolding f by (simp add: tag_effects_def filter_map o_def)
qed

lemma filter_invalidates:
  "filter is_ctrl_effect effects = tag_effects MODULE_KIND_CONSENSUS_CTRL es \<Longrightarrow>
     e \<in> set es \<Longrightarrow> effect_eid e = 3 \<or> effect_eid e = 4 \<Longrightarrow> \<exists>e \<in> set effects. invalidates_configs e"
proof -
  assume f: "filter is_ctrl_effect effects = tag_effects MODULE_KIND_CONSENSUS_CTRL es"
    and e: "e \<in> set es" "effect_eid e = 3 \<or> effect_eid e = 4"
  let ?e = "\<lparr>effect_module_kind = MODULE_KIND_CONSENSUS_CTRL, effect_inner = e\<rparr>"
  have "?e \<in> set (tag_effects MODULE_KIND_CONSENSUS_CTRL es)" using e(1) by (simp add: tag_effects_def)
  then have "?e \<in> set effects" unfolding f [symmetric] by simp
  moreover have "invalidates_configs ?e" using e(2) by (auto simp: invalidates_configs_def)
  ultimately show ?thesis by blast
qed

text \<open>One committed transaction of the application.\<close>

lemma process_citem_body_step:
  assumes ok: "process_citem_body env ch mods pos ts voter (get_peer_set (ctrl0 (dbtx tx))) mc c tx = Ok ((ps', mc'), tx')"
    and mods: "insts_ok env mods" and inv: "ctrl_inv (ctrl_view env) (ctrl0 (dbtx tx))" and cd: "codec_ok (env_ctrl_codec env)"
  shows "ctrl_inv (ctrl_view env) (ctrl0 (dbtx tx'))" "configs_grow (ctrl0 (dbtx tx)) (ctrl0 (dbtx tx'))"
    "ps' = get_peer_set (ctrl0 (dbtx tx'))"
    "mc' = None \<or> mc' = mc \<and> modules_configs (ctrl0 (dbtx tx')) = modules_configs (ctrl0 (dbtx tx))"
    "ps' = get_peer_set (ctrl0 (dbtx tx)) \<and> app_cons (dbtx tx') = app_cons (dbtx tx) \<or>
     consensus_params_change_tx (env_crypto env) ch (fst pos) ts ps' (app_cons (dbtx tx)) =
       (Ok (app_cons (dbtx tx')) :: (process_citem_error, _) res)"
proof -
  let ?ps = "get_peer_set (ctrl0 (dbtx tx))"
  obtain effects tx1 tx2 tx3 where it: "process_item env mods voter ?ps c tx = Ok (effects, tx1)"
    and pre: "process_consensus_change_effects_core_pre env ch (fst pos) ts effects (?ps, tx1) =
      (Ok (ps', tx2) :: (process_citem_error, _) res)"
    and ef: "all_process_effects env mods ps' effects tx2 = Ok tx3"
    and mc': "mc' = process_consensus_change_effects_core_post effects mc"
    and tx': "tx' = tx3\<lparr>dbtx := save_cur_round_and_idx (fst pos) (snd pos) (dbtx tx3)\<rparr>"
    using ok by (auto simp: process_citem_body_def res_simps)
  obtain es where es: "filter is_ctrl_effect effects = tag_effects MODULE_KIND_CONSENSUS_CTRL es"
    and vs: "vote_step (ctrl_view env) (env_ctrl_codec env) (ctrl0 (dbtx tx)) es (ctrl0 (dbtx tx1))"
    using process_item_step(1) [OF it mods inv] by (auto simp: ctrl_step_def)
  have d: "ctrl0 (dbtx tx') = ctrl0 (dbtx tx1)"
    using core_pre_steps [OF pre] process_effects_ctrl(1) [OF ef mods]
    by (simp add: tx' save_cur_round_and_idx_def)
  show "ctrl_inv (ctrl_view env) (ctrl0 (dbtx tx'))" "configs_grow (ctrl0 (dbtx tx)) (ctrl0 (dbtx tx'))"
    using vs by (simp_all add: d vote_step_def)
  show "ps' = get_peer_set (ctrl0 (dbtx tx'))"
    using vs core_pre_steps [OF pre] cd
    by (auto simp: d vote_step_def peers_announced_def filter_changes_peers [OF es] tag_effects_def codec_ok_def
        ctrl_encode_def effect_encode_def)
  show "mc' = None \<or> mc' = mc \<and> modules_configs (ctrl0 (dbtx tx')) = modules_configs (ctrl0 (dbtx tx))"
    using vs filter_invalidates [OF es] by (auto simp: d mc' core_post_keeps vote_step_def configs_announced_def)
  have c: "app_cons (dbtx tx1) = app_cons (dbtx tx)" "app_cons (dbtx tx') = app_cons (dbtx tx2)"
    using process_item_step(2) [OF it mods inv] process_effects_ctrl(2) [OF ef mods]
    by (simp_all add: tx' save_cur_round_and_idx_def)
  show "ps' = ?ps \<and> app_cons (dbtx tx') = app_cons (dbtx tx) \<or>
     consensus_params_change_tx (env_crypto env) ch (fst pos) ts ps' (app_cons (dbtx tx)) =
       (Ok (app_cons (dbtx tx')) :: (process_citem_error, _) res)"
    using vs core_pre_steps [OF pre]
    by (auto simp: c vote_step_def peers_announced_def filter_changes_peers [OF es] tag_effects_def)
qed

subsection \<open>Setting up the modules\<close>

text \<open>Constructors are registered under their own kind (\<open>bfte/src/lib.rs\<close>), and that of the control module
  is there (asserted by \<open>NodeApp::new\<close>).\<close>

definition env_ok :: "app_env \<Rightarrow> bool" where
  "env_ok env \<longleftrightarrow> tbl_get (env_inits env) MODULE_KIND_CONSENSUS_CTRL = Some CtrlModuleInit \<and> (\<forall>k i. tbl_get (env_inits env) k = Some i \<longrightarrow>
     (i = CtrlModuleInit \<longleftrightarrow> k = MODULE_KIND_CONSENSUS_CTRL))"

text \<open>Configurations in which the control module is module 0 and no other.\<close>

definition configs_ok :: "configs \<Rightarrow> bool" where
  "configs_ok cfgs \<longleftrightarrow> (\<forall>i cfg. tbl_get cfgs i = Some cfg \<longrightarrow>
     (mc_kind cfg = MODULE_KIND_CONSENSUS_CTRL \<longleftrightarrow> i = CONSENSUS_CTRL_MODULE_ID))"

definition same_ctrl :: "ctrl_db \<Rightarrow> ctrl_db \<Rightarrow> bool" where
  "same_ctrl d d' \<longleftrightarrow> ctrl_peers d' = ctrl_peers d \<and> modules_configs d' = modules_configs d"

lemma same_ctrl_inv: "same_ctrl d d' \<Longrightarrow> ctrl_inv cm d' = ctrl_inv cm d"
  by (simp add: same_ctrl_def ctrl_inv_def get_peer_set_def)

lemma same_ctrl_peers: "same_ctrl d d' \<Longrightarrow> get_peer_set d' = get_peer_set d"
  by (simp add: same_ctrl_def get_peer_set_def)

lemma same_ctrl_trans: "same_ctrl d e \<Longrightarrow> same_ctrl e f \<Longrightarrow> same_ctrl d f"
  by (simp add: same_ctrl_def)

lemma module_init_call_ok:
  assumes "module_init_call env init i v d = Ok (m, d', props)"
    and "init = CtrlModuleInit \<longleftrightarrow> i = CONSENSUS_CTRL_MODULE_ID"
  shows "same_ctrl (ctrl0 d) (ctrl0 d')" "app_cons d' = app_cons d" "app_cur_round d' = app_cur_round d"
    "(case m of CtrlInst cm \<Rightarrow> i = CONSENSUS_CTRL_MODULE_ID \<and> cm_modules_inits cm = inits_data (env_inits env)
       | MetaInst _ \<Rightarrow> i \<noteq> CONSENSUS_CTRL_MODULE_ID)"
  using assms
  by (auto simp: module_init_call_def ctrl_init_def meta_init_def ctrl_init_db_tx_def Let_def res_simps same_ctrl_def
      split: dyn_module_init.splits if_splits)

text \<open>The invariant of the loop over the configurations.\<close>

definition setup_inv :: "app_env \<Rightarrow> app_db \<Rightarrow> setup_state \<Rightarrow> bool" where
  "setup_inv env d st \<longleftrightarrow> insts_ok env (st_existing st) \<and> insts_ok env (st_modules st) \<and>
     same_ctrl (ctrl0 d) (ctrl0 (st_db st)) \<and> app_cons (st_db st) = app_cons d \<and>
     app_cur_round (st_db st) = app_cur_round d"

lemma insts_ok_simps [simp]:
  "insts_ok env tbl_empty"
  "insts_ok env mods \<Longrightarrow> insts_ok env (tbl_remove i mods)"
  "insts_ok env mods \<Longrightarrow> inst_ok env i m \<Longrightarrow> insts_ok env (tbl_insert i m mods)"
  by (auto simp: insts_ok_def split: if_splits)

lemma setup_new_inv:
  assumes "setup_inv env d st" "setup_new env i cfg st = Ok st'" "env_ok env"
    and "mc_kind cfg = MODULE_KIND_CONSENSUS_CTRL \<longleftrightarrow> i = CONSENSUS_CTRL_MODULE_ID"
  shows "setup_inv env d st'"
proof -
  obtain init m d' props where init: "tbl_get (env_inits env) (mc_kind cfg) = Some init"
    and call: "module_init_call env init i (mc_version cfg) (st_db st) = Ok (m, d', props)"
    and st': "st' = st\<lparr>st_changed := True, st_existing := tbl_remove i (st_existing st),
                     st_modules := tbl_insert i \<lparr>dm_config = cfg, dm_inner = m\<rparr> (st_modules st),
                     st_db := d', st_props := (st_props st)(i := props)\<rparr>"
    using assms(2) by (auto simp: setup_new_def res_simps split: option.splits)
  have "init = CtrlModuleInit \<longleftrightarrow> i = CONSENSUS_CTRL_MODULE_ID"
    using assms(3,4) init by (auto simp: env_ok_def)
  note c = module_init_call_ok [OF call this]
  have "inst_ok env i \<lparr>dm_config = cfg, dm_inner = m\<rparr>" using c(4) assms(4) by (simp add: inst_ok_def)
  then show ?thesis using assms(1) c(1-3) same_ctrl_trans by (auto simp: setup_inv_def st')
qed

lemma setup_module_inv:
  assumes "setup_inv env d st" "setup_module env e st = Ok st'" "env_ok env"
    and "mc_kind (snd e) = MODULE_KIND_CONSENSUS_CTRL \<longleftrightarrow> fst e = CONSENSUS_CTRL_MODULE_ID"
  shows "setup_inv env d st'"
proof -
  obtain i cfg where e: "e = (i, cfg)" by (cases e)
  show ?thesis
  proof (cases "setup_new env i cfg st = Ok st'")
    case True
    then show ?thesis using setup_new_inv assms(1,3,4) e by simp
  next
    case False
    then obtain m where "tbl_get (st_existing st) i = Some m"
      "st' = st\<lparr>st_modules := tbl_insert i m (st_modules st), st_existing := tbl_remove i (st_existing st)\<rparr>"
      using assms(2) by (auto simp: e setup_module_def split: option.splits if_splits)
    then show ?thesis using assms(1) by (auto simp: setup_inv_def) (simp add: insts_ok_def)
  qed
qed

lemma setup_modules_to_inv:
  assumes "setup_modules_to env cfgs s = Ok (changed, s')" "insts_ok env (as_modules s)" "env_ok env" "configs_ok cfgs"
  shows "insts_ok env (as_modules s')" "same_ctrl (ctrl0 (as_db s)) (ctrl0 (as_db s'))"
    "as_peer_set s' = as_peer_set s" "as_configs s' = as_configs s" "app_cons (as_db s') = app_cons (as_db s)"
proof -
  obtain st where f: "res_fold (setup_module env) (entries cfgs)
         \<lparr>st_existing = as_modules s, st_modules = tbl_empty, st_changed = False,
          st_db = as_db s, st_props = as_props s\<rparr> = Ok st"
    and s': "s' = s\<lparr>as_db := st_db st, as_props := st_props st, as_modules := st_modules st,
         as_modules_changed := (if st_changed st then as_modules_changed s + 1 else as_modules_changed s)\<rparr>"
    using assms(1) by (auto simp: setup_modules_to_def setup_modules_to_static_def res_simps)
  have "setup_inv env (as_db s) st"
  proof (rule res_fold_invariant [OF f])
    show "setup_inv env (as_db s) \<lparr>st_existing = as_modules s, st_modules = tbl_empty, st_changed = False,
          st_db = as_db s, st_props = as_props s\<rparr>"
      using assms(2) by (simp add: setup_inv_def same_ctrl_def)
  next
    fix e st1 st2
    assume e: "e \<in> set (entries cfgs)" "setup_inv env (as_db s) st1" "setup_module env e st1 = Ok st2"
    have "tbl_get cfgs (fst e) = Some (snd e)" using e(1) tb.scan_get [of "fst e" "snd e" cfgs] by simp
    then show "setup_inv env (as_db s) st2"
      using setup_module_inv [OF e(2,3) assms(3)] assms(4) by (simp add: configs_ok_def)
  qed
  then show "insts_ok env (as_modules s')" "same_ctrl (ctrl0 (as_db s)) (ctrl0 (as_db s'))"
    "as_peer_set s' = as_peer_set s" "as_configs s' = as_configs s" "app_cons (as_db s') = app_cons (as_db s)"
    by (simp_all add: setup_inv_def s')
qed

subsection \<open>The invariant of the application\<close>

lemma fold_insert_get:
  "distinct (map fst es) \<Longrightarrow>
     tbl_get (fold (\<lambda>(k, i). tbl_insert k (f i)) es t) k =
       (case map_of es k of Some i \<Rightarrow> Some (f i) | None \<Rightarrow> tbl_get t k)"
  by (induction es arbitrary: t) (auto split: option.splits simp: map_of_eq_None_iff image_iff)

lemma inits_data_get: "tbl_get (inits_data t) k = map_option init_data (tbl_get t k)"
  unfolding inits_data_def
  using fold_insert_get [OF sorted_keys_distinct [OF entries_sorted [of t]], of init_data tbl_empty k]
  by (simp add: tbl_get_def [of t] tbl_get_def [of "tbl_empty"] tbl_empty.rep_eq split: option.splits)

definition ctrl_ok :: "app_env \<Rightarrow> ctrl_db \<Rightarrow> bool" where
  "ctrl_ok env d \<longleftrightarrow> ctrl_inv (ctrl_view env) d \<and>
     (\<exists>cfg. tbl_get (modules_configs d) CONSENSUS_CTRL_MODULE_ID = Some cfg \<and> mc_kind cfg = MODULE_KIND_CONSENSUS_CTRL)"

lemma ctrl_ok_configs:
  assumes "ctrl_ok env d" "env_ok env"
  shows "configs_ok (modules_configs d)"
proof -
  obtain cfg0 where c0: "tbl_get (modules_configs d) CONSENSUS_CTRL_MODULE_ID = Some cfg0"
    "mc_kind cfg0 = MODULE_KIND_CONSENSUS_CTRL" using assms(1) by (auto simp: ctrl_ok_def)
  have s: "kind_is_singleton (ctrl_view env) MODULE_KIND_CONSENSUS_CTRL"
    using assms(2) by (simp add: kind_is_singleton_def ctrl_view_def inits_data_get env_ok_def init_data_def ctrl_module_init_def)
  show ?thesis
    unfolding configs_ok_def
  proof (intro allI impI iffI)
    fix i cfg
    assume "tbl_get (modules_configs d) i = Some cfg" "mc_kind cfg = MODULE_KIND_CONSENSUS_CTRL"
    then show "i = CONSENSUS_CTRL_MODULE_ID"
      using assms(1) c0 s unfolding ctrl_ok_def ctrl_inv_def by metis
  qed (use c0 in auto)
qed

lemma ctrl_ok_step:
  "ctrl_ok env d \<Longrightarrow> ctrl_inv (ctrl_view env) d' \<Longrightarrow> configs_grow d d' \<Longrightarrow> ctrl_ok env d'"
  unfolding ctrl_ok_def configs_grow_def by metis

lemma ctrl_ok_same: "same_ctrl d d' \<Longrightarrow> ctrl_ok env d' = ctrl_ok env d"
  by (simp add: ctrl_ok_def same_ctrl_inv) (simp add: same_ctrl_def)

definition copies_ok :: "app_state \<Rightarrow> bool" where
  "copies_ok s \<longleftrightarrow>
     (\<forall>ps. as_peer_set s = Some ps \<longrightarrow> ps = get_peer_set (ctrl0 (as_db s))) \<and>
     (\<forall>cfgs. as_configs s = Some cfgs \<longrightarrow> cfgs = modules_configs (ctrl0 (as_db s)))"

definition app_inv :: "app_env \<Rightarrow> app_state \<Rightarrow> bool" where
  "app_inv env s \<longleftrightarrow> insts_ok env (as_modules s) \<and> ctrl_ok env (ctrl0 (as_db s)) \<and> copies_ok s"

lemma reload_inv:
  assumes "app_inv env s" "env_ok env" "reload_invalidated_copies env s = Ok s'"
  shows "app_inv env s'" "as_peer_set s' = Some (get_peer_set (ctrl0 (as_db s')))"
    "as_configs s' = Some (modules_configs (ctrl0 (as_db s')))"
proof -
  let ?s1 = "s\<lparr>as_peer_set := Some (get_peer_set (ctrl0 (as_db s)))\<rparr>"
  have s1: "(case as_peer_set s of
         Some _ \<Rightarrow> Ok s
       | None \<Rightarrow> res_bind (consensus_ctrl_module_expect s) (\<lambda>_.
           Ok ?s1)) = (Ok x :: (whatever, _) res) \<Longrightarrow> x = ?s1" for x
    using assms(1) by (auto simp: app_inv_def copies_ok_def res_simps split: option.splits)
  have inv1: "app_inv env ?s1" using assms(1) by (simp add: app_inv_def copies_ok_def)
  have "app_inv env s' \<and> as_peer_set s' = Some (get_peer_set (ctrl0 (as_db s'))) \<and>
    as_configs s' = Some (modules_configs (ctrl0 (as_db s')))"
  proof (cases "as_configs s")
    case (Some cfgs)
    then have "s' = ?s1" using assms(3) s1 by (auto simp: reload_invalidated_copies_def res_simps)
    then show ?thesis using inv1 Some by (auto simp: app_inv_def copies_ok_def)
  next
    case None
    let ?c = "modules_configs (ctrl0 (as_db s))"
    obtain changed where su: "setup_modules_to env ?c (?s1\<lparr>as_configs := Some ?c\<rparr>) = Ok (changed, s')"
      using assms(3) None s1 by (auto simp: reload_invalidated_copies_def res_simps Let_def split: option.splits)
    have "ctrl_ok env (ctrl0 (as_db s))" using assms(1) by (simp add: app_inv_def)
    then have "configs_ok ?c" using assms(2) by (rule ctrl_ok_configs)
    note st = setup_modules_to_inv [OF su _ assms(2) this]
    have m: "insts_ok env (as_modules s')" "same_ctrl (ctrl0 (as_db s)) (ctrl0 (as_db s'))"
      "as_peer_set s' = Some (get_peer_set (ctrl0 (as_db s)))" "as_configs s' = Some ?c"
      using st assms(1) by (simp_all add: app_inv_def)
    have "get_peer_set (ctrl0 (as_db s')) = get_peer_set (ctrl0 (as_db s))"
      "modules_configs (ctrl0 (as_db s')) = ?c" "ctrl_ok env (ctrl0 (as_db s'))"
      using same_ctrl_peers [OF m(2)] m(2) ctrl_ok_same [OF m(2)] assms(1)
      by (simp_all add: same_ctrl_def app_inv_def)
    then show ?thesis using m by (simp add: app_inv_def copies_ok_def)
  qed
  then show "app_inv env s'" "as_peer_set s' = Some (get_peer_set (ctrl0 (as_db s')))"
    "as_configs s' = Some (modules_configs (ctrl0 (as_db s')))" by simp_all
qed

lemma process_citem_try_inv:
  assumes inv: "app_inv env s" and cd: "codec_ok (env_ctrl_codec env)"
    and ok: "process_citem_try env pos ts voter (get_peer_set (ctrl0 (as_db s))) c s = Ok s'"
  shows "app_inv env s'"
proof -
  let ?body = "process_citem_body env (as_chan s) (as_modules s) pos ts voter (get_peer_set (ctrl0 (as_db s))) (as_configs s) c"
  obtain ps' mc' tx where b: "?body (wtx_new (as_db s)) = Ok ((ps', mc'), tx)"
    and s': "s' = s\<lparr>as_db := dbtx tx, as_props := snd (commit run_app_hook tx (as_props s)),
      as_peer_set := Some ps', as_configs := mc'\<rparr>"
    using ok by (auto simp: process_citem_try_def write_with_expect_falliable_def commit_def split: res.splits)
  have "ctrl_inv (ctrl_view env) (ctrl0 (as_db s))" "insts_ok env (as_modules s)"
    using inv by (simp_all add: app_inv_def ctrl_ok_def)
  note st = process_citem_body_step [where tx = "wtx_new (as_db s)", simplified, OF b this(2,1) cd]
  show ?thesis
    using inv st ctrl_ok_step [OF _ st(1,2)] by (auto simp: app_inv_def copies_ok_def s')
qed

lemma process_citem_inv:
  assumes "app_inv env s" "codec_ok (env_ctrl_codec env)" "process_citem env pos b voter c s = Ok s'"
  shows "app_inv env s'"
proof -
  obtain ps where ps: "as_peer_set s = Some ps"
    using assms(3) by (auto simp: process_citem_def res_simps)
  then have eq: "ps = get_peer_set (ctrl0 (as_db s))" using assms(1) by (simp add: app_inv_def copies_ok_def)
  show ?thesis
  proof (cases "process_citem_try env pos (bh_timestamp b) voter ps c s")
    case (Ok s1)
    then have "s' = s1" using assms(3) ps by (simp add: process_citem_def)
    then show ?thesis using process_citem_try_inv [OF assms(1,2)] Ok eq by blast
  next
    case (Err e)
    then obtain i where "s' = s\<lparr>as_peer_set := None, as_configs := None,
        as_db := save_cur_round_and_idx (fst pos) i (as_db s)\<rparr>"
      using assms(3) ps by (auto simp: process_citem_def res_simps)
    then show ?thesis using assms(1) by (simp add: app_inv_def copies_ok_def save_cur_round_and_idx_def)
  next
    case (Panic m)
    then show ?thesis using assms(3) ps by (simp add: process_citem_def)
  qed
qed

lemma process_citems_inv:
  "app_inv env s \<Longrightarrow> env_ok env \<Longrightarrow> codec_ok (env_ctrl_codec env) \<Longrightarrow>
     process_citems env b voter cs n (pos, s) = Ok (pos', s') \<Longrightarrow> app_inv env s'"
proof (induction cs arbitrary: n pos s)
  case (Cons c cs)
  obtain idx s1 where s1: "(if snd pos \<le> idx then res_bind (reload_invalidated_copies env s) (process_citem env pos b voter c) else Ok s) = Ok s1"
    and r: "process_citems env b voter cs (Suc n) ((fst pos, idx), s1) = Ok (pos', s')"
    using Cons.prems(4) by (auto simp: res_simps)
  have "app_inv env s1"
  proof (cases "snd pos \<le> idx")
    case True
    then obtain s2 where "reload_invalidated_copies env s = Ok s2" "process_citem env pos b voter c s2 = Ok s1"
      using s1 by (auto simp: res_simps)
    then show ?thesis
      using process_citem_inv [OF _ Cons.prems(3)] reload_inv(1) [OF Cons.prems(1,2)] by blast
  qed (use s1 Cons.prems(1) in simp)
  then show ?case using Cons.IH Cons.prems(2,3) r by blast
qed simp

lemma process_block_inv:
  assumes "app_inv env s" "env_ok env" "codec_ok (env_ctrl_codec env)"
    and "process_block env b voter cs (pos, s) = Ok (pos', s')"
  shows "app_inv env s'"
proof -
  obtain pos1 s1 r where "process_citems env b voter cs 0 (pos, s) = Ok (pos1, s1)"
    and s': "s' = s1\<lparr>as_db := save_cur_round_and_idx r 0 (as_db s1)\<rparr>"
    using assms(4) by (auto simp: process_block_def res_simps)
  then have "app_inv env s1" using process_citems_inv assms(1-3) by blast
  then show ?thesis by (simp add: s' app_inv_def copies_ok_def save_cur_round_and_idx_def)
qed

lemma run_step_inv:
  assumes "app_inv env (snd t)" "env_ok env" "codec_ok (env_ctrl_codec env)" "run_step env t = Ok t'"
  shows "app_inv env (snd t')"
proof -
  obtain n where n: "ack_and_wait_next_block env (as_chan (snd t)) (app_cons (as_db (snd t))) (fst (fst t)) =
      (Ok n :: (whatever, _) res)"
    and r: "(case n of Inl _ \<Rightarrow> Ok t | Inr (b, leader, citems) \<Rightarrow> process_block env b leader citems t) = Ok t'"
    using assms(4) by (auto simp: run_step_def res_simps)
  show ?thesis
  proof (cases n)
    case (Inr x)
    obtain b leader citems where "x = (b, leader, citems)" by (cases x)
    then have "process_block env b leader citems (fst t, snd t) = Ok (fst t', snd t')" using r Inr by simp
    then show ?thesis by (rule process_block_inv [OF assms(1-3)])
  qed (use r assms(1) in simp)
qed

subsection \<open>Starting\<close>

lemma bootstrap_ok:
  assumes "bootstrap_consensus CONSENSUS_CTRL_MODULE_ID v ps d = Ok (cfg, d')"
    and "d = ctrl_db_empty \<and> ps \<noteq> [] \<or> ctrl_ok env d"
  shows "ctrl_ok env d'" "cfg = \<lparr>mc_kind = MODULE_KIND_CONSENSUS_CTRL, mc_version = v\<rparr>"
proof -
  have d': "ctrl_peers d' = fold (\<lambda>p. tbl_insert p ()) ps (ctrl_peers d)"
    "modules_configs d' = tbl_insert CONSENSUS_CTRL_MODULE_ID cfg (modules_configs d)"
    and cfg: "cfg = \<lparr>mc_kind = MODULE_KIND_CONSENSUS_CTRL, mc_version = v\<rparr>"
    using assms(1) by (auto simp: bootstrap_consensus_def Let_def res_simps)
  show "cfg = \<lparr>mc_kind = MODULE_KIND_CONSENSUS_CTRL, mc_version = v\<rparr>" by (rule cfg)
  show "ctrl_ok env d'"
    using assms(2)
  proof
    assume e: "d = ctrl_db_empty \<and> ps \<noteq> []"
    have "ctrl_inv (ctrl_view env) d'"
      using bootstrap_inv(1) [of CONSENSUS_CTRL_MODULE_ID v ps cfg d'] assms(1) e by simp
    then show ?thesis using cfg by (simp add: ctrl_ok_def d')
  next
    assume o: "ctrl_ok env d"
    have "set (get_peer_set d) \<subseteq> set (get_peer_set d')"
      by (auto simp: get_peer_set_set d' fold_insert_peers)
    then have "get_peer_set d' \<noteq> []" using o by (auto simp: ctrl_ok_def ctrl_inv_def)
    then show ?thesis
      using o cfg by (auto simp: ctrl_ok_def ctrl_inv_def d' split: if_splits)
  qed
qed

lemma init_consensus_ctrl_ok:
  assumes "init_consensus_ctrl env params s = Ok (cfgs, s')" "env_ok env"
    and "ctrl0 (as_db s) = ctrl_db_empty \<and> peers params \<noteq> [] \<or> ctrl_ok env (ctrl0 (as_db s))"
  shows "ctrl_ok env (ctrl0 (as_db s'))" "configs_ok cfgs" "as_modules s' = tbl_empty"
proof -
  have m: "as_modules s = tbl_empty"
    using assms(1) by (auto simp: init_consensus_ctrl_def res_simps entries_inject [symmetric] tbl_empty.rep_eq)
  let ?m = "ctrl0 (as_db s)"
  have "ctrl_ok env (ctrl0 (as_db s')) \<and> configs_ok cfgs \<and> as_modules s' = tbl_empty"
  proof (cases "is_bootstrapped ?m")
    case True
    then have "\<not> ?m = ctrl_db_empty" by (auto simp: is_bootstrapped_def ctrl_db_empty_def)
    then have o: "ctrl_ok env ?m" using assms(3) by blast
    moreover have "cfgs = modules_configs ?m" "s' = s"
      using assms(1) True by (auto simp: init_consensus_ctrl_def res_simps Let_def split: option.splits dyn_module_init.splits)
    ultimately show ?thesis using m ctrl_ok_configs [OF _ assms(2)] by simp
  next
    case False
    then obtain cfg m' where b: "bootstrap_consensus CONSENSUS_CTRL_MODULE_ID (init_core_module_cons_version params)
        (peers params) ?m = (Ok (cfg, m') :: (whatever, _) res)"
      and "cfgs = tbl_insert CONSENSUS_CTRL_MODULE_ID cfg tbl_empty"
      "s' = s\<lparr>as_db := (as_db s)\<lparr>app_ctrl := (app_ctrl (as_db s))(CONSENSUS_CTRL_MODULE_ID := m')\<rparr>\<rparr>"
      using assms(1) by (auto simp: init_consensus_ctrl_def res_simps Let_def split: option.splits dyn_module_init.splits)
    then show ?thesis using bootstrap_ok [OF b assms(3)] m by (simp add: configs_ok_def)
  qed
  then show "ctrl_ok env (ctrl0 (as_db s'))" "configs_ok cfgs" "as_modules s' = tbl_empty" by simp_all
qed

lemma run_start_inv:
  assumes "run_start env s = Ok (pos, s')" "env_ok env"
    and "(ctrl0 (as_db s) = ctrl_db_empty \<and> (\<forall>r p. params_at (app_cons (as_db s)) r = Some p \<longrightarrow> peers p \<noteq> [])) \<or>
      ctrl_ok env (ctrl0 (as_db s))"
  shows "app_inv env s'"
proof -
  obtain params cfgs s1 s2 s3 where par: "get_consensus_params (app_cons (as_db s)) (fst (load_cur_round_and_idx (as_db s))) =
      (Ok params :: (whatever, _) res)"
    and i: "init_consensus_ctrl env params s = Ok (cfgs, s1)"
    and su: "setup_modules_to env cfgs s1 = Ok (True, s2)"
    and rs: "record_supported_modules_versions env s2 = Ok s3"
    and s': "s' = s3\<lparr>as_peer_set := None, as_configs := None\<rparr>"
    using assms(1) by (auto simp: run_start_def Let_def res_simps)
  have "params_at (app_cons (as_db s)) (fst (load_cur_round_and_idx (as_db s))) = Some params"
    using par by (simp only: get_consensus_params_Ok_iff)
  then have pre: "ctrl0 (as_db s) = ctrl_db_empty \<and> peers params \<noteq> [] \<or> ctrl_ok env (ctrl0 (as_db s))"
    using assms(3) by blast
  note ic = init_consensus_ctrl_ok [OF i assms(2) pre]
  have st: "insts_ok env (as_modules s2)" "same_ctrl (ctrl0 (as_db s1)) (ctrl0 (as_db s2))"
    using setup_modules_to_inv [OF su _ assms(2) ic(2)] ic(3) by simp_all
  have r: "same_ctrl (ctrl0 (as_db s2)) (ctrl0 (as_db s3))" "as_modules s3 = as_modules s2"
    using rs by (auto simp: record_supported_modules_versions_def record_module_init_versions_def res_simps same_ctrl_def)
  have "ctrl_ok env (ctrl0 (as_db s3))"
    using ic(1) ctrl_ok_same [OF st(2)] ctrl_ok_same [OF r(1)] by simp
  then show ?thesis using st(1) r(2) by (simp add: s' app_inv_def copies_ok_def)
qed

subsection \<open>Reachable states\<close>

datatype ctrl_request = RequestAddPeer peer_pubkey | RequestRemovePeer peer_pubkey
  | RequestAddModule module_kind consensus_version

fun ctrl_request_call :: "ctrl_module \<Rightarrow> ctrl_codec \<Rightarrow> ctrl_request \<Rightarrow> ctrl_state \<Rightarrow> (whatever, ctrl_state) res" where
  "ctrl_request_call cm cd (RequestAddPeer p) s = set_pending_add_peer_vote cm cd p s"
| "ctrl_request_call cm cd (RequestRemovePeer p) s = set_pending_remove_peer_vote cm cd p s"
| "ctrl_request_call cm cd (RequestAddModule k v) s = set_pending_add_module_vote cm cd k v s"

text \<open>A node before its application runs for the first time, and after the process has been restarted.\<close>

definition fresh_app :: "app_state \<Rightarrow> bool" where
  "fresh_app s \<longleftrightarrow> as_modules s = tbl_empty \<and> ctrl0 (as_db s) = ctrl_db_empty \<and>
     (\<forall>r p. params_at (app_cons (as_db s)) r = Some p \<longrightarrow> peers p \<noteq> [])"

definition restarted :: "app_state \<Rightarrow> app_state" where
  "restarted s = s\<lparr>as_modules := tbl_empty, as_peer_set := None, as_configs := None, as_props := (\<lambda>_. []),
     as_modules_changed := 0\<rparr>"

text \<open>
  What can happen, in any order: the next block is processed, the consensus moves on by itself (its
  tables and channels then are whatever they are), the user asks for a vote, the process restarts.
\<close>

inductive app_reach :: "app_env \<Rightarrow> (block_round \<times> 32 word) \<times> app_state \<Rightarrow> bool" for env where
  start: "fresh_app s \<Longrightarrow> run_start env s = Ok t \<Longrightarrow> app_reach env t"
| block: "app_reach env t \<Longrightarrow> run_step env t = Ok t' \<Longrightarrow> app_reach env t'"
| consensus: "app_reach env (pos, s) \<Longrightarrow>
    app_reach env (pos, s\<lparr>as_chan := ch, as_db := (as_db s)\<lparr>app_cons := d\<rparr>\<rparr>)"
| request: "app_reach env (pos, s) \<Longrightarrow> consensus_ctrl_module_expect s = (Ok cm :: (whatever, _) res) \<Longrightarrow>
    ctrl_request_call cm (env_ctrl_codec env) req (ctrl0 (as_db s), as_props s CONSENSUS_CTRL_MODULE_ID) = Ok (d, props) \<Longrightarrow>
    app_reach env (pos, s\<lparr>as_db := (as_db s)\<lparr>app_ctrl := (app_ctrl (as_db s))(CONSENSUS_CTRL_MODULE_ID := d)\<rparr>,
      as_props := (as_props s)(CONSENSUS_CTRL_MODULE_ID := props)\<rparr>)"
| restart: "app_reach env (pos, s) \<Longrightarrow> run_start env (restarted s) = Ok t \<Longrightarrow> app_reach env t"

lemma ctrl_request_same: "ctrl_request_call cm cd req (d, props) = Ok (d', props') \<Longrightarrow> same_ctrl d d'"
  by (cases req) (auto simp: set_pending_add_peer_vote_def set_pending_remove_peer_vote_def
      set_pending_add_module_vote_def same_ctrl_def Let_def split: if_splits option.splits)

lemma app_reach_inv:
  assumes "app_reach env t" "env_ok env" "codec_ok (env_ctrl_codec env)"
  shows "app_inv env (snd t)"
  using assms(1)
proof induction
  case (start s t)
  then show ?case using run_start_inv [of env s "fst t" "snd t"] assms(2) by (auto simp: fresh_app_def)
next
  case (block t t')
  then show ?case using run_step_inv assms(2,3) by blast
next
  case (consensus pos s ch d)
  then show ?case by (simp add: app_inv_def copies_ok_def)
next
  case (request pos s cm req d props)
  from ctrl_request_same [OF request.hyps(3)] have sc: "same_ctrl (ctrl0 (as_db s)) d" .
  then show ?case
    using request.IH ctrl_ok_same [OF sc] same_ctrl_peers [OF sc]
    by (simp add: app_inv_def copies_ok_def same_ctrl_def)
next
  case (restart pos s t)
  then show ?case
    using run_start_inv [of env "restarted s" "fst t" "snd t"] assms(2) by (simp add: restarted_def app_inv_def)
qed

text \<open>C36. The copies never drift. In every state that the application can reach, by blocks, progress
  of the consensus, requests of the user and restarts in any order: a copy of the peer set or of the
  module configurations held in memory equals the table of the control module. Also the
  peer set is not empty, and the control module runs under identifier 0 and under no other.\<close>

theorem app_copies_in_sync:
  assumes "app_reach env (pos, s)" "env_ok env" "codec_ok (env_ctrl_codec env)"
  shows "(\<forall>ps. as_peer_set s = Some ps \<longrightarrow> ps = get_peer_set (app_ctrl (as_db s) CONSENSUS_CTRL_MODULE_ID)) \<and>
    (\<forall>cfgs. as_configs s = Some cfgs \<longrightarrow> cfgs = modules_configs (app_ctrl (as_db s) CONSENSUS_CTRL_MODULE_ID)) \<and>
    get_peer_set (app_ctrl (as_db s) CONSENSUS_CTRL_MODULE_ID) \<noteq> [] \<and>
    (\<forall>i m cm. tbl_get (as_modules s) i = Some m \<longrightarrow> dm_inner m = CtrlInst cm \<longrightarrow> i = CONSENSUS_CTRL_MODULE_ID)"
proof -
  have i: "app_inv env s" using app_reach_inv [OF assms] by simp
  have "i = CONSENSUS_CTRL_MODULE_ID" if "tbl_get (as_modules s) i = Some m" "dm_inner m = CtrlInst cm" for i m cm
    using i that by (force simp: app_inv_def insts_ok_def inst_ok_def)
  then show ?thesis using i by (auto simp: app_inv_def copies_ok_def ctrl_ok_def ctrl_inv_def)
qed

subsection \<open>A federation of one\<close>

text \<open>An encoder with the round trip, and a node of its own federation, for closed instances.\<close>

fun words_of :: "nat \<Rightarrow> byte list \<Rightarrow> peer_set" where
  "words_of n bs = (case n of 0 \<Rightarrow> [] | Suc m \<Rightarrow> from_be_bytes (take 32 bs) # words_of m (drop 32 bs))"

declare words_of.simps [simp del]

lemma words_of_bytes: "words_of (length ps) (concat (map (to_be_bytes 32) ps)) = ps"
  by (induction ps) (simp_all add: words_of.simps from_be_bytes_prefix [of "[]", simplified])

definition app_codec :: ctrl_codec where
  "app_codec = \<lparr>enc_ctrl_citem = (\<lambda>_. []), dec_ctrl_citem = (\<lambda>_. None),
     enc_ctrl_effect = (\<lambda>e. case e of ConsensusParamsChange ps \<Rightarrow> concat (map (to_be_bytes 32) ps) | _ \<Rightarrow> []),
     dec_params_change = (\<lambda>bs. Some (words_of (length bs div 32) bs))\<rparr>"

definition app_env1 :: app_env where
  "app_env1 = \<lparr>env_crypto = test_crypto, env_ctrl_codec = app_codec,
     env_meta_codec = test_meta_codec (ProposeValue 0 []), env_dec_citems = (\<lambda>_. Some []), env_excl = True,
     env_inits = tbl_insert 0 CtrlModuleInit (tbl_insert 1 MetaModuleInit tbl_empty), env_self = Some 7\<rparr>"

definition app_state1 :: app_state where
  "app_state1 = \<lparr>as_db = \<lparr>app_cons = test_db [7], app_cur_round = None, app_ctrl = (\<lambda>_. ctrl_db_empty),
       app_meta = (\<lambda>_. meta_db_empty)\<rparr>,
     as_chan = \<lparr>current_round_with_timeout = (0, False), finality_consensus = 0, finality_self_vote = 0,
       new_votes = 0, new_proposal = 0\<rparr>,
     as_props = (\<lambda>_. []), as_modules = tbl_empty, as_modules_changed = 0, as_peer_set = None, as_configs = None\<rparr>"

lemma app_codec_ok: "codec_ok app_codec"
proof -
  have "length (concat (map (to_be_bytes 32) ps)) = 32 * length ps" for ps :: peer_set
    by (induction ps) simp_all
  then show ?thesis by (simp add: codec_ok_def app_codec_def words_of_bytes)
qed

lemma app_env1_ok: "env_ok app_env1" "codec_ok (env_ctrl_codec app_env1)"
  using app_codec_ok
  by (auto simp: app_env1_def env_ok_def MODULE_KIND_CONSENSUS_CTRL_def split: if_splits)

lemma app_state1_fresh: "fresh_app app_state1"
  by (simp add: fresh_app_def app_state1_def test_params_def)

lemma app_state1_starts: "\<exists>t. run_start app_env1 app_state1 = Ok t"
proof -
  let ?cfg = "\<lparr>mc_kind = 0, mc_version = ConsensusVersion 0 0\<rparr>"
  have par: "get_consensus_params (test_db [7]) 0 = (Ok (test_params [7]) :: (whatever, _) res)"
    by (simp add: get_consensus_params_Ok_iff)
  have i: "tbl_get (env_inits app_env1) 0 = Some CtrlModuleInit" by (simp add: app_env1_def)
  have e: "entries (tbl_insert 0 x tbl_empty) = [(0 :: 32 word, x)]" for x :: 'a
    by (simp add: tbl_insert.rep_eq tbl_empty.rep_eq)
  have rm: "entries (tbl_remove 0 (tbl_empty :: modules)) = []"
    by (simp add: tbl_remove.rep_eq tbl_empty.rep_eq)
  have inits: "entries (env_inits app_env1) = [(0, CtrlModuleInit), (1, MetaModuleInit)]"
    by (simp add: app_env1_def tbl_insert.rep_eq tbl_empty.rep_eq)
  show ?thesis
    by (simp add: run_start_def app_state1_def load_cur_round_and_idx_def par init_consensus_ctrl_def i
        MODULE_KIND_CONSENSUS_CTRL_def tbl_empty.rep_eq is_bootstrapped_def ctrl_db_empty_def
        bootstrap_consensus_def Let_def setup_modules_to_def setup_modules_to_static_def e setup_module_def
        setup_new_def module_init_call_def ctrl_init_def CTRL_VERSION_MAJOR_def CTRL_VERSION_MINOR_def
        CONSENSUS_CTRL_MODULE_ID_def test_params_def rm record_supported_modules_versions_def
        consensus_ctrl_module_expect_def record_module_init_versions_def get_modules_configs_def inits
        ctrl_init_db_tx_def init_data_def ctrl_module_init_def meta_module_init_def META_VERSION_def
        ctrl_supported_versions_def)
qed

theorem app_copies_in_sync_witness:
  "\<exists>pos s. app_reach app_env1 (pos, s) \<and> get_peer_set (app_ctrl (as_db s) CONSENSUS_CTRL_MODULE_ID) \<noteq> []"
proof -
  obtain pos s where "run_start app_env1 app_state1 = Ok (pos, s)" using app_state1_starts by force
  then have r: "app_reach app_env1 (pos, s)" by (rule app_reach.start [OF app_state1_fresh])
  show ?thesis using app_copies_in_sync [OF r app_env1_ok] r by blast
qed

end
