(* ===== verification/Cons_Params.thy ===== *)
theory Cons_Params
  imports Cons_Theorems
begin

section \<open>Changing the parameters of a running consensus\<close>

text \<open>
  \<open>Consensus::consensus_params_change_tx\<close> (\<open>consensus/src/consensus.rs\<close>) and
  \<open>insert_consensus_params\<close> (\<open>consensus/src/consensus/ctx.rs\<close>) seen from the readers of the schedule: from
  which round on new parameters are in effect, and what happens to two changes that are due at the same round.
\<close>

subsection \<open>What a change writes\<close>

text \<open>The parameters that a change decided in round \<open>r\<close> schedules.\<close>

definition next_params ::
  "crypto \<Rightarrow> block_round \<Rightarrow> timestamp \<Rightarrow> peer_set \<Rightarrow> cons_db \<Rightarrow> consensus_params \<Rightarrow> consensus_params" where
  "next_params cr r ts ps d p = p\<lparr>peers := ps, cp_timestamp := ts,
     prev_mid_block := map_option (\<lambda>b. (bh_round b, header_hash cr b)) (get_prev_notarized_block d (half r)),
     schedule_round := r, apply_round := r + (of_nat (length (peers p)) + 32)\<rparr>"

lemma next_params_fields [simp]:
  "peers (next_params cr r ts ps d p) = ps" "schedule_round (next_params cr r ts ps d p) = r"
  "apply_round (next_params cr r ts ps d p) = r + (of_nat (length (peers p)) + 32)"
  by (simp_all add: next_params_def)

lemma consensus_params_change_Ok:
  assumes "consensus_params_change_tx cr c r ts ps d = Ok d'"
  obtains p where "params_at d r = Some p" "length (peers p) \<le> 255" "unat r + length (peers p) + 32 < 2 ^ 64"
    "fst (current_round_with_timeout c) < apply_round (next_params cr r ts ps d p)"
    "d' = snd (insert_consensus_params cr (apply_round (next_params cr r ts ps d p)) (next_params cr r ts ps d p) d)"
  using assms by (rule consensus_params_change_elim) (auto simp: make_change_Ok_iff next_params_def)

lemma consensus_params_change_insert:
  assumes "consensus_params_change_tx cr c r ts ps d = Ok d'" "params_at d r = Some p"
    and "q = next_params cr r ts ps d p"
  shows "d' = snd (insert_consensus_params cr (apply_round q) q d)"
    "fst (current_round_with_timeout c) < apply_round q"
  using assms by (auto elim: consensus_params_change_Ok)

text \<open>Reading the schedule after an insertion at its end.\<close>

lemma params_at_inserted:
  assumes sched: "sched_inv cr d"
    and later: "\<And>k. a \<le> k \<Longrightarrow> tbl_get (cons_params_schedule d) k = None"
    and coll: "tbl_get (cons_params d) (params_hash cr p) = None \<or> tbl_get (cons_params d) (params_hash cr p) = Some p"
  shows "params_at (snd (insert_consensus_params cr a p d)) r = (if a \<le> r then Some p else params_at d r)"
proof -
  let ?h = "params_hash cr p"
  let ?d1 = "d\<lparr>cons_params := tbl_insert ?h p (cons_params d)\<rparr>"
  have d: "snd (insert_consensus_params cr a p d) =
      ?d1\<lparr>cons_params_schedule := tbl_insert a ?h (cons_params_schedule ?d1)\<rparr>"
    using later [of a] by (simp add: insert_consensus_params_def Let_def)
  show ?thesis
  proof (cases "a \<le> r")
    case True
    have "last_entry (\<lambda>k. k \<le> r) (entries (tbl_insert a ?h (cons_params_schedule d))) = Some (a, ?h)"
      using True later by (auto simp: tb.last_Some not_le) (metis linear option.distinct(1))
    then show ?thesis using True by (simp add: d params_at_def)
  next
    case False
    then show ?thesis
      using params_at_insert [where d = ?d1 and r = r and a = a] params_at_more_params [OF sched coll]
      by (simp add: d)
  qed
qed

text \<open>A federation of one whose parameters are told apart by the number of their peers, for closed
  instances.\<close>

definition count_crypto :: crypto where
  "count_crypto = test_crypto\<lparr>enc_params := \<lambda>p. replicate (length (peers p)) 0\<rparr>"

definition count_db :: cons_db where
  "count_db = cons_db_empty\<lparr>cons_params_schedule := tbl_insert 0 2 tbl_empty,
     cons_params := tbl_insert 2 (test_params [7]) tbl_empty\<rparr>"

definition count_channels :: channels where
  "count_channels = \<lparr>current_round_with_timeout = (0, False), finality_consensus = 0, finality_self_vote = 0,
     new_votes = 0, new_proposal = 0\<rparr>"

lemma count_hash [simp]: "params_hash count_crypto p = of_nat (length (peers p)) + 1"
  by (simp add: params_hash_def count_crypto_def)

lemma count_ok [simp]: "params_ok count_crypto p \<longleftrightarrow> peers p \<noteq> [] \<and> length (peers p) \<le> 255"
  by (auto simp: params_ok_def count_crypto_def)

lemma count_channels_round [simp]: "current_round_with_timeout count_channels = (0, False)"
  by (simp add: count_channels_def)

lemma test_params_peers [simp]: "peers (test_params ps) = ps"
  by (simp add: test_params_def)

lemma count_db_fields [simp]:
  "get_current_round count_db = 0" "params_at count_db r = Some (test_params [7])"
  "tbl_get (cons_params count_db) = [2 \<mapsto> test_params [7]]"
  "tbl_get (cons_params_schedule count_db) = [0 \<mapsto> 2]"
  "cons_inv count_crypto count_db"
proof -
  have i: "init_tx count_crypto (test_params [7]) None cons_db_empty = Ok (0, count_db)"
    by (simp add: init_tx_def insert_consensus_params_def Let_def count_db_def cons_db_empty_def get_current_round_def)
  show "cons_inv count_crypto count_db" "get_current_round count_db = 0"
    using cons_inv_init [OF i] by simp_all
  show g: "tbl_get (cons_params_schedule count_db) = [0 \<mapsto> 2]" "tbl_get (cons_params count_db) = [2 \<mapsto> test_params [7]]"
    by (simp_all add: count_db_def cons_db_empty_def fun_eq_iff)
  have "last_entry (\<lambda>k. k \<le> r) (entries (cons_params_schedule count_db)) = Some (0, 2)"
    by (auto simp: tb.last_Some g split: if_splits)
  then show "params_at count_db r = Some (test_params [7])" by (simp add: params_at_def g)
qed

lemma count_db_change:
  assumes "params_at d 0 = Some (test_params [7])"
  shows "consensus_params_change_tx count_crypto count_channels 0 0 ps d =
    (Ok (snd (insert_consensus_params count_crypto 33 (next_params count_crypto 0 0 ps d (test_params [7])) d)) :: ('e, _) res)"
proof -
  have "get_consensus_params d 0 = (Ok (test_params [7]) :: ('e, _) res)"
    using assms by (simp add: get_consensus_params_Ok_iff)
  moreover have "make_change (test_params [7]) 0 0 ps (map_option (\<lambda>b. (bh_round b, header_hash count_crypto b))
      (get_prev_notarized_block d (half 0))) = (Ok (next_params count_crypto 0 0 ps d (test_params [7])) :: ('e, _) res)"
    by (simp add: make_change_Ok_iff next_params_def)
  ultimately show ?thesis
    by (simp add: consensus_params_change_tx_def Let_def)
qed

subsection \<open>Properties\<close>

text \<open>C18. A change of the peer set takes effect once, later, and for good: when nothing is scheduled
  at or after its round of effect, the invariant is kept, every round before the round of effect keeps
  its parameters (the rounds already run in particular, the round of effect being in the future), and every
  round from it on has the new peer set.\<close>

theorem params_change_takes_effect:
  assumes "consensus_params_change_tx cr c r ts ps d = (Ok d' :: ('e, _) res)"
    and inv: "cons_inv cr d" and cur: "fst (current_round_with_timeout c) = get_current_round d"
    and p: "params_at d r = Some p" and q: "q = next_params cr r ts ps d p" and ok: "params_ok cr q"
    and later: "\<forall>k \<ge> apply_round q. tbl_get (cons_params_schedule d) k = None"
    and coll: "tbl_get (cons_params d) (params_hash cr q) \<in> {None, Some q}"
  shows "cons_inv cr d' \<and> get_current_round d < apply_round q \<and> peers q = ps \<and>
    (\<forall>r'. (get_consensus_params d' r' :: ('e, _) res) = (if apply_round q \<le> r' then Ok q else get_consensus_params d r'))"
proof -
  have d': "d' = snd (insert_consensus_params cr (apply_round q) q d)" and a: "get_current_round d < apply_round q"
    using consensus_params_change_insert [OF assms(1) p q] cur by simp_all
  have s: "sched_inv cr d" using inv by (simp add: cons_inv_def mid_inv_def)
  have at: "params_at d' r' = (if apply_round q \<le> r' then Some q else params_at d r')" for r'
    unfolding d' using later coll by (intro params_at_inserted [OF s]) auto
  have "cons_inv cr d'"
    unfolding d' using later coll by (intro insert_consensus_params_inv [OF inv a ok]) auto
  moreover have "(get_consensus_params d' r' :: ('e, _) res) =
      (if apply_round q \<le> r' then Ok q else get_consensus_params d r')" for r'
  proof -
    obtain x where x: "params_at d r' = Some x" using params_at_Some [OF s] by blast
    then have "get_consensus_params d r' = (Ok x :: ('e, _) res)" by (simp add: get_consensus_params_Ok_iff)
    moreover have "get_consensus_params d' r' = (Ok (if apply_round q \<le> r' then q else x) :: ('e, _) res)"
      using x by (simp add: get_consensus_params_Ok_iff at)
    ultimately show ?thesis by simp
  qed
  ultimately show ?thesis using a q by simp
qed

theorem params_change_takes_effect_witness:
  "\<exists>d'. consensus_params_change_tx count_crypto count_channels 0 0 [7, 8] count_db = (Ok d' :: (unit, _) res) \<and>
     cons_inv count_crypto d' \<and>
     (\<exists>p. get_consensus_params d' 32 = (Ok p :: (unit, _) res) \<and> peers p = [7]) \<and>
     (\<exists>p. get_consensus_params d' 33 = (Ok p :: (unit, _) res) \<and> peers p = [7, 8])"
proof -
  let ?q = "next_params count_crypto 0 0 [7, 8] count_db (test_params [7])"
  let ?d = "snd (insert_consensus_params count_crypto 33 ?q count_db)"
  have c: "consensus_params_change_tx count_crypto count_channels 0 0 [7, 8] count_db = (Ok ?d :: (unit, _) res)"
    by (rule count_db_change) simp
  have e: "cons_inv count_crypto ?d \<and> get_current_round count_db < apply_round ?q \<and> peers ?q = [7, 8] \<and>
      (\<forall>r'. (get_consensus_params ?d r' :: (unit, _) res) =
        (if apply_round ?q \<le> r' then Ok ?q else get_consensus_params count_db r'))"
    by (rule params_change_takes_effect [OF c, where p = "test_params [7]"]) auto
  have "get_consensus_params count_db 32 = (Ok (test_params [7]) :: (unit, _) res)"
    by (simp add: get_consensus_params_Ok_iff)
  with c e show ?thesis by auto
qed

text \<open>A second change that is due at the same round as an earlier one replaces the entry of the schedule but
  not the parameters it points to: unless the node happens to hold the very same parameters already, asking for the
  parameters of the round of effect panics.\<close>

lemma second_params_change_panics:
  assumes "consensus_params_change_tx cr c r ts ps d = (Ok d' :: ('e, _) res)"
    and p: "params_at d r = Some p" and q: "q = next_params cr r ts ps d p"
    and due: "tbl_get (cons_params_schedule d) (apply_round q) \<noteq> None"
    and new: "tbl_get (cons_params d) (params_hash cr q) = None"
  shows "get_consensus_params d' (apply_round q) = (Panic ''Must always have params for a given hash'' :: ('e, _) res)"
proof -
  have d': "d' = d\<lparr>cons_params_schedule := tbl_insert (apply_round q) (params_hash cr q) (cons_params_schedule d)\<rparr>"
    using consensus_params_change_insert [OF assms(1) p q] due by (auto simp: insert_consensus_params_def Let_def)
  have "last_entry (\<lambda>k. k \<le> apply_round q) (entries (cons_params_schedule d')) = Some (apply_round q, params_hash cr q)"
    by (auto simp: d' tb.last_Some)
  then show ?thesis
    using new by (simp add: get_consensus_params_def get_consensus_params_opt_def d')
qed

end
