(* ===== verification/Cons_Finality.thy ===== *)
theory Cons_Finality
  imports Cons_Params
begin

section \<open>Finality\<close>

text \<open>
  \<open>consensus/src/consensus/handle_finality_vote.rs\<close>: each peer announces the round below which its
  chain is settled, and the node derives the round that enough peers announced. The channel that the application
  waits on is fed from it.
\<close>

definition announced :: "cons_db \<Rightarrow> peer_pubkey \<Rightarrow> block_round" where
  "announced d k = (case get_finality_vote d k of Some r \<Rightarrow> r | None \<Rightarrow> 0)"

lemma announced_update [simp]:
  "announced (d\<lparr>cons_finality_votes := tbl_insert k r (cons_finality_votes d)\<rparr>) k' =
     (if k' = k then r else announced d k')"
  "announced (d\<lparr>cons_finality_consensus := f\<rparr>) = announced d"
  "announced (prune_dummy_votes r d) = announced d"
  by (auto simp: announced_def get_finality_vote_def prune_dummy_votes_def fun_eq_iff)

lemma length_filter_mono: "(\<And>x. P x \<Longrightarrow> Q x) \<Longrightarrow> length (filter P xs) \<le> length (filter Q xs)"
  by (induction xs) (auto intro: le_SucI)

text \<open>The element of a sorted list at index \<open>k\<close> is the greatest bound that all but \<open>k\<close> elements reach.\<close>

lemma sorted_nth_rank:
  assumes "k < length xs"
  shows "r \<le> sort xs ! k \<longleftrightarrow> length xs - k \<le> length (filter (\<lambda>x. r \<le> x) xs)"
proof
  assume r: "r \<le> sort xs ! k"
  have "length xs - k \<le> length (filter (\<lambda>x. sort xs ! k \<le> x) xs)"
    using sorted_nth_count_ge [of "sort xs" k] assms by (simp add: length_filter_sort)
  also have "\<dots> \<le> length (filter (\<lambda>x. r \<le> x) xs)"
    using r by (intro length_filter_mono) simp
  finally show "length xs - k \<le> length (filter (\<lambda>x. r \<le> x) xs)" .
next
  assume l: "length xs - k \<le> length (filter (\<lambda>x. r \<le> x) xs)"
  show "r \<le> sort xs ! k"
  proof (rule ccontr)
    assume "\<not> r \<le> sort xs ! k"
    then have "length (filter (\<lambda>x. r \<le> x) xs) \<le> length xs - Suc k"
      using sorted_nth_count_gt [of "sort xs" k r] assms by (simp add: length_filter_sort)
    with l assms show False by simp
  qed
qed

text \<open>The recalculation in closed form.\<close>

lemma recalculate_finality_eq:
  assumes p: "params_at (dbtx tx) cur = Some p" and ok: "params_ok cr p"
    and f: "f = sort (map (announced (dbtx tx)) (peers p)) ! max_faulty (of_nat (length (peers p)))"
  shows "recalculate_finality_consensus_tx cur tx =
    Ok (let tx1 = upd (\<lambda>d. d\<lparr>cons_finality_consensus := Some f\<rparr>) tx
        in if (case get_finality_consensus (dbtx tx) of Some prev \<Rightarrow> prev | None \<Rightarrow> 0) < f
           then on_commit (SendFinalityConsensus f) (upd (prune_dummy_votes f) tx1) else tx1)"
proof -
  let ?n = "of_nat (length (peers p)) :: num_peers"
  have "max_faulty ?n < length (peers p)"
    using np.faulty_bound [of ?n] ok by (simp add: params_ok_def)
  then have i: "index (finality_votes_sorted (dbtx tx) (peers p)) (max_faulty ?n) = Ok f"
    unfolding finality_votes_sorted_def announced_def [symmetric] by (simp add: index_Ok_iff f)
  have g: "get_consensus_params (dbtx tx) cur = Ok p" using p by (simp add: res_simps)
  have n: "to_num_peers (peers p) = Ok ?n" using ok by (simp add: res_simps params_ok_def)
  show ?thesis
    by (simp add: recalculate_finality_consensus_tx_def g n i Let_def update_finality_consensus_def
        get_finality_consensus_def upd_def)
qed

text \<open>C21. The stored finality is the greatest round that a threshold of the peers of the current round has
  announced, whatever was stored before; the subscribers are told, once, when it exceeds the one stored before.\<close>

theorem finality_is_threshold:
  assumes "cons_inv cr (dbtx tx)" "params_at (dbtx tx) cur = Some p"
  shows "\<exists>f tx'. recalculate_finality_consensus_tx cur tx = (Ok tx' :: ('e, _) res) \<and>
    get_finality_consensus (dbtx tx') = Some f \<and>
    (\<forall>r. r \<le> f \<longleftrightarrow> threshold (of_nat (length (peers p))) \<le> length (filter (\<lambda>k. r \<le> announced (dbtx tx) k) (peers p))) \<and>
    on_commit_hooks tx' = on_commit_hooks tx @
      (if (case get_finality_consensus (dbtx tx) of Some prev \<Rightarrow> prev | None \<Rightarrow> 0) < f
       then [SendFinalityConsensus f] else [])"
proof -
  let ?n = "of_nat (length (peers p)) :: num_peers" and ?vs = "map (announced (dbtx tx)) (peers p)"
  have ok: "params_ok cr p" using assms params_at_ok by (auto simp: cons_inv_def mid_inv_def)
  then have len: "total ?n = length (peers p)" "max_faulty ?n < length (peers p)"
    using np.faulty_bound [of ?n] by (simp_all add: params_ok_def total_of_nat)
  have t: "length (peers p) - max_faulty ?n = threshold ?n" by (simp add: threshold_def len)
  obtain f where f: "f = sort ?vs ! max_faulty ?n" by blast
  have r: "r \<le> f \<longleftrightarrow> threshold ?n \<le> length (filter (\<lambda>k. r \<le> announced (dbtx tx) k) (peers p))" for r
    unfolding f using sorted_nth_rank [of "max_faulty ?n" ?vs r] len t by (simp add: filter_map o_def)
  note e = recalculate_finality_eq [OF assms(2) ok f, where 'a = 'e]
  show ?thesis
    unfolding e using r
    by (intro exI [of _ f]) (auto simp: Let_def get_finality_consensus_def prune_dummy_votes_def)
qed

text \<open>A database with one peer that announced round 5.\<close>

definition one_announced :: cons_db where
  "one_announced = (test_db [7])\<lparr>cons_finality_votes := tbl_insert 7 5 tbl_empty\<rparr>"

lemma one_announced_inv: "cons_inv test_crypto one_announced"
  by (rule finality_step_cons_inv [of "test_db [7]"]) (simp_all add: test_db_inv finality_step_def one_announced_def)

theorem finality_is_threshold_witness:
  "\<exists>tx'. recalculate_finality_consensus_tx 0 (wtx_new one_announced) = (Ok tx' :: (unit, _) res) \<and>
     get_finality_consensus (dbtx tx') = Some 5 \<and> on_commit_hooks tx' = [SendFinalityConsensus 5]"
proof -
  have i: "cons_inv test_crypto (dbtx (wtx_new one_announced))" "params_at (dbtx (wtx_new one_announced)) 0 = Some (test_params [7])"
    using one_announced_inv by (simp_all add: one_announced_def)
  have v: "announced one_announced 7 = 5" "get_finality_consensus one_announced = None"
    by (simp_all add: announced_def get_finality_vote_def get_finality_consensus_def one_announced_def test_db_def
        cons_db_empty_def)
  obtain f tx' where c: "recalculate_finality_consensus_tx 0 (wtx_new one_announced) = (Ok tx' :: (unit, _) res)"
    "get_finality_consensus (dbtx tx') = Some f"
    and r: "\<And>r. r \<le> f \<longleftrightarrow> threshold 1 \<le> length (filter (\<lambda>k. r \<le> announced one_announced k) [7])"
    and h: "on_commit_hooks tx' = (if 0 < f then [SendFinalityConsensus f] else [])"
    using finality_is_threshold [OF i, where 'e = unit] by (auto simp: v)
  have "r \<le> f \<longleftrightarrow> r \<le> 5" for r using r [of r] by (simp add: v threshold_def max_faulty_def total_def)
  then have "f = 5" by (metis dual_order.antisym order_refl)
  with c h show ?thesis by auto
qed

subsection \<open>Finality that goes back\<close>

text \<open>The finality votes of two peers, as they arrive.\<close>

definition finality_votes :: "(peer_pubkey \<times> block_round) list \<Rightarrow> cons_state \<Rightarrow> cons_state" where
  "finality_votes = fold (\<lambda>(k, r). snd \<circ> process_finality_vote_update_response test_crypto k \<lparr>inner = r, sig = 0\<rparr>)"

lemma finality_votes_simps [simp]:
  "finality_votes [] s = s"
  "finality_votes ((k, r) # vs) s =
     finality_votes vs (snd (process_finality_vote_update_response test_crypto k \<lparr>inner = r, sig = 0\<rparr> s))"
  by (simp_all add: finality_votes_def)

lemma finality_vote_two_peers:
  assumes "params_at d (get_current_round d) = Some (test_params [7, 8])"
    and "f = min (if k = 7 then r else announced d 7) (if k = 8 then r else announced d 8)"
    and "d1 = d\<lparr>cons_finality_votes := tbl_insert k r (cons_finality_votes d)\<rparr>"
    and "d2 = d1\<lparr>cons_finality_consensus := Some f\<rparr>"
  shows "snd (process_finality_vote_update_response test_crypto k \<lparr>inner = r, sig = 0\<rparr> (d, c)) =
    (if (case get_finality_vote d k of Some p \<Rightarrow> r \<le> p | None \<Rightarrow> False) then (d1, c)
     else if (case get_finality_consensus d of Some p \<Rightarrow> p | None \<Rightarrow> 0) < f
     then (prune_dummy_votes f d2, c\<lparr>finality_consensus := f\<rparr>)
     else (d2, c))"
proof -
  let ?tx = "upd (\<lambda>_. d1) (wtx_new d)"
  have p: "params_at (dbtx ?tx) (get_current_round d) = Some (test_params [7, 8])" "params_ok test_crypto (test_params [7, 8])"
    using assms(1) by (simp_all add: assms(3))
  have m: "max_faulty 2 = 0" by (simp add: max_faulty_def total_def)
  have "f = sort (map (announced (dbtx ?tx)) [7, 8]) ! max_faulty (of_nat (length [7, 8 :: peer_pubkey]))"
    by (auto simp: assms(2,3) m min_def)
  then have e: "recalculate_finality_consensus_tx (get_current_round d) ?tx =
    (Ok (let tx1 = upd (\<lambda>d. d\<lparr>cons_finality_consensus := Some f\<rparr>) ?tx
        in if (case get_finality_consensus (dbtx ?tx) of Some prev \<Rightarrow> prev | None \<Rightarrow> 0) < f
           then on_commit (SendFinalityConsensus f) (upd (prune_dummy_votes f) tx1) else tx1) :: (process_finality_error, _) res)"
    by (intro recalculate_finality_eq [OF p]) simp
  have v: "verify_sig_peer_pubkey test_crypto (finality_sign_hash test_crypto) \<lparr>inner = r, sig = 0\<rparr> k = Ok ()"
    by (simp add: verify_sig_peer_pubkey_def verify_hash_signature_Ok_iff)
  have u: "update_finality_vote k r d = (get_finality_vote d k, d1)"
    by (simp add: update_finality_vote_def get_finality_vote_def assms(3))
  have f1: "get_finality_consensus d1 = get_finality_consensus d" by (simp add: assms(3) get_finality_consensus_def)
  show ?thesis
    unfolding process_finality_vote_update_response_def write_with_expect_falliable_def unit_tx_def
      process_finality_vote_update_response_tx_def update_peer_finality_vote_round_def
    by (cases "get_finality_vote d k")
      (auto simp: Let_def v u e f1 commit_def assms(4) split: if_splits)
qed

text \<open>What matters of such a node: the two votes, the stored finality and the one last sent.\<close>

type_synonym finality_view = "block_round option \<times> block_round option \<times> block_round option \<times> block_round"

definition or_zero :: "block_round option \<Rightarrow> block_round" where
  "or_zero v = (case v of Some r \<Rightarrow> r | None \<Rightarrow> 0)"

definition view_of :: "cons_state \<Rightarrow> finality_view" where
  "view_of s = (get_finality_vote (fst s) 7, get_finality_vote (fst s) 8, get_finality_consensus (fst s),
     finality_consensus (snd s))"

definition vote_view :: "peer_pubkey \<times> block_round \<Rightarrow> finality_view \<Rightarrow> finality_view" where
  "vote_view = (\<lambda>(k, r) (a, b, f, sent).
     let a' = (if k = 7 then Some r else a); b' = (if k = 8 then Some r else b); n = min (or_zero a') (or_zero b') in
     if (case (if k = 7 then a else b) of Some p \<Rightarrow> r \<le> p | None \<Rightarrow> False) then (a', b', f, sent)
     else (a', b', Some n, if or_zero f < n then n else sent))"

lemma vote_view_correct:
  assumes "params_at (fst s) (get_current_round (fst s)) = Some (test_params [7, 8])" "k = 7 \<or> k = 8"
    and s': "s' = snd (process_finality_vote_update_response test_crypto k \<lparr>inner = r, sig = 0\<rparr> s)"
  shows "params_at (fst s') (get_current_round (fst s')) = Some (test_params [7, 8]) \<and> view_of s' = vote_view (k, r) (view_of s)"
proof -
  obtain d c where s: "s = (d, c)" by fastforce
  have a: "announced d k = or_zero (get_finality_vote d k)" for k by (simp add: announced_def or_zero_def)
  note step = finality_vote_two_peers [OF assms(1) [unfolded s fst_conv] refl refl refl, of k r c]
  show ?thesis
    unfolding s' s step using assms(1,2)
    by (auto simp: s view_of_def vote_view_def a or_zero_def prune_dummy_votes_def get_finality_vote_def
        get_finality_consensus_def Let_def split: option.splits)
qed

lemma finality_votes_view:
  assumes "params_at (fst s) (get_current_round (fst s)) = Some (test_params [7, 8])" "\<forall>(k, r) \<in> set vs. k = 7 \<or> k = 8"
  shows "view_of (finality_votes vs s) = fold vote_view vs (view_of s)"
  using assms
proof (induction vs arbitrary: s)
  case (Cons v vs)
  obtain k r where v: "v = (k, r)" by fastforce
  then have "k = 7 \<or> k = 8" using Cons.prems by auto
  from vote_view_correct [OF Cons.prems(1) this refl, of r] Cons.IH Cons.prems(2) show ?case
    by (simp add: v)
qed simp

text \<open>The finality that subscribers see can go back. A lower value is meant to be ignored, and is not
  sent when it comes up; but it is stored, and so is a vote that went back, and a later
  value above the stored one, though below the one sent, is sent: here 5, then 3.\<close>

lemma finality_channel_goes_back:
  "finality_consensus (snd (finality_votes [(7, 5), (8, 5)] (test_db [7, 8], count_channels))) = 5 \<and>
   finality_consensus (snd (finality_votes [(7, 5), (8, 5), (7, 2), (8, 6), (7, 3)] (test_db [7, 8], count_channels))) = 3"
proof -
  let ?s = "(test_db [7, 8], count_channels)"
  have v: "view_of ?s = (None, None, None, 0)"
    by (simp add: view_of_def get_finality_vote_def get_finality_consensus_def test_db_def cons_db_empty_def count_channels_def)
  have e: "finality_consensus (snd (finality_votes vs ?s)) = snd (snd (snd (fold vote_view vs (view_of ?s))))"
    if "\<forall>(k, r) \<in> set vs. k = 7 \<or> k = 8" for vs
    using finality_votes_view [of ?s vs] that by (auto simp: view_of_def prod_eq_iff)
  show ?thesis
    by (simp add: e v vote_view_def or_zero_def min_def Let_def del: finality_votes_simps)
qed

end
