(* ===== verification/App_Params.thy ===== *)
theory App_Params
  imports App_Theorems Cons_Finality
begin

section \<open>Blocks, restarts and the change of membership\<close>

text \<open>
  Where the application and the consensus meet: which block the application is given
  (\<open>node/src/app_api.rs\<close>), what a restart in the middle of a block makes of its position, and how a
  change of the peer set decided in the control module reaches the schedule of the consensus
  (\<open>node-app/src/process_citem.rs\<close>).
\<close>

subsection \<open>The next block\<close>

text \<open>C22. Once a notarized block is below both finality rounds the application gets it: the
  node holds its payload, the leader is the one of the round, the peer of the parameters in force then that the hash of the
  round modulo their number picks, and the items are those of the payload. A
  payload that does not decode makes the node panic: nobody checks it before the block is final.\<close>

theorem next_block_delivered:
  assumes inv: "cons_inv (env_crypto env) d" and b: "get_next_notarized_block d req = Some b"
    and fin: "bh_round b < finality_consensus ch" "bh_round b < finality_self_vote ch"
  shows "\<exists>payload params. get_block_payload d (payload_hash b) = Some payload \<and>
    params_at d (bh_round b) = Some params \<and> peers params \<noteq> [] \<and>
    ack_and_wait_next_block env ch d req = (case env_dec_citems env payload of
       Some citems \<Rightarrow> Ok (Inr (b,
         peers params ! (unat (blake3 (env_crypto env) (enc_round (env_crypto env) (bh_round b))) mod length (peers params)), citems))
     | None \<Rightarrow> (Panic ''Can't fail'' :: ('e, _) res))"
proof -
  let ?cr = "env_crypto env" and ?r = "bh_round b"
  have mid: "mid_inv ?cr d" using inv by (rule cons_inv_imp_mid)
  have n: "\<And>r b. tbl_get (cons_blocks_notarized d) r = Some b \<Longrightarrow> bh_round b = r \<and> header_ok ?cr d b"
    using mid unfolding mid_inv_def notar_inv_def by blast
  then have nb: "tbl_get (cons_blocks_notarized d) ?r = Some b" "req \<le> ?r"
    using b next_notarized_Some_iff [of d req b] by auto
  then obtain params payload where p: "params_at d ?r = Some params" and pl: "get_block_payload d (payload_hash b) = Some payload"
    using n [OF nb(1)] by (auto simp: header_ok_def get_block_payload_def)
  have ok: "params_ok ?cr params" using params_at_ok [OF mid_inv_sched [OF mid] p] .
  then have np: "num_peers params = (Ok (of_nat (length (peers params))) :: ('e, _) res)"
    by (simp add: num_peers_Ok_iff params_ok_def)
  obtain l where l: "leader_idx ?cr ?r (of_nat (length (peers params))) = (Ok l :: ('e, _) res)"
    using leader_ok [OF mid_inv_sched [OF mid] p, of ?r, where 'a = 'e] np by (auto simp: params_leader_idx_def)
  have ll: "unat l < length (peers params)"
    using leader_idx_less [OF l] ok by (simp add: params_ok_def total_of_nat)
  have g: "get_consensus_params d ?r = (Ok params :: ('e, _) res)" using p by (simp add: get_consensus_params_Ok_iff)
  have "ack_and_wait_next_block env ch d req = (case env_dec_citems env payload of
       Some citems \<Rightarrow> Ok (Inr (b, peers params ! unat l, citems)) | None \<Rightarrow> (Panic ''Can't fail'' :: ('e, _) res))"
    using fin nb(2) b pl ll
    by (auto simp: ack_and_wait_next_block_def g np l split: option.splits)
  moreover have "unat l = unat (blake3 ?cr (enc_round ?cr ?r)) mod length (peers params)"
  proof -
    have "total (of_nat (length (peers params))) = length (peers params)" using ok by (simp add: params_ok_def total_of_nat)
    then have "l = of_nat (unat (blake3 ?cr (enc_round ?cr ?r)) mod length (peers params))"
      using l by (simp add: leader_idx_def split: if_splits)
    moreover have "x mod length (peers params) < 2 ^ 8" for x
    proof -
      have "0 < length (peers params)" "length (peers params) \<le> 255" using ok by (simp_all add: params_ok_def)
      then have "x mod length (peers params) < 256" using mod_less_divisor [of "length (peers params)" x] by linarith
      then show ?thesis by simp
    qed
    ultimately show ?thesis by (simp add: unsigned_of_nat take_bit_nat_eq_self)
  qed
  moreover have "peers params \<noteq> []" using ok by (simp add: params_ok_def)
  ultimately show ?thesis using pl p by (auto split: option.split)
qed

theorem next_block_delivered_witness:
  "\<forall>dec. (ack_and_wait_next_block (app_env1\<lparr>env_crypto := agree_crypto, env_dec_citems := dec\<rparr>)
     (count_channels\<lparr>finality_consensus := 1, finality_self_vote := 1\<rparr>) agree_db 0 :: (unit, _) res) =
   (case dec [5] of Some citems \<Rightarrow> Ok (Inr (agree_block, 7, citems)) | None \<Rightarrow> Panic ''Can't fail'')"
proof
  fix dec
  let ?env = "app_env1\<lparr>env_crypto := agree_crypto, env_dec_citems := dec\<rparr>"
  have i: "cons_inv (env_crypto ?env) agree_db" using agree_inv by simp
  have r: "bh_round agree_block = 0" by simp
  have "tbl_get (cons_blocks_notarized agree_db) r = Some b \<Longrightarrow> bh_round b = r" for r b
    by (simp split: if_splits)
  then have n: "get_next_notarized_block agree_db 0 = Some agree_block"
    using next_notarized_Some_iff [of agree_db 0 agree_block] r by simp
  have "payload_hash agree_block = 5" by (simp add: agree_block_def)
  then have pl: "get_block_payload agree_db (payload_hash agree_block) = Some [5]" by (simp add: get_block_payload_def)
  obtain payload params where d: "get_block_payload agree_db (payload_hash agree_block) = Some payload"
    "params_at agree_db (bh_round agree_block) = Some params"
    "ack_and_wait_next_block ?env (count_channels\<lparr>finality_consensus := 1, finality_self_vote := 1\<rparr>) agree_db 0 =
      (case env_dec_citems ?env payload of
         Some citems \<Rightarrow> Ok (Inr (agree_block, peers params ! (unat (blake3 (env_crypto ?env) (enc_round (env_crypto ?env)
           (bh_round agree_block))) mod length (peers params)), citems))
       | None \<Rightarrow> (Panic ''Can't fail'' :: (unit, _) res))"
    using next_block_delivered [OF i n, where 'e = unit and ch = "count_channels\<lparr>finality_consensus := 1, finality_self_vote := 1\<rparr>"]
    by (auto simp: r)
  have "payload = [5]" "peers params = [7]" using d(1,2) pl by (auto simp: test_params_def)
  then show "(ack_and_wait_next_block ?env (count_channels\<lparr>finality_consensus := 1, finality_self_vote := 1\<rparr>) agree_db 0 :: (unit, _) res) =
    (case dec [5] of Some citems \<Rightarrow> Ok (Inr (agree_block, 7, citems)) | None \<Rightarrow> Panic ''Can't fail'')"
    unfolding d(3) by (simp split: option.split)
qed

subsection \<open>Restarts\<close>

text \<open>C23. The position inside a block that a restarted node loads is not used past the first
  item: from whatever item on it had processed the block, it processes it again from the second item on.\<close>

theorem restart_position_ignored:
  assumes "0 < p"
  shows "process_block env b voter cs ((r, p), s) = process_block env b voter cs ((r, 1), s)"
  using assms by (cases cs) (simp_all add: process_block_def word_greater_zero_iff)

theorem restart_position_ignored_witness:
  "process_block app_env1 agree_block 7 (replicate 3 (PeerCItem \<lparr>md_module_id = 0, md_inner = []\<rparr>)) ((3, 2), app_state1) =
   process_block app_env1 agree_block 7 (replicate 3 (PeerCItem \<lparr>md_module_id = 0, md_inner = []\<rparr>)) ((3, 1), app_state1)"
  by (rule restart_position_ignored) simp

subsection \<open>The change of membership\<close>

text \<open>C19. A committed consensus item either leaves peer set and consensus alone, or
  schedules, in the same transaction, the peer set that the control module now holds.\<close>

theorem membership_change_scheduled:
  assumes inv: "app_inv env s" and cd: "codec_ok (env_ctrl_codec env)" and ps: "as_peer_set s = Some ps"
    and ok: "process_citem_try env pos ts voter ps c s = Ok s'"
  shows "get_peer_set (app_ctrl (as_db s') CONSENSUS_CTRL_MODULE_ID) = ps \<and> app_cons (as_db s') = app_cons (as_db s) \<or>
    consensus_params_change_tx (env_crypto env) (as_chan s) (fst pos) ts
      (get_peer_set (app_ctrl (as_db s') CONSENSUS_CTRL_MODULE_ID)) (app_cons (as_db s)) =
    (Ok (app_cons (as_db s')) :: (process_citem_error, _) res)"
proof -
  have eq: "ps = get_peer_set (ctrl0 (as_db s))" using inv ps by (simp add: app_inv_def copies_ok_def)
  obtain ps' mc' tx where b: "process_citem_body env (as_chan s) (as_modules s) pos ts voter (get_peer_set (ctrl0 (as_db s)))
      (as_configs s) c (wtx_new (as_db s)) = Ok ((ps', mc'), tx)"
    and s': "as_db s' = dbtx tx"
    using ok eq by (auto simp: process_citem_try_def write_with_expect_falliable_def commit_def split: res.splits)
  have "ctrl_inv (ctrl_view env) (ctrl0 (as_db s))" "insts_ok env (as_modules s)"
    using inv by (simp_all add: app_inv_def ctrl_ok_def)
  note st = process_citem_body_step [where tx = "wtx_new (as_db s)", simplified, OF b this(2,1) cd]
  show ?thesis using st(3,5) eq by (auto simp: s')
qed

text \<open>A federation of one that votes for a second peer.\<close>

definition vote_env :: app_env where
  "vote_env = app_env1\<lparr>env_crypto := count_crypto, env_ctrl_codec := app_codec\<lparr>dec_ctrl_citem := \<lambda>_. Some (VoteAddPeer 8)\<rparr>\<rparr>"

definition vote_module :: ctrl_module where
  "vote_module = \<lparr>cm_version = ConsensusVersion 0 0, cm_peer_pubkey = Some 7, cm_modules_inits = inits_data (env_inits app_env1)\<rparr>"

definition vote_state :: app_state where
  "vote_state = app_state1\<lparr>as_db := (as_db app_state1)\<lparr>app_cons := count_db, app_ctrl := (\<lambda>_. test_ctrl_db [7])\<rparr>,
     as_modules := tbl_insert 0 \<lparr>dm_config = \<lparr>mc_kind = 0, mc_version = ConsensusVersion 0 0\<rparr>, dm_inner = CtrlInst vote_module\<rparr> tbl_empty,
     as_peer_set := Some [7]\<rparr>"

lemma one_peer: "get_peer_set (test_ctrl_db [7]) = [7]"
  by (simp add: get_peer_set_sorted tbl_insert.rep_eq tbl_empty.rep_eq)

lemma two_peers: "get_peer_set (d\<lparr>ctrl_peers := tbl_insert 8 () (tbl_insert 7 () tbl_empty)\<rparr>) = [7, 8]"
  by (simp add: get_peer_set_sorted tbl_insert.rep_eq tbl_empty.rep_eq)

lemma vote_inv: "app_inv vote_env vote_state" "codec_ok (env_ctrl_codec vote_env)"
proof -
  show "codec_ok (env_ctrl_codec vote_env)" using app_codec_ok by (simp add: codec_ok_def vote_env_def)
  have "env_inits vote_env = env_inits app_env1" by (simp add: vote_env_def)
  moreover have "get_peer_set (test_ctrl_db [7]) = [7]" by (simp add: one_peer)
  ultimately show "app_inv vote_env vote_state"
    by (auto simp: app_inv_def insts_ok_def inst_ok_def ctrl_ok_def ctrl_inv_def copies_ok_def vote_state_def vote_module_def
        CONSENSUS_CTRL_MODULE_ID_def MODULE_KIND_CONSENSUS_CTRL_def app_state1_def split: if_splits)
qed

lemma vote_processed:
  "\<exists>s'. process_citem_try vote_env (0, 0) 0 7 [7] (PeerCItem \<lparr>md_module_id = 0, md_inner = []\<rparr>) vote_state = Ok s' \<and>
     get_peer_set (app_ctrl (as_db s') CONSENSUS_CTRL_MODULE_ID) = [7, 8]"
proof -
  let ?cd = "env_ctrl_codec vote_env"
  obtain d where v: "process_citem_vote_add_peer vote_module ?cd 7 [7] 8 (test_ctrl_db [7]) =
      Ok ([ctrl_encode ?cd (AddPeerEffect 8), ctrl_encode ?cd (ConsensusParamsChange [7, 8])], d)" "get_peer_set d = [7, 8]"
    by (simp add: process_citem_vote_add_peer_def Let_def to_num_peers_def count_votes_def vote_module_def
        threshold_small two_peers)
  have dec: "dec_ctrl_citem ?cd [] = Some (VoteAddPeer 8)" by (simp add: vote_env_def)
  let ?c = "snd (insert_consensus_params count_crypto 33 (next_params count_crypto 0 0 [7, 8] count_db (test_params [7])) count_db)"
  have ch: "as_chan vote_state = count_channels" by (simp add: vote_state_def app_state1_def count_channels_def)
  have cc: "consensus_params_change_tx count_crypto count_channels 0 0 [7, 8] count_db = (Ok ?c :: (process_citem_error, _) res)"
    by (rule count_db_change) simp
  have e: "entries (tbl_insert 0 x tbl_empty) = [(0 :: 32 word, x)]" for x :: 'a
    by (simp add: tbl_insert.rep_eq tbl_empty.rep_eq)
  have cd: "dec_params_change ?cd (enc_ctrl_effect ?cd (ConsensusParamsChange [7, 8])) = Some [7, 8]"
    using vote_inv(2) by (simp add: codec_ok_def)
  have env: "env_crypto vote_env = count_crypto" by (simp add: vote_env_def)
  have mods: "as_modules vote_state = tbl_insert 0 \<lparr>dm_config = \<lparr>mc_kind = 0, mc_version = ConsensusVersion 0 0\<rparr>,
      dm_inner = CtrlInst vote_module\<rparr> tbl_empty"
    "app_cons (as_db vote_state) = count_db" "app_ctrl (as_db vote_state) 0 = test_ctrl_db [7]"
    by (simp_all add: vote_state_def)
  show ?thesis
    by (simp add: process_citem_try_def write_with_expect_falliable_def process_citem_body_def process_item_def
        process_peer_citem_def Let_def mods module_process_citem_def ctrl_tx_def module_tx_def ctrl_process_citem_def
        decode_from_raw_def dec v cc ch env e cd tag_effects_def process_consensus_change_effects_core_pre_def
        core_pre_effect_def MODULE_KIND_CONSENSUS_CTRL_def ctrl_encode_def effect_encode_def effect_decode_def
        all_process_effects_def module_process_effects_def unit_result_def ctrl_process_effects_def
        CONSENSUS_CTRL_MODULE_ID_def save_cur_round_and_idx_def commit_def)
qed

theorem membership_change_scheduled_witness:
  "\<exists>s'. process_citem_try vote_env (0, 0) 0 7 [7] (PeerCItem \<lparr>md_module_id = 0, md_inner = []\<rparr>) vote_state = Ok s' \<and>
     consensus_params_change_tx count_crypto (as_chan vote_state) 0 0 [7, 8] (app_cons (as_db vote_state)) =
       (Ok (app_cons (as_db s')) :: (process_citem_error, _) res)"
proof -
  obtain s' where s': "process_citem_try vote_env (0, 0) 0 7 [7] (PeerCItem \<lparr>md_module_id = 0, md_inner = []\<rparr>) vote_state = Ok s'"
    "get_peer_set (app_ctrl (as_db s') CONSENSUS_CTRL_MODULE_ID) = [7, 8]"
    using vote_processed by blast
  have ps: "as_peer_set vote_state = Some [7]" by (simp add: vote_state_def)
  have "env_crypto vote_env = count_crypto" by (simp add: vote_env_def)
  then show ?thesis using membership_change_scheduled [OF vote_inv ps s'(1)] s' by simp
qed

end
