(* ===== verification/Cons_Liveness.thy ===== *)
theory Cons_Liveness
  imports Cons_Theorems
begin

section \<open>A quorum moves the node on\<close>

text \<open>
  The other half of the handlers of \<open>consensus/src/consensus/handle_vote.rs\<close>: not only is nothing wrong accepted, a vote
  that an honest peer casts is, and the vote that completes a quorum ends the round, for a block as
  for a dummy.
\<close>

lemma card_insert_vote:
  fixes t :: "(block_round \<times> peer_idx, 'v) table"
  assumes "tbl_get t (r, i) = None"
  shows "card {j. tbl_get (tbl_insert (r, i) v t) (r, j) \<noteq> None} = Suc (card {j. tbl_get t (r, j) \<noteq> None})"
proof -
  have "{j. tbl_get (tbl_insert (r, i) v t) (r, j) \<noteq> None} = insert i {j. tbl_get t (r, j) \<noteq> None}" by auto
  then show ?thesis using assms by simp
qed

lemma num_votes_inserted:
  "tbl_get (cons_votes_dummy d) (r, i) = None \<Longrightarrow>
     get_num_votes_dummy (snd (insert_dummy_vote r i s d)) r = Suc (get_num_votes_dummy d r)"
  "tbl_get (cons_votes_block d) (r, i) = None \<Longrightarrow>
     get_num_votes_proposal (snd (insert_block_vote r i v d)) r = Suc (get_num_votes_proposal d r)"
  using card_insert_vote [of "cons_votes_dummy d" r i s] card_insert_vote [of "cons_votes_block d" r i v]
  by (simp_all add: num_votes_dummy num_votes_proposal insert_dummy_vote_def insert_block_vote_def)

text \<open>A round that is over is left, unless a pin forbids it.\<close>

lemma check_round_end_leaves:
  assumes "mid_inv cr (dbtx tx)" "cur = get_current_round (dbtx tx)" "cur \<noteq> - 1" "round_synced cur tx"
    and over: "\<And>h. ended (dbtx tx) h cur" and pins: "\<And>r. tbl_get (cons_blocks_pinned (dbtx tx)) r = None"
  shows "\<exists>tx'. check_round_end cr our cur tx = Ok tx' \<and> cur < get_current_round (dbtx tx')"
proof -
  have "check_round_end cr our cur tx \<noteq> Err PinnedMismatch" using check_round_end_Err pins by fastforce
  then obtain tx' where t: "check_round_end cr our cur tx = Ok tx'" "advanced (dbtx tx) (dbtx tx')"
    using check_round_end_cases [OF assms(1-4)] by blast
  have "get_current_round (dbtx tx') \<noteq> cur" using t(2) over by (auto simp: advanced_def Let_def)
  then show ?thesis using t assms(2) by (auto simp: advanced_def Let_def)
qed

text \<open>The two ways in which a vote of peer \<open>i\<close> completes a quorum.\<close>

definition completes_quorum ::
  "crypto \<Rightarrow> cons_db \<Rightarrow> consensus_params \<Rightarrow> peer_idx \<Rightarrow> block_header \<Rightarrow> bool" where
  "completes_quorum cr d p i b \<longleftrightarrow> (let cur = get_current_round d; thr = threshold (of_nat (length (peers p))) in
     new_dummy cr cur p = (Ok b :: (unit, _) res) \<and> tbl_get (cons_votes_dummy d) (cur, i) = None \<and>
       thr \<le> Suc (get_num_votes_dummy d cur) \<or>
     tbl_get (cons_blocks_proposals d) cur = Some b \<and> tbl_get (cons_votes_block d) (cur, i) = None \<and>
       thr \<le> Suc (get_num_votes_proposal d cur))"

lemma process_vote_ends_round:
  assumes inv: "cons_inv cr d" and cur: "cur = get_current_round d" "cur \<noteq> - 1" and p: "params_at d cur = Some p"
    and q: "completes_quorum cr d p i (inner vote)" and pins: "\<And>r. tbl_get (cons_blocks_pinned d) r = None"
    and sg: "sig_valid cr (peers p) (header_sign_hash cr (inner vote)) i (sig vote)"
    and clen: "clen = of_nat (length (enc_params cr p))"
  shows "bh_round (inner vote) = cur \<and>
    (\<exists>tx'. process_vote cr our cur p clen i vote (wtx_new d) = Ok tx' \<and> cur < get_current_round (dbtx tx'))"
proof -
  have mid: "mid_inv cr d" and below: "\<forall>r b. tbl_get (cons_blocks_notarized d) r = Some b \<longrightarrow> r < cur"
    using inv cur by (auto simp: cons_inv_def)
  have v: "verify_sig_peer_idx cr (header_sign_hash cr) vote i (peers p) = Ok ()" using sg by (simp add: res_simps)
  have go: "\<exists>tx'. check_round_end cr our cur (notify_new_votes (upd (\<lambda>_. d') (wtx_new d))) = Ok tx' \<and>
      cur < get_current_round (dbtx tx')"
    if m: "mid_inv cr d'" and f: "get_current_round d' = cur" "cons_blocks_pinned d' = cons_blocks_pinned d"
      and over: "\<And>h. ended d' h cur" for d'
  proof (rule check_round_end_leaves)
    show "round_synced cur (notify_new_votes (upd (\<lambda>_. d') (wtx_new d)))"
      by (rule round_synced_quiet [OF round_synced_new [of d, folded cur(1)], where hs = "[NotifyNewVotes]"])
        (use f cur in \<open>simp_all add: notify_new_votes_def\<close>)
  qed (use m f over pins cur(2) in \<open>simp_all add: notify_new_votes_def\<close>)
  from q consider
      (dummy) "new_dummy cr cur p = (Ok (inner vote) :: (unit, _) res)" "tbl_get (cons_votes_dummy d) (cur, i) = None"
        "threshold (of_nat (length (peers p))) \<le> Suc (get_num_votes_dummy d cur)"
    | (block) "tbl_get (cons_blocks_proposals d) cur = Some (inner vote)" "tbl_get (cons_votes_block d) (cur, i) = None"
        "threshold (of_nat (length (peers p))) \<le> Suc (get_num_votes_proposal d cur)"
    unfolding completes_quorum_def cur(1) [symmetric] Let_def by (elim disjE conjE) simp_all
  then show ?thesis
  proof cases
    case dummy
    let ?d = "snd (insert_dummy_vote cur i (sig vote) d)"
    have h: "is_dummy (inner vote)" "bh_round (inner vote) = cur" using new_dummy_is_dummy [OF dummy(1)] by simp_all
    have c: "verify_with_content cr (inner vote) (params_hash cr p) clen payload_empty = Ok ()"
      using dummy(1) h clen by (simp add: verify_with_content_Ok_iff payload_empty_def) (simp add: new_dummy_Ok_iff)
    then have "mid_inv cr ?d"
      using process_vote_mid(1) [OF mid below cur(1) p h(2) sg h(1)] h by (simp add: verify_with_content_Ok_iff)
    moreover have "ended ?d x cur" for x
      unfolding ended_def using p dummy(2,3) by (simp add: num_votes_inserted)
    ultimately have "\<exists>tx'. check_round_end cr our cur (notify_new_votes (upd (\<lambda>_. ?d) (wtx_new d))) = Ok tx' \<and>
        cur < get_current_round (dbtx tx')"
      by (intro go) (simp_all add: cur(1) insert_dummy_vote_def)
    moreover have "process_vote cr our cur p clen i vote (wtx_new d) =
        map_err VoteRoundInvariant (check_round_end cr our cur (notify_new_votes (upd (\<lambda>_. ?d) (wtx_new d))))"
      using dummy(2) h(1) by (simp add: process_vote_def v c Let_def insert_dummy_vote_def outcome_of_def)
    ultimately show ?thesis using h(2) by auto
  next
    case block
    let ?d = "snd (insert_block_vote cur i vote d)"
    have "bh_round (inner vote) = cur \<and> header_ok cr d (inner vote)"
      using mid block(1) unfolding mid_inv_def props_inv_def by blast
    then have h: "bh_round (inner vote) = cur" "\<not> is_dummy (inner vote)" by (simp_all add: header_ok_def)
    have "mid_inv cr ?d" using process_vote_mid(2) [OF mid below cur(1) p h(1) sg h(2)] block(1) by simp
    moreover have "params_at ?d = params_at d" "cons_blocks_proposals ?d = cons_blocks_proposals d"
      by (simp_all add: insert_block_vote_def)
    then have "ended ?d x cur" for x
      unfolding ended_def using p block by (simp add: num_votes_inserted)
    ultimately have "\<exists>tx'. check_round_end cr our cur (notify_new_votes (upd (\<lambda>_. ?d) (wtx_new d))) = Ok tx' \<and>
        cur < get_current_round (dbtx tx')"
      by (intro go) (simp_all add: cur(1) insert_block_vote_def)
    moreover have "process_vote cr our cur p clen i vote (wtx_new d) =
        map_err VoteRoundInvariant (check_round_end cr our cur (notify_new_votes (upd (\<lambda>_. ?d) (wtx_new d))))"
      using block h by (simp add: process_vote_def v Let_def insert_block_vote_def get_proposal_def outcome_of_def outcome_map_def)
    ultimately show ?thesis using h(1) by auto
  qed
qed

text \<open>C7. Progress: when the signed vote of a peer, for the dummy of the current round or for its
  proposal, completes a quorum, the node accepts it and leaves the round. (No block is pinned;
  a pin that does not match is the one reason for which a node stays.)\<close>

theorem quorum_vote_ends_round:
  assumes inv: "cons_inv cr d" and ne: "get_current_round d \<noteq> - 1" and p: "params_at d (get_current_round d) = Some p"
    and q: "completes_quorum cr d p i (inner vote)" and pins: "\<forall>r. get_pinned_block d r = None"
    and sg: "sig_valid cr (peers p) (header_sign_hash cr (inner vote)) i (sig vote)"
  shows "\<exists>tx'. process_vote_response_tx cr our i (Vote vote) (wtx_new d) = Ok tx' \<and>
    get_current_round d < get_current_round (dbtx tx')"
proof -
  let ?cur = "get_current_round d" and ?clen = "of_nat (length (enc_params cr p))"
  have ok: "params_ok cr p" using params_at_ok [OF _ p] inv by (auto simp: cons_inv_def mid_inv_def)
  then have "params_len cr p = (Ok ?clen :: (process_vote_error, _) res)" by (simp add: params_len_Ok_iff params_ok_def)
  moreover have "get_consensus_params d ?cur = (Ok p :: (process_vote_error, _) res)"
    using p by (simp add: get_consensus_params_Ok_iff)
  moreover have "\<And>r. tbl_get (cons_blocks_pinned d) r = None" using pins by (simp add: get_pinned_block_def)
  from process_vote_ends_round [OF inv refl ne p q this sg refl, of our] obtain tx' where
    "bh_round (inner vote) = ?cur" "process_vote cr our ?cur p ?clen i vote (wtx_new d) = Ok tx'"
    "?cur < get_current_round (dbtx tx')" by blast
  ultimately show ?thesis
    by (simp add: process_vote_response_tx_def response_block_def Let_def ensure_def)
qed

theorem quorum_vote_ends_round_witness:
  "\<exists>b tx'. process_vote_response_tx test_crypto None 0 (Vote \<lparr>inner = b, sig = 3\<rparr>) (wtx_new (test_db [7])) = Ok tx' \<and>
     0 < get_current_round (dbtx tx')"
proof -
  let ?d = "test_db [7]"
  obtain b where b: "new_dummy test_crypto 0 (test_params [7]) = (Ok b :: (unit, _) res)"
    by (simp add: new_dummy_Ok_iff)
  have t: "threshold (of_nat (length (peers (test_params [7])))) \<le> Suc n" for n
    by (simp add: test_params_def threshold_def max_faulty_def total_def)
  have v: "tbl_get (cons_votes_dummy ?d) k = None" "get_pinned_block ?d r = None" for k r
    by (simp_all add: test_db_def cons_db_empty_def get_pinned_block_def)
  have q: "completes_quorum test_crypto ?d (test_params [7]) 0 (inner \<lparr>inner = b, sig = 3\<rparr>)"
    using b t by (simp add: completes_quorum_def Let_def v)
  have sg: "sig_valid test_crypto (peers (test_params [7])) h 0 s" for h s
    by (simp add: sig_valid_def test_params_def)
  have "\<exists>tx'. process_vote_response_tx test_crypto None 0 (Vote \<lparr>inner = b, sig = 3\<rparr>) (wtx_new ?d) = Ok tx' \<and>
      get_current_round ?d < get_current_round (dbtx tx')"
    by (rule quorum_vote_ends_round [OF test_db_inv _ _ q]) (simp_all add: v sg)
  then show ?thesis by auto
qed

subsection \<open>The timeout of a round\<close>

lemma timeout_millis:
  "unat (200 * push_bit (unat (min l 32)) (1 :: 64 word)) = 200 * 2 ^ min (unat l) 32" for l :: "64 word"
proof -
  have m: "unat (min l 32) = min (unat l) 32" by (simp add: min_def word_le_nat_alt)
  have b: "(2::nat) ^ min (unat l) 32 \<le> 2 ^ 32" by (rule power_increasing) simp_all
  have u: "n < 2 ^ 64 \<Longrightarrow> unat (of_nat n :: 64 word) = n" for n
    by (simp add: unsigned_of_nat take_bit_nat_eq_self)
  have "push_bit (unat (min l 32)) (1 :: 64 word) = of_nat (2 ^ min (unat l) 32)"
    by (simp add: m push_bit_eq_mult)
  then have "200 * push_bit (unat (min l 32)) (1 :: 64 word) = of_nat (200 * 2 ^ min (unat l) 32)" by simp
  moreover have "unat (of_nat (200 * 2 ^ min (unat l) 32) :: 64 word) = 200 * 2 ^ min (unat l) 32"
    by (rule u) (use b in simp)
  ultimately show ?thesis by simp
qed

lemma unat_lag:
  fixes cur fin :: "64 word"
  assumes "unat fin + n < 2 ^ 64"
  shows "unat (case checked_sub cur (fin + of_nat n) of Some l \<Rightarrow> l | None \<Rightarrow> 0) = unat cur - (unat fin + n)"
proof -
  have "unat (fin + of_nat n) = unat fin + n"
    using assms by (simp add: unat_word_ariths unsigned_of_nat take_bit_nat_eq_self)
  then show ?thesis by (auto simp: checked_sub_def word_le_nat_alt unat_sub_if')
qed

text \<open>C15. The timeout of a round is a function of how far finality lags behind: it is 200 ms while the lag is at most
  the number of peers, doubles with every round from there, and never exceeds \<open>200 * 2 ^ 32\<close> ms; nothing panics.\<close>

theorem round_timeout_bounds:
  assumes "node_inv cr s" "get_current_round (fst s) \<noteq> - 1" "unat (finality_consensus (snd s)) + 255 < 2 ^ 64"
  shows "\<exists>t p. get_current_round_timeout (snd s) (fst s) = (Ok t :: (unit, _) res) \<and>
    params_at (fst s) (get_current_round (fst s)) = Some p \<and>
    unat t = 200 * 2 ^ min (unat (get_current_round (fst s)) - (unat (finality_consensus (snd s)) + length (peers p))) 32 \<and>
    200 \<le> unat t \<and> unat t \<le> 200 * 2 ^ 32"
proof -
  let ?c = "snd s" and ?d = "fst s"
  have cur: "fst (current_round_with_timeout ?c) = get_current_round ?d" and "cons_inv cr ?d"
    using assms(1,2) by (auto simp: node_inv_def)
  then have "sched_inv cr ?d" by (simp add: cons_inv_def mid_inv_def)
  then obtain p where p: "params_at ?d (get_current_round ?d) = Some p" "params_ok cr p" by (rule params_at_Some)
  have np: "num_peers p = (Ok (of_nat (length (peers p))) :: (unit, _) res)" "total (of_nat (length (peers p))) = length (peers p)"
    using p(2) by (simp_all add: params_ok_def num_peers_Ok_iff total_of_nat)
  have g: "get_consensus_params ?d (get_current_round ?d) = (Ok p :: (unit, _) res)"
    using p(1) by (simp add: get_consensus_params_Ok_iff)
  let ?lag = "case checked_sub (get_current_round ?d) (finality_consensus ?c + of_nat (length (peers p))) of
    Some l \<Rightarrow> l | None \<Rightarrow> 0"
  have "get_current_round_timeout ?c ?d = (Ok (200 * push_bit (unat (min ?lag 32)) 1) :: (unit, _) res)"
    using g np by (simp add: get_current_round_timeout_def Let_def cur)
  moreover have "unat (finality_consensus ?c) + length (peers p) < 2 ^ 64" using assms(3) p(2) by (simp add: params_ok_def)
  moreover have "(2::nat) ^ min n 32 \<le> 2 ^ 32" for n by (rule power_increasing) simp_all
  ultimately show ?thesis using p(1) timeout_millis [of ?lag] unat_lag by simp
qed

theorem round_timeout_bounds_witness:
  "\<exists>t. get_current_round_timeout (\<lparr>current_round_with_timeout = (0, False), finality_consensus = 0, finality_self_vote = 0, new_votes = 0, new_proposal = 0\<rparr>) (test_db [7]) = (Ok t :: (unit, _) res) \<and> unat t = 200"
proof -
  let ?s = "(test_db [7], \<lparr>current_round_with_timeout = (0, False), finality_consensus = 0, finality_self_vote = 0, new_votes = 0, new_proposal = 0\<rparr>)"
  have "node_inv test_crypto ?s" by (simp add: node_inv_def test_db_inv)
  then have "\<exists>t p. get_current_round_timeout (snd ?s) (fst ?s) = (Ok t :: (unit, _) res) \<and>
    params_at (fst ?s) (get_current_round (fst ?s)) = Some p \<and>
    unat t = 200 * 2 ^ min (unat (get_current_round (fst ?s)) - (unat (finality_consensus (snd ?s)) + length (peers p))) 32 \<and>
    200 \<le> unat t \<and> unat t \<le> 200 * 2 ^ 32"
    by (rule round_timeout_bounds) simp_all
  then show ?thesis by auto
qed

end
