(* ===== verification/Node_Secret.thy ===== *)
theory Node_Secret
  imports Signed_Msg Peer_Set
begin

section \<open>The secret of a node\<close>

text \<open>
  \<open>derive-secret/src/lib.rs\<close>, \<open>node/src/derive_secret_ext.rs\<close> and the identity of a node
  (\<open>node/src/node.rs\<close>): a root secret from which the signing key and the network key of a node are
  derived, and the parameters of the federation that a first node creates.

  The key derivation (\<open>hkdf\<close> over \<open>blake3\<close>), the words of a mnemonic (\<open>bip39\<close>) and the public key of a
  signing key are arguments.
\<close>

record deriveable_secret =
  secret_bytes :: hash
  level :: "32 word"

datatype level_error = LevelError (required: "32 word") (actual: "32 word")

definition is_root :: "deriveable_secret \<Rightarrow> bool" where
  "is_root s \<longleftrightarrow> level s = 0"

definition ensure_level :: "32 word \<Rightarrow> deriveable_secret \<Rightarrow> (level_error, unit) res" where
  "ensure_level l s = (if level s \<noteq> l then Err (LevelError l (level s)) else Ok ())"

definition derive :: "(hash \<Rightarrow> byte list \<Rightarrow> hash) \<Rightarrow> 32 word \<Rightarrow> deriveable_secret \<Rightarrow> ('e, deriveable_secret) res" where
  "derive hkdf leaf s =
     res_bind (expect ''Can't overflow level'' (checked_add (level s) 1)) (\<lambda>l.
     Ok \<lparr>secret_bytes = hkdf (secret_bytes s) (to_be_bytes 4 leaf), level = l\<rparr>)"

text \<open>\<open>entropy\<close> is the checked decoding of a mnemonic; its length varies with the number of words.\<close>

definition secret_from_str ::
  "('s \<Rightarrow> (string, byte list) res) \<Rightarrow> 's \<Rightarrow> (string, deriveable_secret) res" where
  "secret_from_str entropy s =
     res_bind (map_err (\<lambda>e. ''Mnemonic deserialization error: '' @ e) (entropy s)) (\<lambda>bytes.
     if length bytes \<noteq> 32 then Err ''Invalid length''
     else Ok \<lparr>secret_bytes = from_be_bytes bytes, level = 0\<rparr>)"

definition secret_to_str :: "(byte list \<Rightarrow> 's) \<Rightarrow> deriveable_secret \<Rightarrow> 's" where
  "secret_to_str mnemonic s = mnemonic (to_be_bytes 32 (secret_bytes s))"

subsection \<open>Keys\<close>

definition PEER_SECKEY_CHILD_ID :: "32 word" where "PEER_SECKEY_CHILD_ID = 0"

definition IROH_SECRET_CHILD_ID :: "32 word" where "IROH_SECRET_CHILD_ID = 1"

definition get_peer_seckey ::
  "(hash \<Rightarrow> byte list \<Rightarrow> hash) \<Rightarrow> deriveable_secret \<Rightarrow> (level_error, peer_seckey) res" where
  "get_peer_seckey hkdf s =
     res_bind (ensure_level 0 s) (\<lambda>_.
     res_bind (derive hkdf PEER_SECKEY_CHILD_ID s) (\<lambda>c. Ok (secret_bytes c)))"

definition get_iroh_secret ::
  "(hash \<Rightarrow> byte list \<Rightarrow> hash) \<Rightarrow> deriveable_secret \<Rightarrow> (level_error, hash) res" where
  "get_iroh_secret hkdf s =
     res_bind (ensure_level 0 s) (\<lambda>_.
     res_bind (derive hkdf IROH_SECRET_CHILD_ID s) (\<lambda>c. Ok (secret_bytes c)))"

text \<open>The keys of a node: what \<open>Node::new\<close> derives from the optional root secret.\<close>

record node_keys =
  root_secret :: "deriveable_secret option"
  own_pubkey :: "peer_pubkey option"

definition new_node_keys ::
  "(hash \<Rightarrow> byte list \<Rightarrow> hash) \<Rightarrow> (peer_seckey \<Rightarrow> peer_pubkey) \<Rightarrow> deriveable_secret option \<Rightarrow>
     (level_error, node_keys) res" where
  "new_node_keys hkdf pubkey secret =
     res_bind (case secret of Some s \<Rightarrow> res_bind (get_peer_seckey hkdf s) (\<lambda>sk. Ok (Some (pubkey sk)))
       | None \<Rightarrow> Ok None) (\<lambda>k.
     res_bind (case secret of Some s \<Rightarrow> res_bind (get_iroh_secret hkdf s) (\<lambda>i. Ok (Some i)) | None \<Rightarrow> Ok None) (\<lambda>_.
     Ok \<lparr>root_secret = secret, own_pubkey = k\<rparr>))"

definition get_peer_secret_expect ::
  "(hash \<Rightarrow> byte list \<Rightarrow> hash) \<Rightarrow> node_keys \<Rightarrow> ('e, peer_seckey) res" where
  "get_peer_secret_expect hkdf n =
     res_bind (expect ''Must contain root secret to participate'' (root_secret n)) (\<lambda>s.
     expect ''Level verified by now'' (case get_peer_seckey hkdf s of Ok k \<Rightarrow> Some k | _ \<Rightarrow> None))"

subsection \<open>A new federation\<close>

text \<open>
  The parameters with which \<open>consensus_init_static\<close> creates a federation; \<open>now\<close> is the clock. The
  peers become a \<open>PeerSet\<close> by \<open>From<Vec>\<close>, which sorts them and keeps duplicates.
\<close>

definition consensus_init_params ::
  "(hash \<Rightarrow> byte list \<Rightarrow> hash) \<Rightarrow> (peer_seckey \<Rightarrow> peer_pubkey) \<Rightarrow> deriveable_secret \<Rightarrow> peer_pubkey list \<Rightarrow>
     consensus_version \<Rightarrow> timestamp \<Rightarrow> (level_error, peer_pubkey \<times> consensus_params) res" where
  "consensus_init_params hkdf pubkey secret extra_peers version now =
     res_bind (get_peer_seckey hkdf secret) (\<lambda>sk.
     Ok (pubkey sk, \<lparr>consensus_params_format_version = FORMAT_VERSION, init_core_module_cons_version = version,
       cp_timestamp = now, schedule_round = 0, apply_round = 0, prev_mid_block = None,
       peers = ps_from_iter ([pubkey sk] @ extra_peers)\<rparr>))"

subsection \<open>Lemmas\<close>

lemma checked_add_level [simp]: "checked_add (0 :: 32 word) 1 = Some 1"
  by (simp add: checked_add_one)

lemma get_peer_seckey_Ok_iff [res_simps]:
  "get_peer_seckey hkdf s = Ok k \<longleftrightarrow>
     level s = 0 \<and> k = hkdf (secret_bytes s) (to_be_bytes 4 PEER_SECKEY_CHILD_ID)"
  by (auto simp: get_peer_seckey_def ensure_level_def derive_def res_simps)

lemma get_iroh_secret_Ok_iff [res_simps]:
  "get_iroh_secret hkdf s = Ok k \<longleftrightarrow>
     level s = 0 \<and> k = hkdf (secret_bytes s) (to_be_bytes 4 IROH_SECRET_CHILD_ID)"
  by (auto simp: get_iroh_secret_def ensure_level_def derive_def res_simps)

text \<open>A secret that was derived gives no key: the error names its level.\<close>

lemma derived_secret_gives_no_key:
  assumes "derive hkdf leaf s = (Ok c :: (level_error, _) res)"
  shows "level s < level c" "get_peer_seckey hkdf c = Err (LevelError 0 (level c))"
    "get_iroh_secret hkdf c = Err (LevelError 0 (level c))"
proof -
  show l: "level s < level c"
    using assms less_plus_one by (auto simp: derive_def res_simps checked_add_one split: if_splits)
  then have "level c \<noteq> 0" by auto
  then show "get_peer_seckey hkdf c = Err (LevelError 0 (level c))"
    "get_iroh_secret hkdf c = Err (LevelError 0 (level c))"
    by (simp_all add: get_peer_seckey_def get_iroh_secret_def ensure_level_def)
qed

text \<open>A node that has started can sign for the key that it takes part under.\<close>

lemma node_keys_sign:
  assumes "new_node_keys hkdf pubkey secret = Ok n" "own_pubkey n = Some k"
  shows "\<exists>sk. get_peer_secret_expect hkdf n = (Ok sk :: ('e, _) res) \<and> pubkey sk = k"
proof (cases secret)
  case (Some s)
  then obtain sk where "get_peer_seckey hkdf s = Ok sk" "root_secret n = Some s" "pubkey sk = k"
    using assms by (auto simp: new_node_keys_def res_simps)
  then show ?thesis by (simp add: get_peer_secret_expect_def)
qed (use assms in \<open>auto simp: new_node_keys_def\<close>)

text \<open>The words of a secret give it back; its level is not among them.\<close>

lemma secret_words_roundtrip:
  assumes "\<And>bs. length bs = 32 \<Longrightarrow> entropy (mnemonic bs) = Ok bs"
  shows "secret_from_str entropy (secret_to_str mnemonic s) = Ok (s\<lparr>level := 0\<rparr>)"
  using assms from_be_bytes_prefix [of "[]" "secret_bytes s"]
  by (simp add: secret_from_str_def secret_to_str_def)

text \<open>
  The peers of a new federation are sorted and hold the founder. A key that is named twice has two
  seats.
\<close>

lemma consensus_init_peers:
  assumes "consensus_init_params hkdf pubkey secret extra version now = Ok (k, p)"
  shows "sorted (peers p)" "k \<in> set (peers p)" "length (peers p) = Suc (length extra)"
  using assms by (auto simp: consensus_init_params_def res_simps ps_from_iter_props)

end
