(* ===== verification/Node_Round.thy ===== *)
theory Node_Round
  imports Cons_Liveness Module_Core Node_Secret
begin

section \<open>The rounds of a node\<close>

text \<open>
  \<open>node/src/run_consensus.rs\<close>: how a node drives its consensus. For each round it starts the tasks
  that may still contribute to it (its proposal, its vote, its timeout, one request for a
  vote and one for a notarized block per peer), and hands what they yield to the consensus until the
  round is over.

  The tasks of a round run concurrently in a \<open>JoinSet\<close>. Here this set is a list of entries; a task that runs
  becomes, at any later time, an entry that is done and holds the \<open>RoundEvent\<close> it yielded, computed from the
  state of that time; the loop of the round picks any entry that is done. Between these steps the
  other tasks of the node change the state. So every interleaving is a sequence of steps. The
  network's answers, the clock, the random keys and the encoder of items are arguments.
\<close>

datatype round_event =
  EvVote wait_vote_response block_round peer_idx peer_pubkey
| EvSelfProposal wait_vote_response peer_idx
| EvSelf wait_vote_response peer_idx
| EvSelfTimeout wait_vote_response peer_idx
| EvNotarized peer_idx wait_notarized_block_response

datatype round_task =
  GenerateProposal block_round peer_idx
| VoteProposal block_round peer_idx peer_seckey
| RequestVote block_round peer_idx peer_pubkey bool
| RequestNotarized block_round peer_idx peer_pubkey "block_header option"
| TimeoutVote "block_header signed" peer_idx

subsection \<open>Which tasks a round starts\<close>

text \<open>The consensus may run at most 32 rounds ahead of what the application has processed.\<close>

definition app_ack_allows :: "block_round \<Rightarrow> block_round \<Rightarrow> ('e, bool) res" where
  "app_ack_allows r ack =
     res_bind (expect ''Can't run out of u64 rounds '' (checked_add ack CONSENSUS_PARAMS_CORE_APPLY_DELAY_BASE))
       (\<lambda>bound. Ok (r < bound))"

definition spawn_generate_proposal ::
  "crypto \<Rightarrow> peer_idx option \<Rightarrow> block_round \<Rightarrow> consensus_params \<Rightarrow> vote_set \<Rightarrow> vote_set \<Rightarrow> ('e, round_task list) res" where
  "spawn_generate_proposal cr our r params dummies blocks =
     (let votes = vs_bitor dummies blocks in
      case our of None \<Rightarrow> Ok []
      | Some i \<Rightarrow> res_bind (params_leader_idx cr params r) (\<lambda>leader.
          if leader = i then (if vs_contains votes i then Ok [] else Ok [GenerateProposal r i]) else Ok []))"

definition spawn_vote_proposal ::
  "crypto \<Rightarrow> (hash \<Rightarrow> byte list \<Rightarrow> hash) \<Rightarrow> node_keys \<Rightarrow> peer_idx option \<Rightarrow> block_round \<Rightarrow> consensus_params \<Rightarrow>
     vote_set \<Rightarrow> ('e, round_task list) res" where
  "spawn_vote_proposal cr hkdf keys our r params blocks =
     (case our of None \<Rightarrow> Ok []
      | Some i \<Rightarrow>
          if vs_contains blocks i then Ok []
          else res_bind (params_leader_idx cr params r) (\<lambda>leader.
            if leader = i then Ok []
            else res_bind (get_peer_secret_expect hkdf keys) (\<lambda>sk. Ok [VoteProposal r i sk])))"

definition spawn_vote_requests ::
  "peer_idx option \<Rightarrow> block_round \<Rightarrow> consensus_params \<Rightarrow> vote_set \<Rightarrow> vote_set \<Rightarrow> ('e, round_task list) res" where
  "spawn_vote_requests our r params dummies blocks =
     res_bind (num_peers params) (\<lambda>np.
     res_fold (\<lambda>i tasks.
         if our = Some i then Ok tasks
         else if vs_contains dummies i then Ok tasks
         else res_bind (expect ''Must have an entry''
             (if unat i < length (peers params) then Some (peers params ! unat i) else None)) (\<lambda>k.
           Ok (tasks @ [RequestVote r i k (vs_contains blocks i)])))
       (peer_idx_iter np) [])"

definition spawn_notarized_blocks_requests ::
  "peer_idx option \<Rightarrow> block_round \<Rightarrow> consensus_params \<Rightarrow> block_header option \<Rightarrow> ('e, round_task list) res" where
  "spawn_notarized_blocks_requests our r params prev =
     res_bind (num_peers params) (\<lambda>np.
     res_fold (\<lambda>i tasks.
         if our = Some i then Ok tasks
         else res_bind (expect ''Must have an entry''
             (if unat i < length (peers params) then Some (peers params ! unat i) else None)) (\<lambda>k.
           Ok (tasks @ [RequestNotarized r i k prev])))
       (peer_idx_iter np) [])"

text \<open>The timeout vote is signed when the round starts and released later.\<close>

definition spawn_timeout_vote ::
  "crypto \<Rightarrow> (hash \<Rightarrow> byte list \<Rightarrow> hash) \<Rightarrow> node_keys \<Rightarrow> peer_idx option \<Rightarrow> block_round \<Rightarrow> consensus_params \<Rightarrow>
     vote_set \<Rightarrow> ('e, round_task list) res" where
  "spawn_timeout_vote cr hkdf keys our r params dummies =
     (case our of None \<Rightarrow> Ok []
      | Some i \<Rightarrow>
          if vs_contains dummies i then Ok []
          else res_bind (new_dummy cr r params) (\<lambda>b.
            res_bind (get_peer_secret_expect hkdf keys) (\<lambda>sk.
            Ok [TimeoutVote (new_sign cr (header_sign_hash cr) b sk) i])))"

text \<open>
  \<open>run_consensus_round_inner\<close> up to its loop: the peers whose finality votes are asked for, and the
  tasks of the round.
\<close>

definition start_round ::
  "crypto \<Rightarrow> (hash \<Rightarrow> byte list \<Rightarrow> hash) \<Rightarrow> node_keys \<Rightarrow> block_round \<Rightarrow> consensus_params \<Rightarrow> cons_db \<Rightarrow>
     ('e, peer_pubkey list \<times> round_task list) res" where
  "start_round cr hkdf keys r params d =
     (let dummies = get_peers_with_dummy_votes d r; blocks = get_peers_with_proposal_votes d r in
      res_bind (case own_pubkey keys of None \<Rightarrow> Ok None | Some k \<Rightarrow> find_peer_idx params k) (\<lambda>our.
      let prev = get_prev_notarized_block d r in
      res_bind (iter_peers params) (\<lambda>ps.
      res_bind (spawn_generate_proposal cr our r params dummies blocks) (\<lambda>t1.
      res_bind (spawn_vote_proposal cr hkdf keys our r params blocks) (\<lambda>t2.
      res_bind (spawn_vote_requests our r params dummies blocks) (\<lambda>t3.
      res_bind (spawn_notarized_blocks_requests our r params prev) (\<lambda>t4.
      res_bind (spawn_timeout_vote cr hkdf keys our r params dummies) (\<lambda>t5.
      Ok (map snd ps, t1 @ t2 @ t3 @ t4 @ t5)))))))))"

subsection \<open>A proposal\<close>

text \<open>
  What a turn of the loop of \<open>generate_proposal_round_task\<close> sees when it polls its branches: the
  pending transactions, whether the finality has changed since, the items that a module
  proposes, the transactions that have just come, whether the two delays have run out, the node's own finality
  vote, and whether new parameters are scheduled.
\<close>

record proposal_view =
  pv_pending :: "transaction list"
  pv_finality_changed :: bool
  pv_module_citems :: "citem list option"
  pv_transactions_changed :: "transaction list option"
  pv_after_1ms :: bool
  pv_self_vote :: block_round
  pv_after_20ms :: bool
  pv_params_change :: bool

datatype proposal_turn = Retry | Await | Build "citem list"

definition proposal_round_turn :: "block_round \<Rightarrow> proposal_view \<Rightarrow> proposal_turn" where
  "proposal_round_turn cur v =
     (if pv_pending v \<noteq> [] then Build []
      else if pv_finality_changed v then Retry
      else case pv_module_citems v of
        Some citems \<Rightarrow> if citems \<noteq> [] then Build citems else Retry
      | None \<Rightarrow> (case pv_transactions_changed v of
          Some txs \<Rightarrow> if txs \<noteq> [] then Build [] else Retry
        | None \<Rightarrow>
            if pv_after_1ms v \<and> \<not> cur \<le> pv_self_vote v then Build []
            else if pv_after_20ms v \<and> pv_params_change v then Build []
            else Await))"

definition generate_proposal ::
  "crypto \<Rightarrow> (citem list \<Rightarrow> payload) \<Rightarrow> timestamp \<Rightarrow> block_round \<Rightarrow> citem list \<Rightarrow> cons_db \<Rightarrow>
     ('e, block_header \<times> payload) res" where
  "generate_proposal cr enc_citems now r citems d =
     res_bind (get_consensus_params d r) (\<lambda>params.
     let prev = get_prev_notarized_block d r; payload = enc_citems citems in
     res_bind (header_new cr prev now r params payload) (\<lambda>h. Ok (h, payload)))"

text \<open>The rest of the task, once the loop has left with \<open>pending\<close>; \<open>txs\<close> are the transactions then pending.\<close>

definition build_proposal ::
  "crypto \<Rightarrow> (hash \<Rightarrow> byte list \<Rightarrow> hash) \<Rightarrow> (citem list \<Rightarrow> payload) \<Rightarrow> node_keys \<Rightarrow> timestamp \<Rightarrow> block_round \<Rightarrow>
     peer_idx \<Rightarrow> citem list \<Rightarrow> transaction list \<Rightarrow> cons_db \<Rightarrow> ('e, round_event) res" where
  "build_proposal cr hkdf enc_citems keys now cur i pending txs d =
     res_bind (generate_proposal cr enc_citems now cur (pending @ map Transaction txs) d) (\<lambda>(b, payload).
     res_bind (get_peer_secret_expect hkdf keys) (\<lambda>sk.
     Ok (EvSelfProposal (Proposal (new_sign cr (header_sign_hash cr) b sk) payload) i)))"

subsection \<open>The other tasks\<close>

text \<open>A turn of the loop of the voting task: \<open>None\<close> waits for a new proposal.\<close>

definition vote_proposal_turn ::
  "crypto \<Rightarrow> block_round \<Rightarrow> peer_idx \<Rightarrow> peer_seckey \<Rightarrow> cons_db \<Rightarrow> ('e, round_event option) res" where
  "vote_proposal_turn cr r i sk d =
     res_bind (get_proposal d r) (\<lambda>p. Ok (map_option (\<lambda>b. EvSelf (Vote (new_sign cr (header_sign_hash cr) b sk)) i) p))"

text \<open>The timeout vote waits for the consensus to ask for it, or for items of the node's own, and then sleeps.\<close>

definition timeout_enabled :: "block_round \<Rightarrow> channels \<Rightarrow> bool \<Rightarrow> bool \<Rightarrow> bool" where
  "timeout_enabled r c forced own_citems \<longleftrightarrow>
     fst (current_round_with_timeout c) = r \<and> (snd (current_round_with_timeout c) \<or> forced) \<or> own_citems"

definition timeout_vote_event :: "block_header signed \<Rightarrow> peer_idx \<Rightarrow> round_event" where
  "timeout_vote_event s i = EvSelfTimeout (Vote s) i"

text \<open>The requests retry until there is an answer; they yield it with what they asked for.\<close>

definition request_peer_vote :: "wait_vote_response \<Rightarrow> block_round \<Rightarrow> peer_idx \<Rightarrow> peer_pubkey \<Rightarrow> round_event" where
  "request_peer_vote resp r i k = EvVote resp r i k"

definition notarized_block_request :: "block_round \<Rightarrow> block_header option \<Rightarrow> ('e, wait_notarized_block_request) res" where
  "notarized_block_request r prev =
     res_bind (case prev of None \<Rightarrow> Ok 0 | Some b \<Rightarrow> expect ''Can't fail'' (arr_next (bh_round b))) (\<lambda>m.
     Ok \<lparr>min_notarized_round = m, req_cur_round = r\<rparr>)"

subsection \<open>The loop of a round\<close>

definition logged :: "('e, unit) res \<times> 's \<Rightarrow> 'a \<Rightarrow> ('f, 'a) res \<times> 's" where
  "logged p a = (case p of (Panic m, s) \<Rightarrow> (Panic m, s) | (_, s) \<Rightarrow> (Ok a, s))"

text \<open>
  What the loop does with an event; it yields the tasks it spawns. An error of the consensus is
  logged, a panic is the node's.
\<close>

definition handle_round_event ::
  "crypto \<Rightarrow> peer_pubkey option \<Rightarrow> round_event \<Rightarrow> cons_state \<Rightarrow> ('e, round_task list) res \<times> cons_state" where
  "handle_round_event cr our ev s = (case ev of
      EvVote resp r i k \<Rightarrow>
        let dummy = is_dummy (inner (response_block resp)) in
        logged (process_vote_response cr our i resp s) (if \<not> dummy then [RequestVote r i k True] else [])
    | EvSelfProposal resp i \<Rightarrow> logged (process_vote_response cr our i resp s) []
    | EvSelf resp i \<Rightarrow> logged (process_vote_response cr our i resp s) []
    | EvSelfTimeout resp i \<Rightarrow> logged (process_vote_response cr our i resp s) []
    | EvNotarized i resp \<Rightarrow> logged (process_notarized_block_response cr our resp s) [])"

datatype join_entry = Running round_task | Done round_event

definition over_on_channel :: "block_round \<Rightarrow> channels \<Rightarrow> bool" where
  "over_on_channel cur c \<longleftrightarrow> fst (current_round_with_timeout c) \<noteq> cur"

datatype loop_turn = RoundOver | Joined round_event "join_entry list" | NothingDone

text \<open>
  A turn of the loop before it handles its event: \<open>pick\<close> is the position of the entry that
  \<open>join_next\<close> returns. A \<open>JoinSet\<close> that is empty is a panic.
\<close>

definition loop_turn :: "block_round \<Rightarrow> nat \<Rightarrow> join_entry list \<Rightarrow> channels \<Rightarrow> ('e, loop_turn) res" where
  "loop_turn cur pick es c =
     (if over_on_channel cur c then Ok RoundOver
      else if es = [] then Panic ''Always has events''
      else if pick < length es then (case es ! pick of
          Done ev \<Rightarrow> Ok (Joined ev (take pick es @ drop (Suc pick) es))
        | Running _ \<Rightarrow> Ok NothingDone)
      else Ok NothingDone)"

subsection \<open>Lemmas\<close>

lemma snd_logged [simp]: "snd (logged p a) = snd p"
  by (auto simp: logged_def split: prod.splits res.splits)

text \<open>The sets of peers that the round starts from are the peers with a vote in the tables.\<close>

lemma contains_votes [simp]:
  "vs_contains (get_peers_with_dummy_votes d r) i \<longleftrightarrow> tbl_get (cons_votes_dummy d) (r, i) \<noteq> None"
  "vs_contains (get_peers_with_proposal_votes d r) i \<longleftrightarrow> tbl_get (cons_votes_block d) (r, i) \<noteq> None"
proof -
  have "i \<in> (\<lambda>e. snd (fst e)) ` set (range_entries (round_keys r) (entries t)) \<longleftrightarrow> tbl_get t (r, i) \<noteq> None"
    for t :: "(block_round \<times> peer_idx, 'v) table"
    by (force simp: range_entries_def round_keys_iff image_iff simp flip: tb.scan_get)
  then show "vs_contains (get_peers_with_dummy_votes d r) i \<longleftrightarrow> tbl_get (cons_votes_dummy d) (r, i) \<noteq> None"
    "vs_contains (get_peers_with_proposal_votes d r) i \<longleftrightarrow> tbl_get (cons_votes_block d) (r, i) \<noteq> None"
    by (simp_all add: get_peers_with_dummy_votes_def get_peers_with_proposal_votes_def contains_collect)
qed

lemma contains_either [simp]:
  "vs_contains (vs_bitor (get_peers_with_dummy_votes d r) (get_peers_with_proposal_votes d r)) i \<longleftrightarrow>
     tbl_get (cons_votes_dummy d) (r, i) \<noteq> None \<or> tbl_get (cons_votes_block d) (r, i) \<noteq> None"
proof -
  have "vs_valid (get_peers_with_dummy_votes d r)"
    by (simp add: get_peers_with_dummy_votes_def fold_invariant [where P = vs_valid and Q = "\<lambda>_. True"]
        vs.valid_empty vs.valid_ins)
  then show ?thesis
    using contains_votes [of d r i] by (simp add: contains_set set_bitor)
qed

subsection \<open>The tasks of a round\<close>

lemma requests_Ok:
  assumes "length (peers p) \<le> 255"
  shows "spawn_vote_requests our r p v w = (Ok (concat (map (\<lambda>j.
        if our = Some j \<or> vs_contains v j then [] else [RequestVote r j (peers p ! unat j) (vs_contains w j)])
        (peer_idx_iter (of_nat (length (peers p)))))) :: ('e, _) res)"
    and "spawn_notarized_blocks_requests our r p prev = (Ok (concat (map (\<lambda>j.
        if our = Some j then [] else [RequestNotarized r j (peers p ! unat j) prev])
        (peer_idx_iter (of_nat (length (peers p)))))) :: ('e, _) res)"
proof -
  have n: "num_peers p = (Ok (of_nat (length (peers p))) :: ('e, _) res)" using assms by (simp add: num_peers_Ok_iff)
  have u: "unat (of_nat (length (peers p)) :: num_peers) = length (peers p)" using assms by (simp add: unat_of_nat)
  show "spawn_vote_requests our r p v w = (Ok (concat (map (\<lambda>j.
        if our = Some j \<or> vs_contains v j then [] else [RequestVote r j (peers p ! unat j) (vs_contains w j)])
        (peer_idx_iter (of_nat (length (peers p)))))) :: ('e, _) res)"
    unfolding spawn_vote_requests_def n res_bind.simps
    by (subst res_fold_append) (auto simp: peer_idx_iter_set total_def u)
  show "spawn_notarized_blocks_requests our r p prev = (Ok (concat (map (\<lambda>j.
        if our = Some j then [] else [RequestNotarized r j (peers p ! unat j) prev])
        (peer_idx_iter (of_nat (length (peers p)))))) :: ('e, _) res)"
    unfolding spawn_notarized_blocks_requests_def n res_bind.simps
    by (subst res_fold_append) (auto simp: peer_idx_iter_set total_def u)
qed

lemma iter_peers_Ok:
  assumes "length (peers p) \<le> 255"
  shows "\<exists>ps. iter_peers p = (Ok ps :: ('e, _) res) \<and> map snd ps = peers p"
proof -
  have "iter_peers p = (Ok (concat (map (\<lambda>(i, k). [(of_nat i, k)]) (enumerate 0 (peers p)))) :: ('e, _) res)"
    unfolding iter_peers_def
    by (subst res_fold_append [where h = "\<lambda>(i, k). [(of_nat i, k)]"])
      (use assms in \<open>auto simp: peer_idx_of_pos_def in_set_enumerate_eq\<close>)
  moreover have "map snd (concat (map (\<lambda>(i, k). [(of_nat i :: peer_idx, k)]) (enumerate n xs))) = xs" for n xs
    by (induction xs arbitrary: n) auto
  ultimately show ?thesis by blast
qed

lemma start_round_tasks:
  assumes ok: "params_ok cr p"
    and our: "(case own_pubkey keys of None \<Rightarrow> Ok None | Some k \<Rightarrow> find_peer_idx p k) = (Ok our :: ('e, _) res)"
    and leader: "params_leader_idx cr p r = (Ok leader :: ('e, _) res)"
    and secret: "our \<noteq> None \<Longrightarrow> get_peer_secret_expect hkdf keys = (Ok sk :: ('e, _) res)"
  shows "\<exists>ts. start_round cr hkdf keys r p d = (Ok (peers p, ts) :: ('e, _) res) \<and> (\<forall>t. t \<in> set ts \<longleftrightarrow> (case t of
      GenerateProposal q i \<Rightarrow> q = r \<and> our = Some i \<and> leader = i \<and>
        tbl_get (cons_votes_dummy d) (r, i) = None \<and> tbl_get (cons_votes_block d) (r, i) = None
    | VoteProposal q i k \<Rightarrow> q = r \<and> our = Some i \<and> k = sk \<and> leader \<noteq> i \<and> tbl_get (cons_votes_block d) (r, i) = None
    | RequestVote q j k only_dummy \<Rightarrow> q = r \<and> unat j < length (peers p) \<and> k = peers p ! unat j \<and> our \<noteq> Some j \<and>
        tbl_get (cons_votes_dummy d) (r, j) = None \<and> only_dummy = (tbl_get (cons_votes_block d) (r, j) \<noteq> None)
    | RequestNotarized q j k prev \<Rightarrow> q = r \<and> unat j < length (peers p) \<and> k = peers p ! unat j \<and> our \<noteq> Some j \<and>
        prev = get_prev_notarized_block d r
    | TimeoutVote s i \<Rightarrow> our = Some i \<and> tbl_get (cons_votes_dummy d) (r, i) = None \<and>
        new_dummy cr r p = (Ok (inner s) :: ('e, _) res) \<and> sig s = sign cr sk (header_sign_hash cr (inner s))))"
proof -
  have le: "length (peers p) \<le> 255" and len: "length (enc_params cr p) < 2 ^ 32"
    using ok by (simp_all add: params_ok_def)
  have u: "unat (of_nat (length (peers p)) :: num_peers) = length (peers p)" using le by (simp add: unat_of_nat)
  obtain ps where ps: "iter_peers p = (Ok ps :: ('e, _) res)" "map snd ps = peers p"
    using iter_peers_Ok [OF le] by blast
  obtain b where b: "new_dummy cr r p = (Ok b :: ('e, _) res)" using len by (simp add: new_dummy_Ok_iff)
  let ?dummies = "get_peers_with_dummy_votes d r" and ?blocks = "get_peers_with_proposal_votes d r"
  define t1 where "t1 = (case our of Some i \<Rightarrow> if leader = i \<and> tbl_get (cons_votes_dummy d) (r, i) = None \<and>
      tbl_get (cons_votes_block d) (r, i) = None then [GenerateProposal r i] else [] | None \<Rightarrow> [])"
  define t2 where "t2 = (case our of Some i \<Rightarrow> if leader \<noteq> i \<and> tbl_get (cons_votes_block d) (r, i) = None
      then [VoteProposal r i sk] else [] | None \<Rightarrow> [])"
  define t5 where "t5 = (case our of Some i \<Rightarrow> if tbl_get (cons_votes_dummy d) (r, i) = None
      then [TimeoutVote (new_sign cr (header_sign_hash cr) b sk) i] else [] | None \<Rightarrow> [])"
  have "spawn_generate_proposal cr our r p ?dummies ?blocks = (Ok t1 :: ('e, _) res)"
    using leader by (auto simp: spawn_generate_proposal_def t1_def split: option.split)
  moreover have "spawn_vote_proposal cr hkdf keys our r p ?blocks = (Ok t2 :: ('e, _) res)"
    using leader secret by (auto simp: spawn_vote_proposal_def t2_def split: option.split)
  moreover have "spawn_timeout_vote cr hkdf keys our r p ?dummies = (Ok t5 :: ('e, _) res)"
    using b secret by (auto simp: spawn_timeout_vote_def t5_def split: option.split)
  ultimately have run: "start_round cr hkdf keys r p d = (Ok (peers p, t1 @ t2 @
      concat (map (\<lambda>j. if our = Some j \<or> tbl_get (cons_votes_dummy d) (r, j) \<noteq> None then []
        else [RequestVote r j (peers p ! unat j) (vs_contains ?blocks j)])
        (peer_idx_iter (of_nat (length (peers p))))) @
      concat (map (\<lambda>j. if our = Some j then [] else [RequestNotarized r j (peers p ! unat j) (get_prev_notarized_block d r)])
        (peer_idx_iter (of_nat (length (peers p))))) @ t5) :: ('e, _) res)"
    using our ps by (simp add: start_round_def requests_Ok [OF le])
  have t5: "t \<in> set t5 \<longleftrightarrow> (\<exists>s i. t = TimeoutVote s i \<and> our = Some i \<and> tbl_get (cons_votes_dummy d) (r, i) = None \<and>
      new_dummy cr r p = (Ok (inner s) :: ('e, _) res) \<and> sig s = sign cr sk (header_sign_hash cr (inner s)))" for t
    by (cases our) (auto simp: t5_def b new_sign_def sign_with_def)
  have t12: "t \<in> set t1 \<longleftrightarrow> (\<exists>i. t = GenerateProposal r i \<and> our = Some i \<and> leader = i \<and>
        tbl_get (cons_votes_dummy d) (r, i) = None \<and> tbl_get (cons_votes_block d) (r, i) = None)"
    "t \<in> set t2 \<longleftrightarrow> (\<exists>i. t = VoteProposal r i sk \<and> our = Some i \<and> leader \<noteq> i \<and>
        tbl_get (cons_votes_block d) (r, i) = None)" for t
    by (auto simp: t1_def t2_def split: option.splits)
  show ?thesis
    unfolding run by (rule exI, rule conjI, rule refl, rule allI)
      (auto simp: t12 t5 peer_idx_iter_set total_def u split: round_task.split if_splits)
qed

text \<open>C10. A round starts exactly the tasks that may still contribute to it. The leader proposes unless
  it has voted, the others vote for its proposal unless they have, and sign a timeout vote unless there is one; every
  other peer is asked for a notarized block, and for its vote unless its dummy vote is known
  (for a dummy vote only when its vote for a block is). Nothing panics; observers only ask.\<close>

theorem round_tasks_started:
  assumes ok: "params_ok cr p"
    and our: "(case own_pubkey keys of None \<Rightarrow> Ok None | Some k \<Rightarrow> find_peer_idx p k) = (Ok our :: ('e, _) res)"
    and leader: "params_leader_idx cr p r = (Ok leader :: ('e, _) res)"
    and secret: "our \<noteq> None \<Longrightarrow> get_peer_secret_expect hkdf keys = (Ok sk :: ('e, _) res)"
  shows "\<exists>ts. start_round cr hkdf keys r p d = (Ok (peers p, ts) :: ('e, _) res) \<and> (\<forall>t. t \<in> set ts \<longleftrightarrow> (case t of
      GenerateProposal q i \<Rightarrow> q = r \<and> our = Some i \<and> leader = i \<and>
        tbl_get (cons_votes_dummy d) (r, i) = None \<and> tbl_get (cons_votes_block d) (r, i) = None
    | VoteProposal q i k \<Rightarrow> q = r \<and> our = Some i \<and> k = sk \<and> leader \<noteq> i \<and> tbl_get (cons_votes_block d) (r, i) = None
    | RequestVote q j k only_dummy \<Rightarrow> q = r \<and> unat j < length (peers p) \<and> k = peers p ! unat j \<and> our \<noteq> Some j \<and>
        tbl_get (cons_votes_dummy d) (r, j) = None \<and> only_dummy = (tbl_get (cons_votes_block d) (r, j) \<noteq> None)
    | RequestNotarized q j k prev \<Rightarrow> q = r \<and> unat j < length (peers p) \<and> k = peers p ! unat j \<and> our \<noteq> Some j \<and>
        prev = get_prev_notarized_block d r
    | TimeoutVote s i \<Rightarrow> our = Some i \<and> tbl_get (cons_votes_dummy d) (r, i) = None \<and>
        new_dummy cr r p = (Ok (inner s) :: ('e, _) res) \<and> sig s = sign cr sk (header_sign_hash cr (inner s))))"
  by (rule start_round_tasks [OF ok our leader secret])

theorem round_tasks_started_witness:
  "\<exists>ts. start_round test_crypto (\<lambda>_ _. 0) \<lparr>root_secret = None, own_pubkey = None\<rparr> 0 (test_params [7, 8]) (test_db [7, 8]) =
     (Ok ([7, 8], ts) :: (unit, _) res) \<and> RequestVote 0 1 8 False \<in> set ts"
proof -
  obtain leader where l: "params_leader_idx test_crypto (test_params [7, 8]) 0 = (Ok leader :: (unit, _) res)"
    by (simp add: params_leader_idx_def num_peers_def to_num_peers_def test_params_def leader_idx_def total_def)
  have pe: "peers (test_params [7, 8]) = [7, 8]" by (simp add: test_params_def)
  have v: "tbl_get (cons_votes_dummy (test_db [7, 8])) k = None" "tbl_get (cons_votes_block (test_db [7, 8])) k = None" for k
    by (simp_all add: test_db_def cons_db_empty_def)
  have "\<exists>ts. start_round test_crypto (\<lambda>_ _. 0) \<lparr>root_secret = None, own_pubkey = None\<rparr> 0 (test_params [7, 8]) (test_db [7, 8]) =
     (Ok (peers (test_params [7, 8]), ts) :: (unit, _) res) \<and> (RequestVote 0 1 8 False \<in> set ts \<longleftrightarrow> True)"
    using round_tasks_started [of test_crypto "test_params [7, 8]" "\<lparr>root_secret = None, own_pubkey = None\<rparr>" None 0 leader
        "\<lambda>_ _. 0" 0 "test_db [7, 8]", OF _ _ l]
    by (auto simp: v pe)
  then show ?thesis by (simp add: pe)
qed

end
