(* ===== verification/Node_Honest.thy ===== *)
theory Node_Honest
  imports Node_Round
begin

section \<open>What a node signs\<close>

text \<open>
  Agreement rests on honest nodes signing one block of a round at most. Here this is proved of the code of
  the node: over every history of rounds, tasks, messages, changes of the parameters and restarts, in
  whatever order the tasks of a round are done.

  \<open>node\<close> is a running node: its consensus, its round with the \<open>JoinSet\<close>, and, of the specification only,
  the headers signed with its key that its consensus has accepted. A signature leaves a node
  from the consensus database only, so these are the signatures that others may see; a
  signed header that the consensus rejects is dropped with its event.
\<close>

record node =
  nd_cons :: cons_state
  nd_round :: "(block_round \<times> join_entry list) option"
  nd_released :: "block_header set"

definition released_by ::
  "crypto \<Rightarrow> peer_pubkey option \<Rightarrow> round_event \<Rightarrow> cons_state \<Rightarrow> block_header set" where
  "released_by cr our ev s =
     (let own = (\<lambda>i resp. if fst (process_vote_response cr our i resp s) = Ok ()
          then {inner (response_block resp)} else {}) in
      case ev of EvSelfProposal resp i \<Rightarrow> own i resp | EvSelf resp i \<Rightarrow> own i resp
      | EvSelfTimeout resp i \<Rightarrow> own i resp | _ \<Rightarrow> {})"

text \<open>The events that a task may yield on a database. The answers of peers are arbitrary.\<close>

inductive task_yields ::
  "crypto \<Rightarrow> (hash \<Rightarrow> byte list \<Rightarrow> hash) \<Rightarrow> (citem list \<Rightarrow> payload) \<Rightarrow> node_keys \<Rightarrow>
     round_task \<Rightarrow> cons_db \<Rightarrow> round_event \<Rightarrow> bool"
  for cr hkdf enc_citems keys where
  generated: "proposal_round_turn r v = Build pending \<Longrightarrow>
     build_proposal cr hkdf enc_citems keys now r i pending txs d = (Ok ev :: (unit, _) res) \<Longrightarrow>
     task_yields cr hkdf enc_citems keys (GenerateProposal r i) d ev"
| voted: "vote_proposal_turn cr r i sk d = (Ok (Some ev) :: (unit, _) res) \<Longrightarrow>
     task_yields cr hkdf enc_citems keys (VoteProposal r i sk) d ev"
| answered: "task_yields cr hkdf enc_citems keys (RequestVote r i k only_dummy) d (request_peer_vote resp r i k)"
| notarized: "task_yields cr hkdf enc_citems keys (RequestNotarized r i k prev) d (EvNotarized i nresp)"
| timed_out: "task_yields cr hkdf enc_citems keys (TimeoutVote s i) d (timeout_vote_event s i)"

inductive_cases task_yields_E:
  "task_yields cr hkdf enc_citems keys (GenerateProposal r i) d ev"
  "task_yields cr hkdf enc_citems keys (VoteProposal r i sk) d ev"
  "task_yields cr hkdf enc_citems keys (RequestVote r i k only_dummy) d ev"
  "task_yields cr hkdf enc_citems keys (RequestNotarized r i k prev) d ev"
  "task_yields cr hkdf enc_citems keys (TimeoutVote s i) d ev"

inductive node_step ::
  "crypto \<Rightarrow> (hash \<Rightarrow> byte list \<Rightarrow> hash) \<Rightarrow> (citem list \<Rightarrow> payload) \<Rightarrow> node_keys \<Rightarrow> node \<Rightarrow> node \<Rightarrow> bool"
  for cr hkdf enc_citems keys where
  start: "nd_round n = None \<Longrightarrow>
     get_current_round_and_params (fst (nd_cons n)) = (Ok (r, p) :: (unit, _) res) \<Longrightarrow>
     start_round cr hkdf keys r p (fst (nd_cons n)) = (Ok (ks, ts) :: (unit, _) res) \<Longrightarrow>
     node_step cr hkdf enc_citems keys n (n\<lparr>nd_round := Some (r, map Running ts)\<rparr>)"
| finish: "nd_round n = Some (r, xs @ Running t # ys) \<Longrightarrow>
     task_yields cr hkdf enc_citems keys t (fst (nd_cons n)) ev \<Longrightarrow>
     node_step cr hkdf enc_citems keys n (n\<lparr>nd_round := Some (r, xs @ Done ev # ys)\<rparr>)"
| join: "nd_round n = Some (r, es) \<Longrightarrow>
     loop_turn r pick es (snd (nd_cons n)) = (Ok (Joined ev rest) :: (unit, _) res) \<Longrightarrow>
     handle_round_event cr (own_pubkey keys) ev (nd_cons n) = (Ok ts :: (unit, _) res, s) \<Longrightarrow>
     node_step cr hkdf enc_citems keys n
       \<lparr>nd_cons = s, nd_round = Some (r, rest @ map Running ts),
        nd_released = released_by cr (own_pubkey keys) ev (nd_cons n) \<union> nd_released n\<rparr>"
| over: "nd_round n = Some (r, es) \<Longrightarrow>
     loop_turn r pick es (snd (nd_cons n)) = (Ok RoundOver :: (unit, _) res) \<Longrightarrow>
     node_step cr hkdf enc_citems keys n (n\<lparr>nd_round := None\<rparr>)"
| finality: "process_finality_vote_update_response cr k update (nd_cons n) = (res, s) \<Longrightarrow>
     node_step cr hkdf enc_citems keys n (n\<lparr>nd_cons := s\<rparr>)"
| params_change: "nd_cons n = (d, c) \<Longrightarrow>
     consensus_params_change_tx cr c r ts ps d = (Ok d' :: (unit, _) res) \<Longrightarrow>
     node_step cr hkdf enc_citems keys n (n\<lparr>nd_cons := (d', c)\<rparr>)"
| restart: "cons_open cr (fst (nd_cons n)) (own_pubkey keys) = Ok s \<Longrightarrow>
     node_step cr hkdf enc_citems keys n (n\<lparr>nd_cons := s, nd_round := None\<rparr>)"

subsection \<open>Proposals are kept\<close>

definition props_kept :: "cons_db \<Rightarrow> cons_db \<Rightarrow> bool" where
  "props_kept d d' \<longleftrightarrow> (\<forall>r b. tbl_get (cons_blocks_proposals d) r = Some b \<longrightarrow>
     tbl_get (cons_blocks_proposals d') r = Some b)"

lemma props_kept_refl [simp]: "props_kept d d"
  by (simp add: props_kept_def)

lemma props_kept_trans: "props_kept d e \<Longrightarrow> props_kept e f \<Longrightarrow> props_kept d f"
  by (simp add: props_kept_def)

lemma progress_props: "progress d d' \<Longrightarrow> props_kept d d'"
  by (simp add: progress_def props_kept_def)

lemma handlers_keep_props:
  "props_kept (fst s) (fst (snd (process_vote_response cr our i resp s)))"
  "props_kept (fst s) (fst (snd (process_notarized_block_response cr our nresp s)))"
  "props_kept (fst s) (fst (snd (process_finality_vote_update_response cr k update s)))"
proof -
  have run: "props_kept (fst s) (fst (snd (write_with_expect_falliable run_hook (unit_tx f) s)))"
    if f: "\<And>tx'. f (wtx_new (fst s)) = Ok tx' \<Longrightarrow> progress (fst s) (dbtx tx')"
    for f :: "cons_tx \<Rightarrow> ('e, cons_tx) res"
    by (rule write_with_cases [of "unit_tx f" s run_hook])
      (auto simp: unit_tx_Ok_iff commit_def intro: progress_props f)
  show "props_kept (fst s) (fst (snd (process_vote_response cr our i resp s)))"
    unfolding process_vote_response_def
    by (rule run) (use process_vote_response_tx_progress in fastforce)
  show "props_kept (fst s) (fst (snd (process_notarized_block_response cr our nresp s)))"
    unfolding process_notarized_block_response_def
    by (rule run) (use process_notarized_block_response_tx_progress in fastforce)
  show "props_kept (fst s) (fst (snd (process_finality_vote_update_response cr k update s)))"
    unfolding process_finality_vote_update_response_def
    by (rule run) (use process_finality_step finality_step_keep keep_progress in fastforce)
qed

lemma handle_round_event_keeps_props:
  "props_kept (fst s) (fst (snd (handle_round_event cr our ev s)))"
  by (cases ev) (simp_all add: handle_round_event_def Let_def handlers_keep_props)

lemma params_change_keeps_props:
  "consensus_params_change_tx cr c r ts ps d = Ok d' \<Longrightarrow> props_kept d d'"
  by (erule consensus_params_change_elim)
    (auto simp: insert_consensus_params_def Let_def props_kept_def split: option.splits)

lemma cons_open_keeps_props: "cons_open cr d our = Ok s \<Longrightarrow> props_kept d (fst s)"
  by (auto simp: cons_open_def open_tx_def res_simps intro: progress_props open_internal_progress)

subsection \<open>The invariant of a node\<close>

text \<open>An accepted proposal is the recorded one.\<close>

lemma accepted_proposal_recorded:
  assumes "process_vote_response_tx cr our i (Proposal block pl) tx = Ok tx'"
  shows "tbl_get (cons_blocks_proposals (dbtx tx')) (bh_round (inner block)) = Some (inner block)"
proof -
  let ?cur = "get_current_round (dbtx tx)"
  obtain params clen out where r: "bh_round (inner block) = ?cur"
    and out: "process_proposal cr ?cur params clen i block pl tx = Ok out"
    and o: "(case out of Inl tx1 \<Rightarrow> Ok tx1 | Inr tx1 \<Rightarrow> process_vote cr our ?cur params clen i block tx1) = Ok tx'"
    using assms by (auto simp: process_vote_response_tx_def res_simps Let_def response_block_def)
  from out obtain ins where ins: "insert_block_proposal ?cur (inner block) pl (dbtx tx) =
      (Ok ins :: (process_vote_error, _) res)"
    and c: "(case fst ins of
       AlreadyPresent existing \<Rightarrow>
         if existing \<noteq> inner block then Err (ForkedProposal i existing)
         else Ok (Inl (upd (\<lambda>_. snd ins) tx))
     | Inserted \<Rightarrow> Ok (Inr (on_commit NotifyNewProposal (upd (\<lambda>_. snd ins) tx)))) = Ok out"
    by (rule process_proposal_elim)
  have here: "tbl_get (cons_blocks_proposals (snd ins)) ?cur = Some (inner block)"
    using ins c by (auto simp: insert_block_proposal_def res_simps retain_votes_def split: option.splits if_splits)
  show ?thesis
  proof (cases out)
    case (Inl tx1)
    then show ?thesis using c o here r by (auto split: insert_outcome.splits if_splits)
  next
    case (Inr tx1)
    then have "dbtx tx1 = snd ins" using c by (auto split: insert_outcome.splits if_splits)
    moreover have g: "?cur = get_current_round (dbtx tx1)"
      using process_proposal_keep [of cr ?cur params clen i block pl tx tx1] out Inr by (simp add: keep_def)
    moreover have "process_vote cr our ?cur params clen i block tx1 = Ok tx'" using o Inr by simp
    from process_vote_progress [OF this g] have "props_kept (dbtx tx1) (dbtx tx')" by (rule progress_props)
    ultimately show ?thesis using here r by (simp add: props_kept_def)
  qed
qed

definition recorded :: "cons_db \<Rightarrow> block_header \<Rightarrow> bool" where
  "recorded d b \<longleftrightarrow> is_dummy b \<or> tbl_get (cons_blocks_proposals d) (bh_round b) = Some b"

lemma recorded_kept: "recorded d b \<Longrightarrow> props_kept d d' \<Longrightarrow> recorded d' b"
  by (auto simp: recorded_def props_kept_def)

text \<open>What an entry of the \<open>JoinSet\<close> holds of the node's own signatures.\<close>

definition entry_ok :: "cons_db \<Rightarrow> join_entry \<Rightarrow> bool" where
  "entry_ok d e = (case e of
      Running (TimeoutVote s i) \<Rightarrow> is_dummy (inner s)
    | Running _ \<Rightarrow> True
    | Done (EvSelf resp i) \<Rightarrow> recorded d (inner (response_block resp))
    | Done (EvSelfTimeout resp i) \<Rightarrow> recorded d (inner (response_block resp))
    | Done (EvSelfProposal resp i) \<Rightarrow> is_proposal resp
    | Done _ \<Rightarrow> True)"

definition signed_inv :: "node \<Rightarrow> bool" where
  "signed_inv n \<longleftrightarrow> (\<forall>b \<in> nd_released n. recorded (fst (nd_cons n)) b) \<and>
     (\<forall>r es e. nd_round n = Some (r, es) \<longrightarrow> e \<in> set es \<longrightarrow> entry_ok (fst (nd_cons n)) e)"

lemma entry_ok_kept: "entry_ok d e \<Longrightarrow> props_kept d d' \<Longrightarrow> entry_ok d' e"
  by (auto simp: entry_ok_def recorded_kept split: join_entry.splits round_task.splits round_event.splits)

lemma start_round_entries:
  assumes "start_round cr hkdf keys r p d = (Ok (ks, ts) :: ('e, _) res)"
  shows "\<forall>t \<in> set ts. entry_ok d (Running t)"
proof -
  let ?ok = "\<lambda>ts. \<forall>t \<in> set ts. entry_ok d (Running t)"
  have generate: "?ok ts" if "spawn_generate_proposal cr our r p v w = (Ok ts :: ('e, _) res)" for our v w ts
    using that by (auto simp: spawn_generate_proposal_def Let_def res_simps entry_ok_def split: option.splits if_splits)
  have vote: "?ok ts" if "spawn_vote_proposal cr hkdf keys our r p v = (Ok ts :: ('e, _) res)" for our v ts
    using that by (auto simp: spawn_vote_proposal_def res_simps entry_ok_def split: option.splits if_splits)
  have timeout: "?ok ts" if "spawn_timeout_vote cr hkdf keys our r p v = (Ok ts :: ('e, _) res)" for our v ts
    using that
    by (auto simp: spawn_timeout_vote_def res_bind_Ok_iff entry_ok_def new_sign_def dest: new_dummy_is_dummy
        split: option.splits if_splits)
  have requests: "?ok ts" if "spawn_vote_requests our r p v w = (Ok ts :: ('e, _) res)" for our v w ts
  proof -
    note spawned = that
    obtain np where "res_fold (\<lambda>i tasks.
         if our = Some i then Ok tasks
         else if vs_contains v i then Ok tasks
         else res_bind (expect ''Must have an entry''
             (if unat i < length (peers p) then Some (peers p ! unat i) else None)) (\<lambda>k.
           Ok (tasks @ [RequestVote r i k (vs_contains w i)]))) (peer_idx_iter np) [] = (Ok ts :: ('e, _) res)"
      using spawned by (auto simp: spawn_vote_requests_def res_bind_Ok_iff)
    then show ?thesis
      by (rule res_fold_invariant) (auto simp: res_simps entry_ok_def split: if_splits)
  qed
  have blocks: "?ok ts" if "spawn_notarized_blocks_requests our r p v = (Ok ts :: ('e, _) res)" for our v ts
  proof -
    note spawned = that
    obtain np where "res_fold (\<lambda>i tasks.
         if our = Some i then Ok tasks
         else res_bind (expect ''Must have an entry''
             (if unat i < length (peers p) then Some (peers p ! unat i) else None)) (\<lambda>k.
           Ok (tasks @ [RequestNotarized r i k v]))) (peer_idx_iter np) [] = (Ok ts :: ('e, _) res)"
      using spawned by (auto simp: spawn_notarized_blocks_requests_def res_bind_Ok_iff)
    then show ?thesis
      by (rule res_fold_invariant) (auto simp: res_simps entry_ok_def split: if_splits)
  qed
  show ?thesis
    using assms by (auto simp: start_round_def Let_def res_bind_Ok_iff dest!: generate vote timeout requests blocks)
qed

lemma finished_entry:
  assumes "task_yields cr hkdf enc_citems keys t d ev" "entry_ok d (Running t)"
  shows "entry_ok d (Done ev)"
  using assms
proof (cases t)
  case (VoteProposal r i sk)
  then obtain b where "ev = EvSelf (Vote (new_sign cr (header_sign_hash cr) b sk)) i"
    "get_proposal d r = (Ok (Some b) :: (unit, _) res)"
    using assms(1) by (auto simp: vote_proposal_turn_def res_bind_Ok_iff elim!: task_yields_E)
  then show ?thesis
    by (auto simp: entry_ok_def response_block_def new_sign_def recorded_def get_proposal_Ok_iff)
qed (auto simp: build_proposal_def res_simps entry_ok_def is_proposal_def request_peer_vote_def
    timeout_vote_event_def response_block_def recorded_def elim!: task_yields_E)

lemma released_recorded:
  assumes "entry_ok (fst s) (Done ev)" "b \<in> released_by cr our ev s"
  shows "recorded (fst (snd (handle_round_event cr our ev s))) b"
proof -
  have kept: "recorded (fst (snd (process_vote_response cr our i resp s))) (inner (response_block resp))"
    if "recorded (fst s) (inner (response_block resp))" for i resp
    using recorded_kept [OF that handlers_keep_props(1)] .
  have new: "recorded (fst (snd (process_vote_response cr our i resp s))) (inner (response_block resp))"
    if "is_proposal resp" "fst (process_vote_response cr our i resp s) = Ok ()" for i resp
  proof -
    note t = that
    obtain block pl where r: "resp = Proposal block pl" using t(1) by (cases resp) (auto simp: is_proposal_def)
    obtain tx where "process_vote_response_tx cr our i resp (wtx_new (fst s)) = Ok tx"
      "snd (process_vote_response cr our i resp s) = commit run_hook tx (snd s)"
      using t(2) unfolding process_vote_response_def
      by (rule_tac write_with_cases [of "unit_tx (process_vote_response_tx cr our i resp)" s run_hook])
        (auto simp: unit_tx_Ok_iff)
    then show ?thesis
      using accepted_proposal_recorded [of cr our i block pl "wtx_new (fst s)" tx] r
      by (simp add: commit_def recorded_def response_block_def)
  qed
  show ?thesis
    using assms kept new
    by (cases ev) (auto simp: released_by_def handle_round_event_def entry_ok_def split: if_splits)
qed

lemma joined_entries:
  assumes "loop_turn r pick es c = (Ok (Joined ev rest) :: ('e, _) res)"
  shows "Done ev \<in> set es" "set rest \<subseteq> set es"
  using assms by (auto simp: loop_turn_def dest: in_set_takeD in_set_dropD split: if_splits join_entry.splits)
    (metis nth_mem)

lemma spawned_entries: "fst (handle_round_event cr our ev s) = (Ok ts :: ('e, _) res) \<Longrightarrow>
    \<forall>t \<in> set ts. entry_ok d (Running t)"
  by (cases ev) (auto simp: handle_round_event_def logged_def Let_def entry_ok_def
      split: prod.splits res.splits if_splits)

lemma signed_inv_kept:
  assumes "signed_inv n" "props_kept (fst (nd_cons n)) (fst s)"
  shows "signed_inv (n\<lparr>nd_cons := s\<rparr>)" "signed_inv (n\<lparr>nd_cons := s, nd_round := None\<rparr>)"
  using assms(1) entry_ok_kept [OF _ assms(2)] recorded_kept [OF _ assms(2)] by (auto simp: signed_inv_def)

lemma node_step_inv:
  assumes "node_step cr hkdf enc_citems keys n n'" "signed_inv n"
  shows "signed_inv n'"
  using assms
proof (cases rule: node_step.cases)
  case (start r p ks ts)
  then show ?thesis using assms(2) start_round_entries [OF start(4)] by (auto simp: signed_inv_def)
next
  case (finish r xs t ys ev)
  then show ?thesis using assms(2) finished_entry [OF finish(3)] by (auto simp: signed_inv_def)
next
  case (join r es pick ev rest ts s)
  have s: "s = snd (handle_round_event cr (own_pubkey keys) ev (nd_cons n) :: (unit, _) res \<times> _)"
    using join(4) by simp
  have kept: "props_kept (fst (nd_cons n)) (fst s)"
    unfolding s by (rule handle_round_event_keeps_props)
  have ok: "entry_ok (fst (nd_cons n)) (Done ev)" "\<forall>e \<in> set rest. entry_ok (fst (nd_cons n)) e"
    using joined_entries [OF join(3)] assms(2) join(2) by (auto simp: signed_inv_def)
  have "recorded (fst s) b" if "b \<in> released_by cr (own_pubkey keys) ev (nd_cons n)" for b
    unfolding s using released_recorded [OF ok(1) that] .
  moreover have "\<forall>t \<in> set ts. entry_ok (fst s) (Running t)"
    using spawned_entries [of cr "own_pubkey keys" ev "nd_cons n" ts, where 'e = unit] join(4) by simp
  ultimately show ?thesis
    using ok(2) kept assms(2) entry_ok_kept recorded_kept
    by (auto simp: signed_inv_def join(1)) 
next
  case (over r es pick)
  then show ?thesis using assms(2) by (simp add: signed_inv_def)
next
  case (finality k update res s)
  then have "s = snd (process_finality_vote_update_response cr k update (nd_cons n))" by simp
  then have "props_kept (fst (nd_cons n)) (fst s)" by (simp add: handlers_keep_props)
  then show ?thesis using signed_inv_kept(1) [OF assms(2)] finality(1) by simp
next
  case (params_change d c r ts ps d')
  then have "props_kept (fst (nd_cons n)) (fst (d', c))" using params_change_keeps_props by fastforce
  then show ?thesis using signed_inv_kept(1) [OF assms(2)] params_change(1) by simp
next
  case (restart s)
  from signed_inv_kept(2) [OF assms(2) cons_open_keeps_props [OF restart(2)]] show ?thesis
    by (simp add: restart(1))
qed

lemma node_history_inv:
  assumes "(node_step cr hkdf enc_citems keys)\<^sup>*\<^sup>* n n'" "signed_inv n"
  shows "signed_inv n'"
  using assms by (induction rule: rtranclp_induct) (auto intro: node_step_inv)

subsection \<open>A proposal of the node's own\<close>

lemma check_round_end_cases_exI:
  "mid_inv cr (dbtx tx) \<Longrightarrow> start = get_current_round (dbtx tx) \<Longrightarrow> start \<noteq> - 1 \<Longrightarrow> round_synced start tx \<Longrightarrow>
     check_round_end cr our start tx = Err PinnedMismatch \<or> (\<exists>tx'. check_round_end cr our start tx = Ok tx')"
  using check_round_end_cases [of cr tx start our] by blast

lemma own_proposal_accepted:
  assumes inv: "cons_inv cr d" and cur: "cur = get_current_round d" "cur \<noteq> - 1" and p: "params_at d cur = Some p"
    and leader: "params_leader_idx cr p cur = (Ok i :: (process_vote_error, _) res)"
    and free: "tbl_get (cons_blocks_proposals d) cur = None" "tbl_get (cons_votes_block d) (cur, i) = None"
    and pins: "\<And>r. tbl_get (cons_blocks_pinned d) r = None"
    and gen: "generate_proposal cr enc_citems now cur citems d = (Ok (inner block, payload) :: (process_vote_error, _) res)"
    and payload: "payload \<noteq> []"
    and sg: "sig_valid cr (peers p) (header_sign_hash cr (inner block)) i (sig block)"
  shows "\<exists>tx'. process_vote_response_tx cr our i (Proposal block payload) (wtx_new d) = Ok tx'"
proof -
  let ?clen = "of_nat (length (enc_params cr p))" and ?b = "inner block"
  let ?prev = "get_prev_notarized_block d cur"
  have mid: "mid_inv cr d" and below: "\<forall>r b. tbl_get (cons_blocks_notarized d) r = Some b \<longrightarrow> r < cur"
    using inv cur(1) by (auto simp: cons_inv_def)
  have cp: "get_consensus_params d cur = (Ok p :: (process_vote_error, _) res)"
    using p by (simp add: get_consensus_params_Ok_iff)
  then have h: "header_new cr ?prev now cur p payload = (Ok ?b :: (process_vote_error, _) res)"
    using gen by (auto simp: generate_proposal_def Let_def res_bind_Ok_iff)
  from header_new_verifies [OF h] prev_notarized_less [OF inv]
  have ok: "verify_with_content cr ?b (params_hash cr p) ?clen payload = Ok ()"
    "does_directly_extend cr ?b ?prev" "bh_round ?b = cur" by simp_all
  have nd: "\<not> is_dummy ?b"
    using h payload of_nat_len_zero [of payload] by (auto simp: header_new_Ok_iff is_dummy_def)
  have cl: "params_len cr p = (Ok ?clen :: (process_vote_error, _) res)"
    using h by (simp add: header_new_Ok_iff params_len_Ok_iff)
  obtain ins where ins: "insert_block_proposal cur ?b payload d = (Ok (Inserted, ins) :: (process_vote_error, _) res)"
    and f: "tbl_get (cons_blocks_proposals ins) cur = Some ?b" "tbl_get (cons_votes_block ins) (cur, i) = None"
      "cons_blocks_pinned ins = cons_blocks_pinned d"
    using free ok(3) by (auto simp: insert_block_proposal_def retain_votes_def tb.get_keep)
  let ?tx = "on_commit NotifyNewProposal (upd (\<lambda>_. ins) (wtx_new d)) :: cons_tx"
  have pp: "process_proposal cr cur p ?clen i block payload (wtx_new d) = Ok (Inr ?tx)"
    using leader nd ok ins by (simp add: process_proposal_def ensure_def Let_def)
  have sy: "round_synced cur (wtx_new d)" unfolding cur(1) by (rule round_synced_new)
  from process_proposal_inv [of cr "wtx_new d" cur p ?clen block i payload ?tx] mid below cur(1) p ok(3) sy pp
  have m: "mid_inv cr ins" "round_synced cur ?tx" "cons_blocks_notarized ins = cons_blocks_notarized d"
    "get_current_round ins = cur" "params_at ins = params_at d" by simp_all
  let ?d = "snd (insert_block_vote cur i block ins)"
  let ?tx2 = "notify_new_votes (upd (\<lambda>_. ?d) ?tx)"
  have "mid_inv cr ?d"
    by (rule process_vote_mid(2) [OF m(1) _ m(4) [symmetric] _ ok(3) sg nd]) (use m(3,5) p below f(1) in simp_all)
  moreover have "round_synced cur ?tx2"
    by (rule round_synced_quiet [OF m(2), where hs = "[NotifyNewVotes]"])
      (use m(4) in \<open>simp_all add: notify_new_votes_def\<close>)
  ultimately have "check_round_end cr our cur ?tx2 = Err PinnedMismatch \<or> (\<exists>tx'. check_round_end cr our cur ?tx2 = Ok tx')"
    by (intro check_round_end_cases_exI) (use m(4) cur(2) in \<open>simp_all add: notify_new_votes_def\<close>)
  moreover have "check_round_end cr our cur ?tx2 \<noteq> Err PinnedMismatch"
    using check_round_end_Err [of cr our cur ?tx2] f(3) pins
    by (fastforce simp: notify_new_votes_def insert_block_vote_def)
  ultimately obtain tx' where "check_round_end cr our cur ?tx2 = Ok tx'" by blast
  moreover have "verify_sig_peer_idx cr (header_sign_hash cr) block i (peers p) = Ok ()"
    using sg by (simp add: verify_sig_peer_idx_Ok_iff)
  ultimately have "process_vote cr our cur p ?clen i block ?tx = Ok tx'"
    using nd f ok(3)
    by (simp add: process_vote_def get_proposal_def Let_def
        insert_block_vote_def outcome_of_def outcome_map_def ensure_def)
  then show ?thesis
    using cp cl pp ok(3) cur(1)
    by (auto simp: process_vote_response_tx_def response_block_def Let_def ensure_def)
qed

end
