(* ===== verification/Node_Agreement.thy ===== *)
theory Node_Agreement
  imports Node_Honest
begin

section \<open>Agreement of the federation\<close>

text \<open>
  The properties that join the consensus and the node that drives it. The closed instance is a federation of one
  peer whose node proposes \<open>agree_block\<close>.
\<close>

definition agree_start :: cons_db where
  "agree_start = cons_db_empty\<lparr>cons_params_schedule := tbl_insert 0 0 tbl_empty,
     cons_params := tbl_insert 0 (test_params [7]) tbl_empty\<rparr>"

definition agree_channels :: channels where
  "agree_channels = \<lparr>current_round_with_timeout = (0, False), finality_consensus = 0, finality_self_vote = 0,
     new_votes = 0, new_proposal = 0\<rparr>"

definition agree_keys :: node_keys where
  "agree_keys = \<lparr>root_secret = Some \<lparr>secret_bytes = 0, level = 0\<rparr>, own_pubkey = Some 7\<rparr>"

definition agree_hkdf :: "hash \<Rightarrow> byte list \<Rightarrow> hash" where
  "agree_hkdf = (\<lambda>_ _. 7)"

definition agree_node :: node where
  "agree_node = \<lparr>nd_cons = (agree_start, agree_channels), nd_round = None, nd_released = {}\<rparr>"

definition agree_event :: round_event where
  "agree_event = EvSelfProposal (Proposal \<lparr>inner = agree_block, sig = word_cat (7 :: hash) (1 :: hash)\<rparr> [5]) 0"

lemma agree_crypto_fields [simp]:
  "blake3 agree_crypto = from_be_bytes" "enc_params agree_crypto p = []" "sign agree_crypto sk h = word_cat sk h"
  "verifying_key_ok agree_crypto k" "verify_strict agree_crypto k h s \<longleftrightarrow> s = word_cat k h" "enc_round agree_crypto 0 = []"
  by (simp_all add: agree_crypto_def)

lemma from_be_bytes_Nil [simp]: "from_be_bytes [] = 0"
  by (simp add: from_be_bytes_def)

lemma agree_start_inv: "cons_inv agree_crypto agree_start"
proof -
  have "init_tx agree_crypto (test_params [7]) None cons_db_empty = Ok (0, agree_start)"
    by (simp add: init_tx_def insert_consensus_params_def Let_def agree_start_def cons_db_empty_def
        get_current_round_def params_hash_def)
  moreover have "params_ok agree_crypto (test_params [7])" by (simp add: params_ok_def test_params_def)
  ultimately show ?thesis using cons_inv_init by blast
qed

lemma agree_start_fields [simp]:
  "get_current_round agree_start = 0" "params_at agree_start r = Some (test_params [7])"
  "tbl_get (cons_blocks_proposals agree_start) r = None" "tbl_get (cons_votes_block agree_start) k = None"
  "tbl_get (cons_votes_dummy agree_start) k = None"
  "tbl_get (cons_blocks_pinned agree_start) r = None" "get_prev_notarized_block agree_start r = None"
proof -
  show "get_current_round agree_start = 0"
    by (simp add: agree_start_def cons_db_empty_def get_current_round_def)
  have "last_entry (\<lambda>k. k \<le> r) (entries (cons_params_schedule agree_start)) = Some (0, 0)"
    by (auto simp: agree_start_def tb.last_Some)
  then show "params_at agree_start r = Some (test_params [7])" by (simp add: params_at_def agree_start_def)
  show "get_prev_notarized_block agree_start r = None"
    by (simp add: get_prev_notarized_block_def agree_start_def cons_db_empty_def tb.last_None)
qed (simp_all add: agree_start_def cons_db_empty_def)

lemma agree_params_at_start [simp]: "get_consensus_params agree_start r = Ok (test_params [7])"
  by (simp add: get_consensus_params_Ok_iff)

lemma agree_leader: "params_leader_idx agree_crypto (test_params [7]) 0 = Ok 0"
  by (simp add: params_leader_idx_def num_peers_def to_num_peers_def test_params_def leader_idx_def total_def)

lemma agree_secret: "get_peer_secret_expect agree_hkdf agree_keys = Ok 7"
  by (simp add: get_peer_secret_expect_def agree_keys_def get_peer_seckey_def ensure_level_def derive_def
      agree_hkdf_def)

lemma agree_generated:
  "generate_proposal agree_crypto (\<lambda>_. [5]) 0 0 citems agree_start = Ok (agree_block, [5])"
  by (simp add: generate_proposal_def header_new_Ok_iff Let_def res_bind_Ok_iff params_hash_def)
    (simp add: agree_block_def test_header_def payload_hash_of_def from_be_bytes_def)

lemma agree_accepted:
  "fst (process_vote_response agree_crypto our 0 (Proposal \<lparr>inner = agree_block, sig = word_cat (7 :: hash) (1 :: hash)\<rparr> [5]) (agree_start, c)) = Ok ()"
proof -
  have "\<exists>tx'. process_vote_response_tx agree_crypto our 0 (Proposal \<lparr>inner = agree_block, sig = word_cat (7 :: hash) (1 :: hash)\<rparr> [5])
      (wtx_new agree_start) = Ok tx'"
    by (rule own_proposal_accepted [OF agree_start_inv refl, where p = "test_params [7]"
          and enc_citems = "\<lambda>_. [5]" and now = 0 and citems = "[]"])
      (simp_all add: agree_leader agree_generated sig_valid_def agree_sign_hash, simp_all add: test_params_def)
  then show ?thesis
    by (auto simp: process_vote_response_def write_with_Ok_iff unit_tx_Ok_iff)
qed

lemma agree_db_vote: "tbl_get (cons_votes_block agree_db) (r, i) = Some v \<Longrightarrow> inner v = agree_block"
  unfolding agree_fields by (cases "r = 0 \<and> i = 0") auto

text \<open>The node proposes, accepts its proposal, and has released its signature.\<close>

lemma agree_history:
  "\<exists>n. (node_step agree_crypto agree_hkdf (\<lambda>_. [5]) agree_keys)\<^sup>*\<^sup>* agree_node n \<and> nd_released n = {agree_block}"
proof -
  let ?step = "node_step agree_crypto agree_hkdf (\<lambda>_. [5]) agree_keys"
  let ?p = "test_params [7]" and ?ev = "agree_event"
  have "params_ok agree_crypto ?p" by (simp add: params_ok_def test_params_def)
  moreover have "find_peer_idx ?p 7 = (Ok (Some 0) :: (unit, _) res)"
    by (simp add: find_peer_idx_def test_params_def peer_idx_of_pos_def)
  then have "(case own_pubkey agree_keys of None \<Rightarrow> Ok None | Some k \<Rightarrow> find_peer_idx ?p k) = (Ok (Some 0) :: (unit, _) res)"
    by (simp add: agree_keys_def)
  ultimately obtain ts where start: "start_round agree_crypto agree_hkdf agree_keys 0 ?p agree_start = (Ok (peers ?p, ts) :: (unit, _) res)"
    and "GenerateProposal 0 0 \<in> set ts"
    using start_round_tasks [where our = "Some 0" and d = agree_start and 'e = unit, OF _ _ agree_leader agree_secret]
    by auto
  then obtain xs ys where ts: "ts = xs @ GenerateProposal 0 0 # ys" by (auto simp: in_set_conv_decomp)
  define n1 where "n1 = agree_node\<lparr>nd_round := Some (0, map Running ts)\<rparr>"
  define n2 where "n2 = n1\<lparr>nd_round := Some (0, map Running xs @ Done ?ev # map Running ys)\<rparr>"
  have s1: "?step agree_node n1"
    unfolding n1_def by (rule node_step.start [where r = 0 and p = ?p and ks = "peers ?p"])
      (simp_all add: start agree_node_def get_current_round_and_params_def)
  define v where "v = \<lparr>pv_pending = [\<lparr>tx_nonce = 0, tx_inputs = [], tx_outputs = [], tx_signature = 0\<rparr>],
      pv_finality_changed = False, pv_module_citems = None, pv_transactions_changed = None, pv_after_1ms = False,
      pv_self_vote = 0, pv_after_20ms = False, pv_params_change = False\<rparr>"
  have "build_proposal agree_crypto agree_hkdf (\<lambda>_. [5]) agree_keys 0 0 0 [] (pv_pending v) agree_start = (Ok ?ev :: (unit, _) res)"
    by (simp add: build_proposal_def agree_generated agree_secret agree_event_def new_sign_def sign_with_def agree_sign_hash)
  then have y: "task_yields agree_crypto agree_hkdf (\<lambda>_. [5]) agree_keys (GenerateProposal 0 0) agree_start ?ev"
    by (rule task_yields.generated [where v = v, rotated]) (simp add: proposal_round_turn_def v_def)
  have s2: "?step n1 n2"
    unfolding n2_def
    by (rule node_step.finish [where t = "GenerateProposal 0 0"])
      (simp_all add: n1_def ts y agree_node_def)
  have loop: "loop_turn 0 (length xs) (map Running xs @ Done ?ev # map Running ys) agree_channels =
      (Ok (Joined ?ev (map Running xs @ map Running ys)) :: (unit, _) res)"
    by (simp add: loop_turn_def over_on_channel_def agree_channels_def nth_append)
  have h: "handle_round_event agree_crypto (Some 7) ?ev (agree_start, agree_channels) =
      (Ok [] :: (unit, _) res, snd (process_vote_response agree_crypto (Some 7) 0
        (Proposal \<lparr>inner = agree_block, sig = word_cat (7 :: hash) (1 :: hash)\<rparr> [5]) (agree_start, agree_channels)))"
    using agree_accepted [of "Some 7" agree_channels]
    by (auto simp: handle_round_event_def agree_event_def logged_def split: prod.splits)
  have r: "released_by agree_crypto (Some 7) ?ev (agree_start, agree_channels) = {agree_block}"
    by (simp add: released_by_def agree_event_def agree_accepted response_block_def)
  let ?s = "snd (process_vote_response agree_crypto (Some 7) 0
      (Proposal \<lparr>inner = agree_block, sig = word_cat (7 :: hash) (1 :: hash)\<rparr> [5]) (agree_start, agree_channels))"
  have k: "own_pubkey agree_keys = Some 7" by (simp add: agree_keys_def)
  have n2: "nd_round n2 = Some (0, map Running xs @ Done ?ev # map Running ys)"
      "nd_cons n2 = (agree_start, agree_channels)" "nd_released n2 = {}"
    by (simp_all add: n2_def n1_def agree_node_def)
  have "?step n2 \<lparr>nd_cons = ?s, nd_round = Some (0, (map Running xs @ map Running ys) @ map Running []),
      nd_released = released_by agree_crypto (own_pubkey agree_keys) ?ev (nd_cons n2) \<union> nd_released n2\<rparr>"
    by (rule node_step.join [OF n2(1), where pick = "length xs"]) (simp_all add: n2 k loop h)
  then obtain n3 where "?step n2 n3" "nd_released n3 = {agree_block}"
    by (auto simp: k n2 r)
  then show ?thesis using s1 s2 by (meson rtranclp.rtrancl_refl rtranclp.rtrancl_into_rtrancl)
qed

subsection \<open>Properties\<close>

text \<open>C2. An honest node signs one block of a round. Whatever the messages, the order in which its tasks finish,
  the changes of the parameters and the restarts in between: two signed headers of one round that it
  releases, other than dummies, are the same.\<close>

theorem honest_node_votes_once:
  assumes "(node_step cr hkdf enc_citems keys)\<^sup>*\<^sup>* n n'" "nd_released n = {}" "nd_round n = None"
    and "x \<in> nd_released n'" "y \<in> nd_released n'" "bh_round x = bh_round y" "\<not> is_dummy x" "\<not> is_dummy y"
  shows "x = y"
proof -
  have "signed_inv n" using assms(2,3) by (simp add: signed_inv_def)
  then have "signed_inv n'" by (rule node_history_inv [OF assms(1)])
  then have "recorded (fst (nd_cons n')) x" "recorded (fst (nd_cons n')) y" using assms(4,5) by (auto simp: signed_inv_def)
  then show ?thesis using assms(6-8) by (simp add: recorded_def)
qed

theorem honest_node_votes_once_witness:
  "\<exists>n. (node_step agree_crypto agree_hkdf (\<lambda>_. [5]) agree_keys)\<^sup>*\<^sup>* agree_node n \<and> agree_block \<in> nd_released n \<and>
     (\<forall>y \<in> nd_released n. bh_round y = 0 \<longrightarrow> \<not> is_dummy y \<longrightarrow> agree_block = y)"
proof -
  obtain n where n: "(node_step agree_crypto agree_hkdf (\<lambda>_. [5]) agree_keys)\<^sup>*\<^sup>* agree_node n" "nd_released n = {agree_block}"
    using agree_history by blast
  then have "agree_block = y" if "y \<in> nd_released n" "bh_round y = 0" "\<not> is_dummy y" for y
    using honest_node_votes_once [OF n(1), of agree_block y] that by (simp add: agree_node_def)
  then show ?thesis using n by auto
qed

text \<open>C1. Agreement of the federation. When at most \<open>max_faulty\<close> peers are faulty and the others run this code
  from their first start on, two nodes never hold different notarized blocks of one round. The hypothesis on signatures is
  that none is forged: a vote of an honest peer that stands in one of the two databases, and whose signature verifies, is for a
  header that the node of that peer has released. It speaks of the signatures that exist in the databases, not of all that would verify.\<close>

theorem federation_agreement:
  assumes "cons_inv cr d1" "cons_inv cr d2"
    and "params_at d1 r = Some p" "params_at d2 r = Some p"
    and "tbl_get (cons_blocks_notarized d1) r = Some b1" "tbl_get (cons_blocks_notarized d2) r = Some b2"
    and "card F \<le> max_faulty (of_nat (length (peers p)))"
    and honest: "\<And>i. i \<notin> F \<Longrightarrow> unat i < length (peers p) \<Longrightarrow>
       (node_step cr hkdf enc_citems (keys i))\<^sup>*\<^sup>* (first i) (now i) \<and> nd_released (first i) = {} \<and> nd_round (first i) = None"
    and unforged: "\<And>i d v. i \<notin> F \<Longrightarrow> d \<in> {d1, d2} \<Longrightarrow> tbl_get (cons_votes_block d) (r, i) = Some v \<Longrightarrow>
       sig_valid cr (peers p) (header_sign_hash cr (inner v)) i (sig v) \<Longrightarrow> inner v \<in> nd_released (now i)"
  shows "b1 = b2"
proof (rule notarized_blocks_agree [OF assms(1-7)])
  fix i v w
  assume i: "i \<notin> F" and v: "tbl_get (cons_votes_block d1) (r, i) = Some v" "sig_valid cr (peers p) (header_sign_hash cr (inner v)) i (sig v)"
    and w: "tbl_get (cons_votes_block d2) (r, i) = Some w" "sig_valid cr (peers p) (header_sign_hash cr (inner w)) i (sig w)"
  have "signed_inv (now i)"
    using honest [OF i] v(2) node_history_inv [of cr hkdf enc_citems "keys i" "first i" "now i"]
    by (simp add: sig_valid_def signed_inv_def)
  then have "recorded (fst (nd_cons (now i))) (inner v)" "recorded (fst (nd_cons (now i))) (inner w)"
    using unforged [OF i _ v] unforged [OF i _ w] unfolding signed_inv_def by blast+
  moreover have "vote_ok cr d1 r i v" "vote_ok cr d2 r i w"
    using assms(1,2) v(1) w(1) by (simp_all add: cons_inv_def mid_inv_def votes_inv_def)
  ultimately show "inner v = inner w" by (simp add: recorded_def vote_ok_def)
qed

theorem federation_agreement_witness:
  "\<exists>n :: node. agree_block \<in> nd_released n \<and>
     (\<forall>sk h. verifying_key_ok agree_crypto sk \<and> verify_strict agree_crypto sk h (sign agree_crypto sk h)) \<and>
     (\<forall>b. tbl_get (cons_blocks_notarized agree_db) 0 = Some b \<longrightarrow> agree_block = b)"
proof -
  obtain n where n: "(node_step agree_crypto agree_hkdf (\<lambda>_. [5]) agree_keys)\<^sup>*\<^sup>* agree_node n" "nd_released n = {agree_block}"
    using agree_history by blast
  have "agree_block = b" if b: "tbl_get (cons_blocks_notarized agree_db) 0 = Some b" for b
  proof (rule federation_agreement [OF agree_inv agree_inv agree_params(1) agree_params(1) _ b, of agree_block "{}"
        agree_hkdf "\<lambda>_. [5]" "\<lambda>_. agree_keys" "\<lambda>_. agree_node" "\<lambda>_. n"])
    show "inner v \<in> nd_released n" if "d \<in> {agree_db, agree_db}" "tbl_get (cons_votes_block d) (0, i) = Some v" for d i v
      using agree_db_vote [of 0 i v] that unfolding n(2) by blast
  qed (use n(1) in \<open>simp_all add: agree_node_def\<close>)
  then show ?thesis using n(2) by (intro exI [of _ n]) simp
qed

text \<open>C9. A leader's proposal goes through. In a round that has no proposal yet, the node of the leader builds a
  proposal without a panic, its consensus accepts it and records it. (The encoding of items is never empty, has
  its length first; the keys of the node sign for each other; no block is pinned.)\<close>

theorem generated_proposal_accepted:
  assumes inv: "cons_inv cr d" and ne: "get_current_round d \<noteq> - 1" and p: "params_at d (get_current_round d) = Some p"
    and leader: "params_leader_idx cr p (get_current_round d) = (Ok i :: (process_vote_error, _) res)"
    and keys: "new_node_keys hkdf pubkey secret = Ok keys" "own_pubkey keys = Some (peers p ! unat i)"
    and free: "get_proposal d (get_current_round d) = (Ok None :: (unit, _) res)"
      "get_vote_block d (get_current_round d) i = None" and pins: "\<forall>r. get_pinned_block d r = None"
    and enc: "enc_citems (pending @ map Transaction txs) \<noteq> []" "length (enc_citems (pending @ map Transaction txs)) < 2 ^ 32"
    and law: "\<And>sk h. verifying_key_ok cr (pubkey sk) \<and> verify_strict cr (pubkey sk) h (sign cr sk h)"
  shows "\<exists>resp s. build_proposal cr hkdf enc_citems keys now (get_current_round d) i pending txs d =
      (Ok (EvSelfProposal resp i) :: (process_vote_error, _) res) \<and>
    process_vote_response cr our i resp (d, c) = (Ok (), s) \<and>
    get_proposal (fst s) (get_current_round d) = (Ok (Some (inner (response_block resp))) :: (unit, _) res)"
proof -
  let ?cur = "get_current_round d" and ?payload = "enc_citems (pending @ map Transaction txs)"
  have ok: "params_ok cr p" using params_at_ok [OF _ p] inv by (auto simp: cons_inv_def mid_inv_def)
  obtain sk where sk: "get_peer_secret_expect hkdf keys = (Ok sk :: (process_vote_error, _) res)" "pubkey sk = peers p ! unat i"
    using node_keys_sign [OF keys] by blast
  have "get_consensus_params d ?cur = (Ok p :: (process_vote_error, _) res)" using p by (simp add: get_consensus_params_Ok_iff)
  then obtain h where gen: "generate_proposal cr enc_citems now ?cur (pending @ map Transaction txs) d =
      (Ok (h, ?payload) :: (process_vote_error, _) res)"
    using enc(2) ok by (auto simp: generate_proposal_def Let_def header_new_Ok_iff res_bind_Ok_iff params_ok_def)
  let ?b = "new_sign cr (header_sign_hash cr) h sk"
  have built: "build_proposal cr hkdf enc_citems keys now ?cur i pending txs d =
      (Ok (EvSelfProposal (Proposal ?b ?payload) i) :: (process_vote_error, _) res)"
    using gen sk by (simp add: build_proposal_def)
  obtain np where "leader_idx cr ?cur np = (Ok i :: (process_vote_error, _) res)"
      "num_peers p = (Ok np :: (process_vote_error, _) res)"
    using leader by (auto simp: params_leader_idx_def res_bind_Ok_iff)
  then have "unat i < length (peers p)" using leader_idx_less total_of_num_peers by fastforce
  then have sg: "sig_valid cr (peers p) (header_sign_hash cr (inner ?b)) i (sig ?b)"
    using law [of sk "header_sign_hash cr h"] sk(2) by (simp add: sig_valid_def new_sign_def sign_with_def)
  have "tbl_get (cons_blocks_proposals d) ?cur = None" "tbl_get (cons_votes_block d) (?cur, i) = None"
    "\<And>r. tbl_get (cons_blocks_pinned d) r = None"
    using free pins by (auto simp: get_proposal_Ok_iff get_vote_block_def get_pinned_block_def)
  from own_proposal_accepted [OF inv refl ne p leader this _ enc(1) sg, of enc_citems now _ our] gen
  obtain tx where tx: "process_vote_response_tx cr our i (Proposal ?b ?payload) (wtx_new d) = Ok tx"
    by (auto simp: new_sign_def)
  then have "process_vote_response cr our i (Proposal ?b ?payload) (d, c) = (Ok (), commit run_hook tx c)"
    by (simp add: process_vote_response_def write_with_expect_falliable_def unit_tx_def)
  moreover have r: "bh_round h = ?cur"
    using tx by (auto simp: process_vote_response_tx_def Let_def res_simps response_block_def new_sign_def)
  then have "get_proposal (dbtx tx) ?cur = (Ok (Some h) :: (unit, _) res)"
    using accepted_proposal_recorded [OF tx] by (auto simp: get_proposal_Ok_iff new_sign_def)
  ultimately show ?thesis using built by (auto simp: commit_def response_block_def new_sign_def)
qed

theorem generated_proposal_accepted_witness:
  "\<exists>resp s. build_proposal test_crypto agree_hkdf (\<lambda>_. [5]) agree_keys 0 0 0 [] [] (test_db [7]) =
      (Ok (EvSelfProposal resp 0) :: (process_vote_error, _) res) \<and>
    process_vote_response test_crypto None 0 resp (test_db [7], agree_channels) = (Ok (), s)"
proof -
  have l: "params_leader_idx test_crypto (test_params [7]) 0 = (Ok 0 :: (process_vote_error, _) res)"
    by (simp add: params_leader_idx_def num_peers_def to_num_peers_def test_params_def leader_idx_def total_def)
  have k: "new_node_keys agree_hkdf (\<lambda>_. 7) (Some \<lparr>secret_bytes = 0, level = 0\<rparr>) = Ok agree_keys"
    by (simp add: new_node_keys_def get_peer_seckey_def get_iroh_secret_def ensure_level_def derive_def agree_keys_def)
  have f: "get_proposal (test_db [7]) r = (Ok None :: (unit, _) res)" "get_vote_block (test_db [7]) r j = None"
    "get_pinned_block (test_db [7]) r = None" for r j
    by (simp_all add: test_db_def cons_db_empty_def get_proposal_def get_vote_block_def get_pinned_block_def)
  have "\<exists>resp s. build_proposal test_crypto agree_hkdf (\<lambda>_. [5]) agree_keys 0 (get_current_round (test_db [7])) 0 [] [] (test_db [7]) =
      (Ok (EvSelfProposal resp 0) :: (process_vote_error, _) res) \<and>
    process_vote_response test_crypto None 0 resp (test_db [7], agree_channels) = (Ok (), s) \<and>
    get_proposal (fst s) (get_current_round (test_db [7])) = (Ok (Some (inner (response_block resp))) :: (unit, _) res)"
    by (rule generated_proposal_accepted [OF test_db_inv _ test_db_fields(2) _ k])
      (simp_all add: l f, simp_all add: agree_keys_def test_params_def)
  then show ?thesis by auto
qed

end
