(* ===== verification/Cons_Dummies.thy ===== *)
theory Cons_Dummies
  imports Cons_Liveness
begin

section \<open>Votes for a header that is a dummy by name\<close>

text \<open>
  \<open>is_dummy\<close> and \<open>verify_with_content\<close> (\<open>consensus-core/src/block.rs\<close>) look at neither the timestamp nor the padding of
  a header, so a signature of a dummy with another timestamp is recorded as a vote for the dummy of the round. The table holds
  the signature only; \<open>get_notarized_block_resp\<close> (\<open>consensus/src/consensus/getters.rs\<close>) puts it under the header
  that \<open>new_dummy\<close> makes.
\<close>

text \<open>The round that a dummy vote ends is the only one that the node passes: nothing that it holds is of a later round,
  and since no block is notarized no finality vote is cast and no vote is pruned.\<close>

lemma dummy_quorum_leaves_round:
  assumes inv: "mid_inv cr d" and below: "\<forall>r b. tbl_get (cons_blocks_notarized d) r = Some b \<longrightarrow> r < cur"
    and cur: "cur = get_current_round d" "cur \<noteq> - 1" and p: "params_at d cur = Some p"
    and q: "threshold (of_nat (length (peers p))) \<le> get_num_votes_dummy d cur"
      "get_num_votes_proposal d cur < threshold (of_nat (length (peers p)))"
    and pin: "get_pinned_block d cur = None" and tx: "dbtx tx = d"
  shows "\<exists>tx'. check_round_end cr our cur tx = Ok tx' \<and> dbtx tx' = set_current_round (cur + 1) d"
proof -
  have s: "sched_inv cr d" and l: "live_inv d" and pr: "props_inv cr d" using inv by (simp_all add: mid_inv_def)
  have "cur + 1 \<noteq> 0" using cur(2) by (simp add: eq_neg_iff_add_eq_0)
  then have next_less: "\<not> cur + 1 \<le> cur" "cur + 1 \<noteq> 0" "cur < cur + 1" using cur(2) by (auto simp: word_le_nat_alt word_less_nat_alt unat_plus_one)
  have hi: "\<not> (case get_prev_notarized_block d (- 1) of Some h \<Rightarrow> r \<le> bh_round h | None \<Rightarrow> False)" if "cur \<le> r" for r
  proof (cases "get_prev_notarized_block d (- 1)")
    case (Some h)
    have "tbl_get (cons_blocks_notarized d) (bh_round h) = Some h"
      using Some prev_notarized_Some_iff [of d "- 1" h] inv by (auto simp: mid_inv_def notar_inv_def)
    then have "bh_round h < r" using below that by fastforce
    with Some show ?thesis by simp
  qed simp
  have g: "get_proposal d r = (Ok (tbl_get (cons_blocks_proposals d) r) :: (round_invariant_error, _) res)" for r
    using pr by (auto simp: get_proposal_Ok_iff props_inv_def)
  have gp: "get_consensus_params d r = (Ok p' :: (round_invariant_error, _) res)" if "params_at d r = Some p'" for r p'
    using that by (simp add: get_consensus_params_Ok_iff)
  have one: "round_body cr cur (get_prev_notarized_block d (- 1)) cur None d = Ok (Continue None d)"
    unfolding round_body_def using q by (simp add: g hi gp [OF p] num_peers_ok [OF s p] Let_def split: option.split)
  obtain p2 where p2: "params_at d (cur + 1) = Some p2" by (rule params_at_Some [OF s])
  obtain li where li: "params_leader_idx cr p2 (cur + 1) = (Ok li :: (round_invariant_error, _) res)"
    using leader_ok [OF s p2] by blast
  have dead: "\<not> live_round d (cur + 1)" using next_less below cur(1) by (auto simp: live_round_def)
  then have none: "tbl_get (cons_blocks_proposals d) (cur + 1) = None" using l by (fastforce simp: live_inv_def)
  have pos: "0 < threshold (of_nat (length (peers p2)))" using no_quorum_of_none [OF s p2] .
  have pin_ok: "check_pin cr (cur + 1) d = Ok ()"
    using pin next_less(2) by (simp add: check_pin_def arr_prev_def checked_sub_def word_le_nat_alt unat_gt_0 Suc_le_eq)
  obtain t where two: "round_body cr cur (get_prev_notarized_block d (- 1)) (cur + 1) None d = Ok (Break t)"
    unfolding round_body_def using next_less pos
    by (simp add: g hi none li pin_ok gp [OF p2] num_peers_ok [OF s p2] Let_def no_votes_beyond [OF l dead])
  have "round_loop cr cur (get_prev_notarized_block d (- 1)) cur None d =
      Ok \<lparr>re_round = cur + 1, re_last_notarized = None, re_needs_timeout = t, re_db = d\<rparr>"
    using cur(2) by (simp add: round_loop.simps [of _ _ _ cur] round_loop.simps [of _ _ _ "cur + 1"] one two
        arr_next_expect_def checked_add_one)
  then show ?thesis using tx next_less by (simp add: check_round_end_def record_self_vote_def Let_def)
qed

text \<open>A header that is a dummy by name, whatever its timestamp and padding, completes the quorum for the dummy.\<close>

lemma odd_vote_run:
  assumes inv: "cons_inv cr d" and cur: "cur = get_current_round d" "cur \<noteq> - 1" and p: "params_at d cur = Some p"
    and b: "new_dummy cr cur p = (Ok b :: (unit, _) res)" "inner v = b\<lparr>bh_timestamp := t, padding := pad\<rparr>"
    and sg: "sig_valid cr (peers p) (header_sign_hash cr (inner v)) i (sig v)"
    and q: "tbl_get (cons_votes_dummy d) (cur, i) = None" "threshold (of_nat (length (peers p))) \<le> Suc (get_num_votes_dummy d cur)"
      "get_num_votes_proposal d cur < threshold (of_nat (length (peers p)))"
    and pin: "get_pinned_block d cur = None"
  shows "\<exists>tx'. process_vote_response_tx cr our i (Vote v) (wtx_new d) = Ok tx' \<and>
    dbtx tx' = set_current_round (cur + 1) (snd (insert_dummy_vote cur i (sig v) d))"
proof -
  let ?d = "snd (insert_dummy_vote cur i (sig v) d)" and ?clen = "of_nat (length (enc_params cr p))"
  let ?tx = "notify_new_votes (upd (\<lambda>_. ?d) (wtx_new d))"
  have mid: "mid_inv cr d" and below: "\<forall>r b. tbl_get (cons_blocks_notarized d) r = Some b \<longrightarrow> r < cur"
    using inv cur by (auto simp: cons_inv_def)
  have h: "is_dummy (inner v)" "bh_round (inner v) = cur" "consensus_params_hash (inner v) = params_hash cr p"
    "header_version (inner v) = 0" "consensus_params_len (inner v) = ?clen"
    using b by (auto simp: new_dummy_Ok_iff is_dummy_def)
  have c: "verify_with_content cr (inner v) (params_hash cr p) ?clen payload_empty = Ok ()"
    using h by (simp add: verify_with_content_Ok_iff payload_empty_def)
  have vs: "verify_sig_peer_idx cr (header_sign_hash cr) v i (peers p) = Ok ()" using sg by (simp add: res_simps)
  have ok: "params_ok cr p" using params_at_ok [OF _ p] mid by (auto simp: mid_inv_def)
  then have len: "params_len cr p = (Ok ?clen :: (process_vote_error, _) res)" by (simp add: params_len_Ok_iff params_ok_def)
  have mid': "mid_inv cr ?d" using process_vote_mid(1) [OF mid below cur(1) p h(2) sg h(1,3)] .
  have f: "cons_blocks_notarized ?d = cons_blocks_notarized d" "get_current_round ?d = cur" "params_at ?d cur = Some p"
    "get_num_votes_proposal ?d cur = get_num_votes_proposal d cur" "get_pinned_block ?d cur = None"
    using cur(1) p pin by (simp_all add: insert_dummy_vote_def get_pinned_block_def num_votes_proposal)
  have "\<exists>tx'. check_round_end cr our cur ?tx = Ok tx' \<and> dbtx tx' = set_current_round (cur + 1) ?d"
    by (rule dummy_quorum_leaves_round [OF mid' _ _ cur(2) f(3)])
      (use below q f num_votes_inserted(1) [OF q(1)] in \<open>simp_all add: notify_new_votes_def\<close>)
  moreover have "process_vote_response_tx cr our i (Vote v) (wtx_new d) =
      map_err VoteRoundInvariant (check_round_end cr our cur ?tx)"
  proof -
    have "get_consensus_params d cur = (Ok p :: (process_vote_error, _) res)" using p by (simp add: get_consensus_params_Ok_iff)
    moreover have "fst (insert_dummy_vote cur i (sig v) d) = Inserted"
      using q(1) by (simp add: insert_dummy_vote_def outcome_of_def)
    ultimately show ?thesis using h len cur(1)
      by (simp add: process_vote_response_tx_def response_block_def Let_def ensure_def process_vote_def vs c)
  qed
  ultimately show ?thesis by auto
qed

text \<open>C17. A signature of a dummy with another timestamp or another padding counts as a vote for the dummy of the round and
  spoils it. If it is the vote that completes the quorum for the dummy, then the node accepts it and leaves the round; a peer that is still
  in that round and asks for what was notarized is then served the dummy under the header that \<open>new_dummy\<close> makes, with that signature among the others,
  so the signatures do not verify and no node with the same parameters takes the answer.\<close>

theorem odd_dummy_vote_spoils_answer:
  assumes inv: "cons_inv cr d" and cur: "cur = get_current_round d" "cur \<noteq> - 1" and p: "params_at d cur = Some p"
    and odd: "new_dummy cr cur p = (Ok b :: (unit, _) res)" "inner v = b\<lparr>bh_timestamp := t, padding := pad\<rparr>"
      "sig_valid cr (peers p) (header_sign_hash cr (inner v)) i (sig v)"
      "\<not> sig_valid cr (peers p) (header_sign_hash cr b) i (sig v)"
    and quorum: "tbl_get (cons_votes_dummy d) (cur, i) = None"
      "threshold (of_nat (length (peers p))) \<le> Suc (get_num_votes_dummy d cur)"
      "get_num_votes_proposal d cur < threshold (of_nat (length (peers p)))" "get_pinned_block d cur = None"
    and req: "req_cur_round req = cur" "get_next_notarized_block d (min_notarized_round req) = None"
  shows "\<exists>tx' resp. process_vote_response_tx cr our i (Vote v) (wtx_new d) = Ok tx' \<and>
    get_current_round (dbtx tx') = cur + 1 \<and>
    get_notarized_block_resp cr req (dbtx tx') = (Ok (Some resp) :: (unit, _) res) \<and>
    n_inner (wn_block resp) = b \<and> verify_sigs cr (header_sign_hash cr) (wn_block resp) p \<noteq> Ok () \<and>
    (\<forall>d2 our2 tx2. params_at d2 cur = Some p \<longrightarrow> process_notarized_block_response_tx cr our2 resp (wtx_new d2) \<noteq> Ok tx2)"
proof -
  let ?d1 = "snd (insert_dummy_vote cur i (sig v) d)" and ?d = "set_current_round (cur + 1) (snd (insert_dummy_vote cur i (sig v) d))"
  let ?resp = "\<lparr>wn_block = notarized_new b (get_votes_dummy ?d cur), wn_payload = payload_empty\<rparr>"
  obtain tx' where t: "process_vote_response_tx cr our i (Vote v) (wtx_new d) = Ok tx'" "dbtx tx' = ?d"
    using odd_vote_run [OF inv cur p odd(1,2,3) quorum] by blast
  have s: "sched_inv cr d" using inv by (simp add: cons_inv_def mid_inv_def)
  have f: "cons_votes_dummy ?d = tbl_insert (cur, i) (sig v) (cons_votes_dummy d)"
    "cons_blocks_notarized ?d = cons_blocks_notarized d" "params_at ?d cur = Some p" "get_current_round ?d = cur + 1"
    using p by (simp_all add: insert_dummy_vote_def set_current_round_def get_current_round_def)
  have "get_num_votes_dummy ?d cur = get_num_votes_dummy ?d1 cur" by (simp add: get_num_votes_dummy_def set_current_round_def)
  then have q: "threshold (of_nat (length (peers p))) \<le> length (get_votes_dummy ?d cur)"
    using quorum(2) num_votes_inserted(1) [OF quorum(1)] by (simp add: get_votes_dummy_def get_num_votes_dummy_def)
  have none: "first_entry (\<lambda>k. min_notarized_round req \<le> k) (entries (cons_blocks_notarized ?d)) = None"
    using req(2) unfolding f(2) by (simp add: get_next_notarized_block_def)
  have "get_consensus_params ?d cur = (Ok p :: (unit, _) res)" using f(3) by (simp add: get_consensus_params_Ok_iff)
  then have a: "get_notarized_block_resp cr req ?d = (Ok (Some ?resp) :: (unit, _) res)"
    unfolding get_notarized_block_resp_def none using q odd(1) by (simp add: req(1) Let_def num_peers_ok [OF s p])
  have i: "n_inner (wn_block ?resp) = b" "bh_round b = cur"
    using new_dummy_is_dummy [OF odd(1)] by (simp_all add: notarized_new_def)
  have "tbl_get (sigs (wn_block ?resp)) i = Some (sig v)" by (simp add: notarized_new_dummy_get f(1))
  then have bad: "verify_sigs cr (header_sign_hash cr) (wn_block ?resp) p \<noteq> Ok ()" using odd(4) i(1) by (auto simp: res_simps)
  have "process_notarized_block_response_tx cr our2 ?resp (wtx_new d2) \<noteq> Ok tx2" if "params_at d2 cur = Some p" for d2 our2 tx2
    using bad that i by (auto simp: process_notarized_block_response_tx_def Let_def res_bind_Ok_iff map_err_Ok_iff get_consensus_params_Ok_iff)
  then show ?thesis using t a i(1) bad f(4) by (intro exI [of _ tx'] exI [of _ ?resp]) simp
qed

text \<open>A scheme that accepts one signed hash, that of a dummy of round 0 with timestamp 1.\<close>

definition odd_dummy :: block_header where
  "odd_dummy = \<lparr>header_version = 0, padding = 0, bh_seq = 0, bh_round = 0, bh_timestamp = 1, bh_payload_len = 0,
     consensus_params_len = 0, prev_block_hash = 0, consensus_params_hash = 0, payload_hash = 0\<rparr>"

definition odd_crypto :: crypto where
  "odd_crypto = test_crypto\<lparr>blake3 := from_be_bytes, enc_header := (\<lambda>h. if bh_timestamp h = 1 then [1] else []),
     enc_params := (\<lambda>p. []), verify_strict := (\<lambda>k h s. h = 1)\<rparr>"

definition odd_db :: cons_db where
  "odd_db = cons_db_empty\<lparr>cons_params_schedule := tbl_insert 0 0 tbl_empty,
     cons_params := tbl_insert 0 (test_params [7]) tbl_empty\<rparr>"

lemma odd_crypto_simps [simp]:
  "enc_params odd_crypto p = []" "params_hash odd_crypto p = 0" "verify_strict odd_crypto k h s \<longleftrightarrow> h = 1"
  "verifying_key_ok odd_crypto k"
  by (simp_all add: odd_crypto_def params_hash_def from_be_bytes_def)

lemma odd_sign_hash: "header_sign_hash odd_crypto x = (if bh_timestamp x = 1 then 1 else 0)"
proof -
  have "blake3 odd_crypto = from_be_bytes" by (simp add: odd_crypto_def)
  then have "header_sign_hash odd_crypto x = header_hash odd_crypto x"
    unfolding header_sign_hash_def sign_hash_def using from_be_bytes_prefix [of "bytes_of_string ''bfte'' @ bytes_of_string HEADER_TAG"]
    by simp
  then show ?thesis by (simp add: header_hash_def odd_crypto_def from_be_bytes_def)
qed

lemma odd_db_init: "init_tx odd_crypto (test_params [7]) None cons_db_empty = Ok (0, odd_db)"
  by (simp add: init_tx_def insert_consensus_params_def Let_def odd_db_def cons_db_empty_def get_current_round_def)

lemma odd_db_fields:
  "cons_inv odd_crypto odd_db" "get_current_round odd_db = 0" "params_at odd_db r = Some (test_params [7])"
proof -
  have "params_ok odd_crypto (test_params [7])" by (simp add: params_ok_def test_params_def)
  from cons_inv_init [OF odd_db_init this] show "cons_inv odd_crypto odd_db" "get_current_round odd_db = 0" by simp_all
  have "last_entry (\<lambda>k. k \<le> r) (entries (cons_params_schedule odd_db)) = Some (0, 0)"
    by (auto simp: odd_db_def tb.last_Some)
  then show "params_at odd_db r = Some (test_params [7])" by (simp add: params_at_def odd_db_def)
qed

theorem odd_dummy_vote_spoils_answer_witness:
  "\<exists>tx' resp. process_vote_response_tx odd_crypto None 0 (Vote \<lparr>inner = odd_dummy, sig = 9\<rparr>) (wtx_new odd_db) = Ok tx' \<and>
     get_notarized_block_resp odd_crypto \<lparr>min_notarized_round = 0, req_cur_round = 0\<rparr> (dbtx tx') =
       (Ok (Some resp) :: (unit, _) res) \<and>
     (\<forall>tx2. process_notarized_block_response_tx odd_crypto None resp (wtx_new odd_db) \<noteq> Ok tx2)"
proof -
  let ?p = "test_params [7]"
  obtain b where b: "new_dummy odd_crypto 0 ?p = (Ok b :: (unit, _) res)" by (fastforce simp: new_dummy_Ok_iff)
  then have od: "odd_dummy = b\<lparr>bh_timestamp := 1, padding := 0\<rparr>" "bh_timestamp b = 0"
    by (auto simp: new_dummy_Ok_iff odd_dummy_def)
  have n: "tbl_get (cons_votes_dummy odd_db) k = None" "tbl_get (cons_votes_block odd_db) k = None" "get_pinned_block odd_db r = None"
    "get_next_notarized_block odd_db r = None" for k r
    by (simp_all add: odd_db_def cons_db_empty_def get_pinned_block_def get_next_notarized_block_def tb.first_None)
  have np: "threshold (of_nat (length (peers ?p))) = 1"
    by (simp add: test_params_def threshold_def max_faulty_def total_def)
  have "sig_valid odd_crypto (peers ?p) (header_sign_hash odd_crypto odd_dummy) 0 9"
    "\<not> sig_valid odd_crypto (peers ?p) (header_sign_hash odd_crypto b) 0 9"
    using od(2) by (simp_all add: sig_valid_def odd_sign_hash test_params_def) (simp add: odd_dummy_def)
  then have "\<exists>tx' resp. process_vote_response_tx odd_crypto None 0 (Vote \<lparr>inner = odd_dummy, sig = 9\<rparr>) (wtx_new odd_db) = Ok tx' \<and>
    get_current_round (dbtx tx') = 0 + 1 \<and>
    get_notarized_block_resp odd_crypto \<lparr>min_notarized_round = 0, req_cur_round = 0\<rparr> (dbtx tx') = (Ok (Some resp) :: (unit, _) res) \<and>
    n_inner (wn_block resp) = b \<and> verify_sigs odd_crypto (header_sign_hash odd_crypto) (wn_block resp) ?p \<noteq> Ok () \<and>
    (\<forall>d2 our2 tx2. params_at d2 0 = Some ?p \<longrightarrow> process_notarized_block_response_tx odd_crypto our2 resp (wtx_new d2) \<noteq> Ok tx2)"
    by (intro odd_dummy_vote_spoils_answer [OF odd_db_fields(1) _ _ odd_db_fields(3) b, where t = 1 and pad = 0])
      (simp_all add: odd_db_fields(2) od(1) n np num_votes_proposal num_votes_dummy)
  then show ?thesis using odd_db_fields(3) by blast
qed

end
