(* ===== verification/Peer_Address.thy ===== *)
theory Peer_Address
  imports Signed_Msg Db
begin

section \<open>The address book\<close>

text \<open>
  \<open>node/src/peer_address.rs\<close>, the client side of the address request (\<open>node/src/rpc.rs\<close>), the
  addresses of \<open>node-core/src/address.rs\<close> and the random choice of \<open>util-db/src/random.rs\<close>: how a node learns where its
  peers are. Updates are signed by the peer they are about and arrive from anybody, pushed or asked for; the
  newest of each peer is kept.

  The three tables are the record \<open>addr_db\<close>. The encoding of an update and the check of an \<open>iroh\<close> address are
  arguments, as are the random values that the gossip draws.
\<close>

datatype peer_address = Iroh hash

record address_update =
  au_timestamp :: timestamp
  au_peer_pubkey :: peer_pubkey
  au_addr :: peer_address

definition ADDRESS_UPDATE_TAG :: string where "ADDRESS_UPDATE_TAG = ''adup''"

definition address_sign_hash :: "crypto \<Rightarrow> (address_update \<Rightarrow> byte list) \<Rightarrow> address_update \<Rightarrow> hash" where
  "address_sign_hash cr enc u = sign_hash cr ADDRESS_UPDATE_TAG (blake3 cr (enc u))"

record addr_db =
  peer_addresses :: "(peer_pubkey, address_update signed) table"
  peer_addresses_we_track :: "(peer_pubkey, unit) table"
  peer_addresses_we_need :: "(peer_pubkey, unit) table"

subsection \<open>Updates\<close>

definition handle_address_update ::
  "crypto \<Rightarrow> (address_update \<Rightarrow> byte list) \<Rightarrow> address_update signed \<Rightarrow> addr_db \<Rightarrow> (string, addr_db) res" where
  "handle_address_update cr enc update d =
     (let k = au_peer_pubkey (inner update) in
      res_bind (map_err (\<lambda>_. ''Invalid signature'')
          (verify_hash_signature cr (address_sign_hash cr enc (inner update)) k (sig update))) (\<lambda>_.
      case tbl_get (peer_addresses d) k of
        Some existing \<Rightarrow>
          if au_timestamp (inner update) \<le> au_timestamp (inner existing) then Ok d
          else Ok (d\<lparr>peer_addresses := tbl_insert k update (peer_addresses d)\<rparr>)
      | None \<Rightarrow> Ok (d\<lparr>peer_addresses := tbl_insert k update (peer_addresses d)\<rparr>)))"

definition get_peer_addr :: "peer_pubkey \<Rightarrow> addr_db \<Rightarrow> address_update signed option \<times> addr_db" where
  "get_peer_addr k d = (case tbl_get (peer_addresses d) k of
      Some existing \<Rightarrow> (Some existing, d)
    | None \<Rightarrow>
        (None, if tbl_get (peer_addresses d) k = None
           then d\<lparr>peer_addresses_we_track := tbl_insert k () (peer_addresses_we_track d)\<rparr> else d))"

definition get_peer_iroh_addr ::
  "(hash \<Rightarrow> bool) \<Rightarrow> peer_pubkey \<Rightarrow> addr_db \<Rightarrow> (string, hash option) res \<times> addr_db" where
  "get_peer_iroh_addr node_id_ok k d = (case get_peer_addr k d of
      (None, d') \<Rightarrow> (Ok None, d')
    | (Some u, d') \<Rightarrow> (case au_addr (inner u) of
          Iroh a \<Rightarrow> (if node_id_ok a then Ok (Some a) else Err ''Invalid iroh nodeId'', d')))"

text \<open>The counter stands for the waiters that are notified on commit.\<close>

definition mark_peer_addr_as_needed ::
  "peer_pubkey option \<Rightarrow> peer_pubkey \<Rightarrow> addr_db \<times> nat \<Rightarrow> addr_db \<times> nat" where
  "mark_peer_addr_as_needed our k s =
     (if Some k = our then s
      else ((fst s)\<lparr>peer_addresses_we_need := tbl_insert k () (peer_addresses_we_need (fst s))\<rparr>, Suc (snd s)))"

definition get_own_address_update ::
  "crypto \<Rightarrow> (address_update \<Rightarrow> byte list) \<Rightarrow> (peer_seckey \<Rightarrow> peer_pubkey) \<Rightarrow> timestamp \<Rightarrow> hash \<Rightarrow>
     peer_seckey option \<Rightarrow> address_update signed option" where
  "get_own_address_update cr enc pubkey now node_id sk = (case sk of
      None \<Rightarrow> None
    | Some seckey \<Rightarrow> Some (new_sign cr (address_sign_hash cr enc)
        \<lparr>au_timestamp = now, au_peer_pubkey = pubkey seckey, au_addr = Iroh node_id\<rparr> seckey))"

definition insert_own_address_update ::
  "crypto \<Rightarrow> (address_update \<Rightarrow> byte list) \<Rightarrow> (peer_seckey \<Rightarrow> peer_pubkey) \<Rightarrow> timestamp \<Rightarrow> hash \<Rightarrow>
     peer_seckey option \<Rightarrow> addr_db \<Rightarrow> (string, addr_db) res" where
  "insert_own_address_update cr enc pubkey now node_id sk d =
     (case get_own_address_update cr enc pubkey now node_id sk of
        Some update \<Rightarrow> handle_address_update cr enc update d
      | None \<Rightarrow> Ok d)"

text \<open>\<open>rpc::get_peer_address\<close>: the answer of a peer that was asked for an address.\<close>

definition rpc_get_peer_address ::
  "crypto \<Rightarrow> (address_update \<Rightarrow> byte list) \<Rightarrow> peer_pubkey \<Rightarrow> address_update signed option \<Rightarrow>
     (string, address_update signed option) res" where
  "rpc_get_peer_address cr enc k resp = (case resp of
      None \<Rightarrow> Ok None
    | Some update \<Rightarrow>
        res_bind (ensure (au_peer_pubkey (inner update) = k) ''Mismatched peer_pubkey'') (\<lambda>_.
        res_bind (map_err (\<lambda>_. ''Invalid address update signature'')
            (verify_sig_peer_pubkey cr (address_sign_hash cr enc) update k)) (\<lambda>_.
        Ok (Some update))))"

definition query_peer_address ::
  "crypto \<Rightarrow> (address_update \<Rightarrow> byte list) \<Rightarrow> peer_pubkey \<Rightarrow> address_update signed option \<Rightarrow> addr_db \<Rightarrow>
     (string, addr_db) res" where
  "query_peer_address cr enc k resp d =
     res_bind (rpc_get_peer_address cr enc k resp) (\<lambda>u. case u of
        Some update \<Rightarrow> handle_address_update cr enc update d
      | None \<Rightarrow> Ok d)"

subsection \<open>Gossip\<close>

definition get_random :: "('k::linorder, 'v) table \<Rightarrow> 'k \<Rightarrow> bool \<Rightarrow> ('k \<times> 'v) option" where
  "get_random tbl pivot coin_flip =
     (if coin_flip then
        (case first_entry (\<lambda>k. pivot \<le> k) (entries tbl) of
           Some e \<Rightarrow> Some e
         | None \<Rightarrow> last_entry (\<lambda>k. k < pivot) (entries tbl))
      else
        (case first_entry (\<lambda>k. k < pivot) (entries tbl) of
           Some e \<Rightarrow> Some e
         | None \<Rightarrow> last_entry (\<lambda>k. pivot \<le> k) (entries tbl)))"

definition pick_pull_need_gossip_pair ::
  "peer_pubkey \<times> bool \<Rightarrow> peer_pubkey \<times> bool \<Rightarrow> addr_db \<Rightarrow> (peer_pubkey \<times> peer_pubkey) option \<times> addr_db" where
  "pick_pull_need_gossip_pair r1 r2 d =
     (case get_random (peer_addresses_we_need d) (fst r1) (snd r1) of
        None \<Rightarrow> (None, d)
      | Some (refresh, _) \<Rightarrow>
          let d' = d\<lparr>peer_addresses_we_need := tbl_remove refresh (peer_addresses_we_need d)\<rparr> in
          (case get_random (peer_addresses d') (fst r2) (snd r2) of
             None \<Rightarrow> (None, d')
           | Some (query, _) \<Rightarrow> (Some (refresh, query), d')))"

definition pick_push_gossip_pair ::
  "peer_pubkey \<times> bool \<Rightarrow> peer_pubkey \<times> bool \<Rightarrow> addr_db \<Rightarrow> (peer_pubkey \<times> address_update signed) option" where
  "pick_push_gossip_pair r1 r2 d =
     (case get_random (peer_addresses d) (fst r1) (snd r1) of
        None \<Rightarrow> None
      | Some (k, _) \<Rightarrow>
          (case get_random (peer_addresses d) (fst r2) (snd r2) of
             None \<Rightarrow> None
           | Some (_, u) \<Rightarrow> Some (k, u)))"

text \<open>One turn of \<open>run_push_gossip\<close>: the update to send and to whom.\<close>

definition push_gossip_turn ::
  "peer_pubkey option \<Rightarrow> peer_pubkey \<times> bool \<Rightarrow> peer_pubkey \<times> bool \<Rightarrow> addr_db \<Rightarrow>
     (peer_pubkey \<times> address_update signed) option" where
  "push_gossip_turn our r1 r2 d = (case pick_push_gossip_pair r1 r2 d of
      None \<Rightarrow> None
    | Some (k, u) \<Rightarrow>
        if Some k = our then None
        else if k = au_peer_pubkey (inner u) then None
        else Some (k, u))"

text \<open>One turn of \<open>run_pull_gossip\<close>: whom to ask for whose address.\<close>

definition pull_gossip_turn ::
  "peer_pubkey option \<Rightarrow> peer_pubkey \<times> bool \<Rightarrow> peer_pubkey \<times> bool \<Rightarrow> addr_db \<Rightarrow>
     (peer_pubkey \<times> peer_pubkey) option \<times> addr_db" where
  "pull_gossip_turn our r1 r2 d = (case pick_pull_need_gossip_pair r1 r2 d of
      (None, d') \<Rightarrow> (None, d')
    | (Some (refresh, query), d') \<Rightarrow> (if Some query = our then None else Some (refresh, query), d'))"

subsection \<open>The contract of the book\<close>

text \<open>What can happen to the book, in any order and with any contents: a failed operation changes nothing.\<close>

datatype addr_op =
  ReceiveUpdate "address_update signed"
| AnswerToQuery peer_pubkey "address_update signed option"
| LookUp peer_pubkey
| MarkNeeded "peer_pubkey option" peer_pubkey
| PullTurn "peer_pubkey option" "peer_pubkey \<times> bool" "peer_pubkey \<times> bool"

definition addr_step :: "crypto \<Rightarrow> (address_update \<Rightarrow> byte list) \<Rightarrow> addr_op \<Rightarrow> addr_db \<Rightarrow> addr_db" where
  "addr_step cr enc op d = (case op of
      ReceiveUpdate u \<Rightarrow> (case handle_address_update cr enc u d of Ok d' \<Rightarrow> d' | _ \<Rightarrow> d)
    | AnswerToQuery k resp \<Rightarrow> (case query_peer_address cr enc k resp d of Ok d' \<Rightarrow> d' | _ \<Rightarrow> d)
    | LookUp k \<Rightarrow> snd (get_peer_addr k d)
    | MarkNeeded our k \<Rightarrow> fst (mark_peer_addr_as_needed our k (d, 0))
    | PullTurn our r1 r2 \<Rightarrow> snd (pull_gossip_turn our r1 r2 d))"

definition book_inv :: "crypto \<Rightarrow> (address_update \<Rightarrow> byte list) \<Rightarrow> addr_db \<Rightarrow> bool" where
  "book_inv cr enc d \<longleftrightarrow> (\<forall>k u. tbl_get (peer_addresses d) k = Some u \<longrightarrow>
     au_peer_pubkey (inner u) = k \<and> verify_strict cr k (address_sign_hash cr enc (inner u)) (sig u))"

text \<open>The entry of a peer stays or gives way to a newer one.\<close>

definition book_newer :: "addr_db \<Rightarrow> addr_db \<Rightarrow> bool" where
  "book_newer d d' \<longleftrightarrow> (\<forall>k u. tbl_get (peer_addresses d) k = Some u \<longrightarrow>
     (\<exists>u'. tbl_get (peer_addresses d') k = Some u' \<and>
       (u' = u \<or> au_timestamp (inner u) < au_timestamp (inner u'))))"

lemma book_newer_refl [simp]: "peer_addresses d' = peer_addresses d \<Longrightarrow> book_newer d d'"
  by (simp add: book_newer_def)

lemma book_newer_trans: "book_newer d e \<Longrightarrow> book_newer e f \<Longrightarrow> book_newer d f"
  unfolding book_newer_def by (fast intro: less_trans)

lemma handle_address_update_step:
  assumes "handle_address_update cr enc u d = Ok d'" "book_inv cr enc d"
  shows "book_inv cr enc d' \<and> book_newer d d'"
  using assms
  by (auto simp: handle_address_update_def Let_def res_simps verify_hash_signature_Ok_iff book_inv_def book_newer_def
      not_le split: option.splits if_splits)

lemma other_ops_keep_book:
  "peer_addresses (snd (get_peer_addr k d)) = peer_addresses d"
  "peer_addresses (fst (mark_peer_addr_as_needed our k (d, n))) = peer_addresses d"
  "peer_addresses (snd (pull_gossip_turn our r1 r2 d)) = peer_addresses d"
  by (auto simp: get_peer_addr_def mark_peer_addr_as_needed_def pull_gossip_turn_def pick_pull_need_gossip_pair_def
      Let_def split: option.splits prod.splits)

lemma addr_step_ok:
  assumes "book_inv cr enc d"
  shows "book_inv cr enc (addr_step cr enc op d) \<and> book_newer d (addr_step cr enc op d)"
proof (cases op)
  case (ReceiveUpdate u)
  then show ?thesis
    using assms handle_address_update_step by (auto simp: addr_step_def split: res.splits)
next
  case (AnswerToQuery k resp)
  have "query_peer_address cr enc k resp d = Ok d' \<Longrightarrow> book_inv cr enc d' \<and> book_newer d d'" for d'
    using assms handle_address_update_step
    by (auto simp: query_peer_address_def res_simps split: option.splits)
  then show ?thesis using assms AnswerToQuery by (auto simp: addr_step_def split: res.splits)
qed (use assms in \<open>simp_all add: addr_step_def other_ops_keep_book book_inv_def\<close>)

lemma addr_steps_ok:
  "book_inv cr enc d \<Longrightarrow> book_inv cr enc (fold (addr_step cr enc) ops d) \<and> book_newer d (fold (addr_step cr enc) ops d)"
proof (induction ops arbitrary: d)
  case (Cons op ops)
  then show ?case using addr_step_ok [OF Cons.prems, of op] book_newer_trans by fastforce
qed simp

subsection \<open>Properties\<close>

text \<open>C40. The address book holds what its peers signed, and never goes back. Whatever updates, answers and requests
  arrive, from whomever and in whatever order: every entry is filed under the key that signed it, and the
  entry of a peer is only ever replaced by a strictly newer one; entries are never lost.\<close>

theorem address_book_invariant:
  assumes "book_inv cr enc d"
  shows "book_inv cr enc (fold (addr_step cr enc) ops d) \<and> book_newer d (fold (addr_step cr enc) ops d)"
  using addr_steps_ok [OF assms] .

definition test_update :: "timestamp \<Rightarrow> address_update signed" where
  "test_update t = \<lparr>inner = \<lparr>au_timestamp = t, au_peer_pubkey = 7, au_addr = Iroh 1\<rparr>, sig = 2\<rparr>"

definition addr_db_empty :: addr_db where
  "addr_db_empty = \<lparr>peer_addresses = tbl_empty, peer_addresses_we_track = tbl_empty, peer_addresses_we_need = tbl_empty\<rparr>"

theorem address_book_invariant_witness:
  "book_inv test_crypto (\<lambda>_. []) (fold (addr_step test_crypto (\<lambda>_. []))
     [ReceiveUpdate (test_update 5), ReceiveUpdate (test_update 3), LookUp 8] addr_db_empty)"
  using address_book_invariant [of test_crypto "\<lambda>_. []" addr_db_empty
      "[ReceiveUpdate (test_update 5), ReceiveUpdate (test_update 3), LookUp 8]"]
  by (simp add: book_inv_def addr_db_empty_def)

text \<open>Anybody can stop a node: an address update about a key that is no point of the curve panics in the check of
  its signature, before anything is known of the sender; a release build aborts on a panic.\<close>

lemma foreign_address_update_panics:
  assumes "\<not> verifying_key_ok cr (au_peer_pubkey (inner update))"
  shows "handle_address_update cr enc update d = Panic ''At this point pubkeys must be valid''"
  using assms by (simp add: handle_address_update_def Let_def verify_hash_signature_def)

text \<open>The random choice finds an entry exactly when there is one. On one side of the coin it is not random,
  though: it only ever takes the smallest or the greatest key of the table, the scans of the two
  ranges being exchanged.\<close>

lemma get_random_entry:
  "(case get_random tbl pivot coin of
      Some (k, v) \<Rightarrow> tbl_get tbl k = Some v \<and>
        (coin \<or> (\<forall>k' v'. tbl_get tbl k' = Some v' \<longrightarrow> k \<le> k') \<or> (\<forall>k' v'. tbl_get tbl k' = Some v' \<longrightarrow> k' \<le> k))
    | None \<Rightarrow> \<forall>k. tbl_get tbl k = None)"
proof (cases "get_random tbl pivot coin")
  case None
  then have "tbl_get tbl k \<noteq> Some v" for k v
    using linorder_not_le [of pivot k]
    by (auto simp: get_random_def tb.first_None tb.last_None split: if_splits option.splits)
  then have "tbl_get tbl k = None" for k by (cases "tbl_get tbl k") auto
  then show ?thesis by (simp add: None)
next
  case (Some e)
  obtain k v where e: "e = (k, v)" by fastforce
  have "tbl_get tbl k = Some v"
    using Some by (auto simp: e get_random_def tb.first_Some tb.last_Some split: if_splits option.splits)
  moreover have "(\<forall>k' v'. tbl_get tbl k' = Some v' \<longrightarrow> k \<le> k') \<or> (\<forall>k' v'. tbl_get tbl k' = Some v' \<longrightarrow> k' \<le> k)"
    if "\<not> coin"
  proof (cases "first_entry (\<lambda>k. k < pivot) (entries tbl)")
    case None
    then have "last_entry (\<lambda>k. pivot \<le> k) (entries tbl) = Some (k, v)"
      using Some that by (simp add: get_random_def e)
    then show ?thesis using None by (auto simp: tb.first_None tb.last_Some not_less)
  next
    case (Some x)
    then have "first_entry (\<lambda>k. k < pivot) (entries tbl) = Some (k, v)"
      using \<open>get_random tbl pivot coin = Some e\<close> that by (simp add: get_random_def e)
    then have f: "k < pivot" "\<And>k' v'. tbl_get tbl k' = Some v' \<Longrightarrow> k' < pivot \<Longrightarrow> k \<le> k'"
      by (auto simp: tb.first_Some)
    have "k \<le> k'" if "tbl_get tbl k' = Some v'" for k' v'
      using f that by (cases "k' < pivot") auto
    then show ?thesis by blast
  qed
  ultimately show ?thesis using Some e by auto
qed

end
