(* ===== verification/Node_Rpc.thy ===== *)
theory Node_Rpc
  imports Node_Round Peer_Address
begin

section \<open>Requests between nodes\<close>

text \<open>
  \<open>node/src/rpc_server.rs\<close>, \<open>rpc.rs\<close>, \<open>finality_vote_query_task.rs\<close> and \<open>connection_pool.rs\<close>, without the transport: what
  a node answers on the state it is in, what a client checks of an answer, and how a connection is chosen.

  A handler that waits is a loop on its channels; a \<open>serve_turn\<close> is what one turn of it does. The connection
  of a client is a record of functions, what the other side answers to each request. \<open>read_message_bao\<close> checks what it
  reads against a hash and a length; its check is part of that answer and a hypothesis where it is used.
\<close>

datatype 'a serve_turn = Respond 'a | KeepWaiting | Refuse string

record wait_vote_request =
  wv_round :: block_round
  only_dummy :: bool

record get_block_request =
  gb_round :: block_round

subsection \<open>The server\<close>

text \<open>The identifiers of requests and the handler that is registered for each.\<close>

definition RPC_ID_HELLO :: "16 word" where "RPC_ID_HELLO = 0x00"

definition RPC_ID_WAIT_VOTE :: "16 word" where "RPC_ID_WAIT_VOTE = 0x11"

definition RPC_ID_WAIT_NOTARIZED_BLOCK :: "16 word" where "RPC_ID_WAIT_NOTARIZED_BLOCK = 0x12"

definition RPC_ID_WAIT_FINALITY_VOTE :: "16 word" where "RPC_ID_WAIT_FINALITY_VOTE = 0x13"

definition RPC_ID_PUSH_PEER_ADDR_UPDATE :: "16 word" where "RPC_ID_PUSH_PEER_ADDR_UPDATE = 0x20"

definition RPC_ID_GET_PEER_ADDR_UPDATE :: "16 word" where "RPC_ID_GET_PEER_ADDR_UPDATE = 0x21"

definition RPC_ID_GET_BLOCK :: "16 word" where "RPC_ID_GET_BLOCK = 0x23"

definition RPC_ID_GET_CONSENSUS_PARAMS :: "16 word" where "RPC_ID_GET_CONSENSUS_PARAMS = 0x24"

lemmas rpc_ids = RPC_ID_HELLO_def RPC_ID_WAIT_VOTE_def RPC_ID_WAIT_NOTARIZED_BLOCK_def RPC_ID_WAIT_FINALITY_VOTE_def
  RPC_ID_PUSH_PEER_ADDR_UPDATE_def RPC_ID_GET_PEER_ADDR_UPDATE_def RPC_ID_GET_BLOCK_def RPC_ID_GET_CONSENSUS_PARAMS_def

datatype rpc_handler = HandleHello | HandleWaitVote | HandleWaitFinalityVote | HandleWaitNotarizedBlock
  | HandlePushPeerAddrUpdate | HandleGetPeerAddrUpdate | HandleGetConsensusParams | HandleGetBlock

definition into_iroh_protocol_handler :: "(16 word \<times> rpc_handler) list" where
  "into_iroh_protocol_handler =
     [(RPC_ID_HELLO, HandleHello), (RPC_ID_WAIT_VOTE, HandleWaitVote), (RPC_ID_WAIT_FINALITY_VOTE, HandleWaitFinalityVote),
      (RPC_ID_WAIT_NOTARIZED_BLOCK, HandleWaitNotarizedBlock), (RPC_ID_PUSH_PEER_ADDR_UPDATE, HandlePushPeerAddrUpdate),
      (RPC_ID_GET_PEER_ADDR_UPDATE, HandleGetPeerAddrUpdate), (RPC_ID_GET_CONSENSUS_PARAMS, HandleGetConsensusParams),
      (RPC_ID_GET_BLOCK, HandleGetBlock)]"

text \<open>No request reaches another handler, whatever the order in which they are tried.\<close>

lemma rpc_handlers_distinct:
  "distinct (map fst into_iroh_protocol_handler)" "(i, h) \<in> set into_iroh_protocol_handler \<Longrightarrow> map_of into_iroh_protocol_handler i = Some h"
proof -
  show d: "distinct (map fst into_iroh_protocol_handler)" by (simp add: into_iroh_protocol_handler_def rpc_ids)
  show "(i, h) \<in> set into_iroh_protocol_handler \<Longrightarrow> map_of into_iroh_protocol_handler i = Some h"
    using d by simp
qed

text \<open>\<open>hello\<close> echoes the message; \<open>read\<close> and \<open>sent\<close> are what the stream answers.\<close>

definition handle_hello :: "(string, byte list) res \<Rightarrow> string option \<Rightarrow> (string, byte list) res" where
  "handle_hello read sent =
     res_bind (map_err (\<lambda>_. ''Failed to read request'') read) (\<lambda>msg.
     case sent of None \<Rightarrow> Ok msg | Some _ \<Rightarrow> Err ''Failed to write response'')"

definition handle_wait_vote ::
  "crypto \<Rightarrow> peer_pubkey option \<Rightarrow> wait_vote_request \<Rightarrow> cons_state \<Rightarrow> ('e, wait_vote_response serve_turn) res" where
  "handle_wait_vote cr our req s =
     (let r = wv_round req; d = fst s; cur = fst (current_round_with_timeout (snd s)) in
      case our of
        None \<Rightarrow> Ok (Refuse ''We have no peer pubkey'')
      | Some k \<Rightarrow>
          if \<not> r \<le> cur then Ok KeepWaiting
          else
            res_bind (get_consensus_params d r) (\<lambda>params.
            res_bind (find_peer_idx params k) (\<lambda>idx.
            case idx of
              None \<Rightarrow> Ok (Refuse ''Not participating in this round'')
            | Some i \<Rightarrow>
                res_bind (get_vote cr r params i d) (\<lambda>vote.
                let later = (if r < cur then Refuse ''Not available'' else KeepWaiting) in
                case vote of
                  None \<Rightarrow> Ok later
                | Some resp \<Rightarrow>
                    Ok (if \<not> only_dummy req \<or> is_dummy (inner (response_block resp)) then Respond resp
                        else later)))))"

definition handle_wait_finality_vote ::
  "crypto \<Rightarrow> (hash \<Rightarrow> byte list \<Rightarrow> hash) \<Rightarrow> node_keys \<Rightarrow> block_round \<Rightarrow> channels \<Rightarrow>
     ('e, block_round signed serve_turn) res" where
  "handle_wait_finality_vote cr hkdf keys req_round c =
     (case own_pubkey keys of
        None \<Rightarrow> Ok (Refuse ''We have no peer pubkey'')
      | Some _ \<Rightarrow>
          res_bind (get_peer_secret_expect hkdf keys) (\<lambda>sk.
          let vote = finality_self_vote c in
          Ok (if req_round < vote then Respond (new_sign cr (finality_sign_hash cr) vote sk) else KeepWaiting)))"

definition handle_wait_notarized_block ::
  "crypto \<Rightarrow> wait_notarized_block_request \<Rightarrow> cons_state \<Rightarrow> ('e, wait_notarized_block_response serve_turn) res" where
  "handle_wait_notarized_block cr req s =
     (if \<not> min_notarized_round req \<le> fst (current_round_with_timeout (snd s)) then Ok KeepWaiting
      else res_bind (get_notarized_block_resp cr req (fst s)) (\<lambda>resp.
        Ok (case resp of Some r \<Rightarrow> Respond r | None \<Rightarrow> KeepWaiting)))"

definition handle_push_peer_addr_update ::
  "crypto \<Rightarrow> (address_update \<Rightarrow> byte list) \<Rightarrow> address_update signed \<Rightarrow> addr_db \<Rightarrow> (string, addr_db) res" where
  "handle_push_peer_addr_update cr enc update d = handle_address_update cr enc update d"

definition handle_get_peer_addr_update ::
  "peer_pubkey \<Rightarrow> addr_db \<Rightarrow> address_update signed option \<times> addr_db" where
  "handle_get_peer_addr_update k d = get_peer_addr k d"

text \<open>The writer returns the hash of what it sent; \<open>sent_hash\<close> is that of \<open>write_message_bao\<close>.\<close>

definition handle_get_consensus_params ::
  "crypto \<Rightarrow> (byte list \<Rightarrow> hash) \<Rightarrow> block_round \<Rightarrow> cons_db \<Rightarrow> ('e, byte list) res" where
  "handle_get_consensus_params cr sent_hash r d =
     res_bind (get_consensus_params d r) (\<lambda>params.
     let raw = to_raw cr params in
     res_bind (assert_or_panic ''out_hash == raw.hash()'' (sent_hash raw = blake3 cr raw)) (\<lambda>_. Ok raw))"

definition handle_get_block :: "get_block_request \<Rightarrow> cons_state \<Rightarrow> block_header notarized option" where
  "handle_get_block req s = get_finalized_block (snd s) (gb_round req) (fst s)"

subsection \<open>The client\<close>

record connection =
  ask_block :: "block_round \<Rightarrow> (string, block_header notarized) res"
  ask_consensus_params :: "block_round \<Rightarrow> hash \<Rightarrow> params_len \<Rightarrow> (string, byte list) res"
  ask_peer_address :: "peer_pubkey \<Rightarrow> (string, address_update signed option) res"
  ask_finality_vote :: "block_round \<Rightarrow> (string, block_round signed) res"

definition rpc_get_block :: "connection \<Rightarrow> block_round \<Rightarrow> (string, block_header notarized) res" where
  "rpc_get_block conn r =
     res_bind (map_err (\<lambda>_. ''Failed request get_block'') (ask_block conn r)) (\<lambda>resp.
     if bh_round (n_inner resp) \<noteq> r then Err ''Mismatched round block from peer'' else Ok resp)"

definition rpc_get_block_hashed ::
  "crypto \<Rightarrow> connection \<Rightarrow> block_round \<Rightarrow> hash \<Rightarrow> (string, block_header notarized) res" where
  "rpc_get_block_hashed cr conn r h =
     res_bind (rpc_get_block conn r) (\<lambda>resp.
     if header_hash cr (n_inner resp) \<noteq> h then Err ''Mismatched hash block from peer'' else Ok resp)"

definition rpc_get_consensus_params ::
  "connection \<Rightarrow> block_round \<Rightarrow> hash \<Rightarrow> params_len \<Rightarrow> (string, byte list) res" where
  "rpc_get_consensus_params conn r h len =
     map_err (\<lambda>_. ''Failed request get_consensus_params'') (ask_consensus_params conn r h len)"

definition rpc_wait_finality_vote ::
  "crypto \<Rightarrow> connection \<Rightarrow> peer_pubkey \<Rightarrow> block_round \<Rightarrow> (string, block_round signed) res" where
  "rpc_wait_finality_vote cr conn k prev =
     res_bind (map_err (\<lambda>_. ''Failed request get_peer_address'') (ask_finality_vote conn prev)) (\<lambda>update.
     res_bind (map_err (\<lambda>_. ''Invalid address resp signature'')
       (verify_sig_peer_pubkey cr (finality_sign_hash cr) update k)) (\<lambda>_. Ok update))"

text \<open>
  One query of the finality task; the outer \<open>None\<close> is the task that ends because the peer is the
  node itself.
\<close>

definition peer_finality_vote_query ::
  "crypto \<Rightarrow> peer_pubkey option \<Rightarrow> (string, connection) res \<Rightarrow> peer_pubkey \<Rightarrow> cons_state \<Rightarrow>
     (string, unit) res \<times> cons_state" where
  "peer_finality_vote_query cr our connect k s =
     (let prev = (case get_finality_vote (fst s) k of Some r \<Rightarrow> r | None \<Rightarrow> 0) in
      case res_bind (map_err (\<lambda>_. ''Failed to connect to peer'') connect)
        (\<lambda>conn. rpc_wait_finality_vote cr conn k prev) of
        Ok update \<Rightarrow>
          (let (r, s') = process_finality_vote_update_response cr k update s in
           (map_err (\<lambda>_. ''Failed to process finality vote update'') r, s'))
      | Err e \<Rightarrow> (Err e, s)
      | Panic m \<Rightarrow> (Panic m, s))"

definition run_peer_finality_vote_query_turn ::
  "crypto \<Rightarrow> peer_pubkey option \<Rightarrow> (string, connection) res \<Rightarrow> peer_pubkey \<Rightarrow> cons_state \<Rightarrow>
     ((string, unit) res \<times> cons_state) option" where
  "run_peer_finality_vote_query_turn cr our connect k s =
     (if our = Some k then None else Some (peer_finality_vote_query cr our connect k s))"

text \<open>The tasks that run, by peer; a peer that has one gets no second.\<close>

definition spawn_finality_vote_query_task :: "peer_pubkey \<Rightarrow> (peer_pubkey, unit) table \<Rightarrow> (peer_pubkey, unit) table" where
  "spawn_finality_vote_query_task k tasks = (if tbl_get tasks k \<noteq> None then tasks else tbl_insert k () tasks)"

subsection \<open>Connections\<close>

text \<open>
  \<open>ConnectionPool::connect\<close>: \<open>open_conns\<close> tells whether the pooled connection of an address is still
  open; \<open>dial\<close> is the result of a new one.
\<close>

datatype connect_error = IrohConnect | AddressResolve string | UnknownPeer peer_pubkey

datatype 'c connect_via = Pooled 'c | Dialed 'c

definition connect ::
  "(hash \<Rightarrow> bool) \<Rightarrow> (hash \<Rightarrow> 'c option) \<Rightarrow> ('c \<Rightarrow> bool) \<Rightarrow> (hash \<Rightarrow> 'c option) \<Rightarrow> peer_pubkey option \<Rightarrow>
     peer_pubkey \<Rightarrow> addr_db \<times> nat \<Rightarrow> (connect_error, 'c connect_via) res \<times> (addr_db \<times> nat)" where
  "connect node_id_ok pool is_open dial our k s =
     (let (addr, d) = get_peer_iroh_addr node_id_ok k (fst s); s1 = (d, snd s) in
      case addr of
        Panic m \<Rightarrow> (Panic m, s1)
      | Err e \<Rightarrow> (Err (AddressResolve e), s1)
      | Ok None \<Rightarrow> (Err (UnknownPeer k), s1)
      | Ok (Some node_id) \<Rightarrow>
          (let fresh = (case dial node_id of
               Some c \<Rightarrow> (Ok (Dialed c), s1)
             | None \<Rightarrow> (Err IrohConnect, mark_peer_addr_as_needed our k s1)) in
           case pool node_id of
             Some c \<Rightarrow> if is_open c then (Ok (Pooled c), s1) else fresh
           | None \<Rightarrow> fresh))"

subsection \<open>What is served verifies\<close>

lemma notarized_resp_real:
  assumes inv: "mid_inv cr d" and f: "first_entry (\<lambda>k. m \<le> k) (entries (cons_blocks_notarized d)) = Some (r, b)"
    and m: "m = min_notarized_round req"
  obtains p pl where "get_notarized_block_resp cr req d =
      (Ok (Some \<lparr>wn_block = notarized_new b (get_votes_proposal d r), wn_payload = pl\<rparr>) :: ('e, _) res)"
    "bh_round b = r" "m \<le> r" "\<not> is_dummy b" "payload_hash_of cr pl = payload_hash b" "params_at d r = Some p"
    "verify_sigs cr (header_sign_hash cr) (notarized_new b (get_votes_proposal d r)) p = Ok ()"
proof -
  have g: "tbl_get (cons_blocks_notarized d) r = Some b" "m \<le> r" using f by (simp_all add: tb.first_Some)
  then have b: "bh_round b = r" "header_ok cr d b" using inv unfolding mid_inv_def notar_inv_def by blast+
  then obtain pl where pl: "tbl_get (cons_blocks_payloads d) (payload_hash b) = Some pl" by (auto simp: header_ok_def)
  then have "payload_hash_of cr pl = payload_hash b" using inv by (simp add: mid_inv_def payloads_inv_def)
  moreover obtain p where "params_at d r = Some p"
    "verify_sigs cr (header_sign_hash cr) (notarized_new b (get_votes_proposal d r)) p = Ok ()"
    using notarized_block_verifies [OF inv g(1)] .
  moreover have "get_notarized_block_resp cr req d =
      (Ok (Some \<lparr>wn_block = notarized_new b (get_votes_proposal d r), wn_payload = pl\<rparr>) :: ('e, _) res)"
    using f m pl b(1) by (simp add: get_notarized_block_resp_def)
  ultimately show thesis using that b g(2) by (simp add: header_ok_def)
qed

text \<open>C16. What a node serves. On a state that satisfies the invariant the answer to a request for a notarized block never
  panics. A real block in it is one of the asked rounds, comes with the payload of its header and a quorum of signatures that verify
  under the parameters of its round. A dummy is sent only when the node holds no block from the asked round on; it is the dummy of the
  current round of the peer that asked, without a payload, with signatures of a quorum of the peers, each one of a dummy of that round
  by its peer. It verifies if they are all signatures of this header; that they may be of a dummy with another timestamp
  is \<open>odd_dummy_vote_spoils_answer\<close>.\<close>

theorem served_block_verifies:
  assumes inv: "cons_inv cr (fst s)"
  shows "\<exists>t. handle_wait_notarized_block cr req s = (Ok t :: (unit, _) res) \<and>
    (\<forall>resp. t = Respond resp \<longrightarrow>
      (\<exists>p. params_at (fst s) (bh_round (n_inner (wn_block resp))) = Some p \<and>
       (if is_dummy (n_inner (wn_block resp)) then
          (\<forall>q. min_notarized_round req \<le> q \<longrightarrow> tbl_get (cons_blocks_notarized (fst s)) q = None) \<and>
          new_dummy cr (req_cur_round req) p = (Ok (n_inner (wn_block resp)) :: (unit, _) res) \<and> wn_payload resp = [] \<and>
          threshold (of_nat (length (peers p))) \<le> card {i. tbl_get (sigs (wn_block resp)) i \<noteq> None} \<and>
          (\<forall>i sg. tbl_get (sigs (wn_block resp)) i = Some sg \<longrightarrow> dummy_vote_ok cr (fst s) (req_cur_round req) i sg) \<and>
          ((\<forall>i sg. tbl_get (sigs (wn_block resp)) i = Some sg \<longrightarrow>
              sig_valid cr (peers p) (header_sign_hash cr (n_inner (wn_block resp))) i sg) \<longrightarrow>
            verify_sigs cr (header_sign_hash cr) (wn_block resp) p = Ok ())
        else
          min_notarized_round req \<le> bh_round (n_inner (wn_block resp)) \<and>
          payload_hash_of cr (wn_payload resp) = payload_hash (n_inner (wn_block resp)) \<and>
          verify_sigs cr (header_sign_hash cr) (wn_block resp) p = Ok ())))"
proof -
  let ?d = "fst s"
  have mid: "mid_inv cr ?d" using inv by (simp add: cons_inv_def)
  show ?thesis
  proof (cases "first_entry (\<lambda>k. min_notarized_round req \<le> k) (entries (cons_blocks_notarized ?d))")
    case None
    then have no: "\<forall>q. min_notarized_round req \<le> q \<longrightarrow> tbl_get (cons_blocks_notarized ?d) q = None"
      by (auto simp: tb.first_None)
    obtain p where p: "params_at ?d (req_cur_round req) = Some p" "params_ok cr p"
      using params_at_Some [OF mid_inv_sched [OF mid]] .
    then obtain b where b: "new_dummy cr (req_cur_round req) p = (Ok b :: (unit, _) res)"
      by (auto simp: new_dummy_Ok_iff params_ok_def)
    have g: "get_consensus_params ?d (req_cur_round req) = (Ok p :: (unit, _) res)"
      "num_peers p = (Ok (of_nat (length (peers p))) :: (unit, _) res)"
      using p by (simp_all add: get_consensus_params_Ok_iff num_peers_Ok_iff params_ok_def)
    have h: "is_dummy b" "bh_round b = req_cur_round req" using new_dummy_is_dummy [OF b] by simp_all
    let ?n = "notarized_new b (get_votes_dummy ?d (req_cur_round req))"
    have n: "n_inner ?n = b" by (simp add: notarized_new_def)
    show ?thesis
    proof (cases "threshold (of_nat (length (peers p))) \<le> length (get_votes_dummy ?d (req_cur_round req))")
      case True
      then have "get_notarized_block_resp cr req ?d = (Ok (Some \<lparr>wn_block = ?n, wn_payload = payload_empty\<rparr>) :: (unit, _) res)"
        by (simp add: get_notarized_block_resp_def None g b)
      then show ?thesis
        using notarized_resp_dummy [OF mid p(1) b True] h n no p(1) b
        by (simp add: handle_wait_notarized_block_def payload_empty_def)
    next
      case False
      then have "get_notarized_block_resp cr req ?d = (Ok None :: (unit, _) res)"
        by (simp add: get_notarized_block_resp_def None g)
      then show ?thesis by (simp add: handle_wait_notarized_block_def)
    qed
  next
    case (Some e)
    obtain r b where e: "e = (r, b)" by fastforce
    from notarized_resp_real [OF mid Some [unfolded e] refl, where 'e = unit] obtain p pl where
      "get_notarized_block_resp cr req ?d =
        (Ok (Some \<lparr>wn_block = notarized_new b (get_votes_proposal ?d r), wn_payload = pl\<rparr>) :: (unit, _) res)"
      "bh_round b = r" "min_notarized_round req \<le> r" "payload_hash_of cr pl = payload_hash b" "params_at ?d r = Some p"
      "\<not> is_dummy b"
      "verify_sigs cr (header_sign_hash cr) (notarized_new b (get_votes_proposal ?d r)) p = Ok ()" by metis
    then show ?thesis by (simp add: handle_wait_notarized_block_def) (simp add: notarized_new_def)
  qed
qed

theorem served_block_verifies_witness:
  "\<exists>resp p. handle_wait_notarized_block agree_crypto \<lparr>min_notarized_round = 0, req_cur_round = 1\<rparr> (agree_db, \<lparr>current_round_with_timeout = (1, False), finality_consensus = 0, finality_self_vote = 1, new_votes = 0, new_proposal = 0\<rparr>) =
       (Ok (Respond resp) :: (unit, _) res) \<and>
     verify_sigs agree_crypto (header_sign_hash agree_crypto) (wn_block resp) p = Ok ()"
proof -
  let ?req = "\<lparr>min_notarized_round = 0, req_cur_round = 1\<rparr>" and ?s = "(agree_db, \<lparr>current_round_with_timeout = (1, False), finality_consensus = 0, finality_self_vote = 1, new_votes = 0, new_proposal = 0\<rparr>)"
  have f: "first_entry ((\<le>) 0) (entries (cons_blocks_notarized agree_db)) = Some (0, agree_block)"
    by (auto simp: tb.first_Some)
  have ph: "payload_hash agree_block = 5" by (simp add: agree_block_def)
  let ?resp = "\<lparr>wn_block = notarized_new agree_block (get_votes_proposal agree_db 0), wn_payload = [5]\<rparr>"
  have h: "handle_wait_notarized_block agree_crypto ?req ?s = (Ok (Respond ?resp) :: (unit, _) res)"
    unfolding handle_wait_notarized_block_def get_notarized_block_resp_def by (simp add: f ph)
  have "\<not> is_dummy (n_inner (wn_block ?resp))" by (simp add: notarized_new_def)
  with served_block_verifies [of agree_crypto ?s ?req] agree_inv h show ?thesis by auto
qed

end
