(* ===== verification/Node_Sync.thy ===== *)
theory Node_Sync
  imports Node_Rpc
begin

section \<open>Catching up\<close>

text \<open>
  The two ends of \<open>wait_notarized_block\<close> together: what one node serves (\<open>node/src/rpc_server.rs\<close>) brings the node that
  asked (\<open>consensus/src/consensus/handle_notarized_block.rs\<close>) past the round of the block.
\<close>

lemma insert_notarized_block_tx_Ok:
  assumes "tbl_get (cons_blocks_notarized (dbtx tx)) (bh_round (n_inner block)) = None" "\<not> is_dummy (n_inner block)"
  shows "\<exists>tx'. insert_notarized_block_tx block pl tx = Ok tx'"
  using assms by (simp add: insert_notarized_block_tx_def insert_notarized_block_def Let_def)

lemma highest_at_least:
  assumes inv: "mid_inv cr d" and b: "tbl_get (cons_blocks_notarized d) r = Some b" "r \<noteq> - 1"
  shows "\<exists>h. get_prev_notarized_block d (- 1) = Some h \<and> r \<le> bh_round h"
proof -
  have keys: "\<And>r b. tbl_get (cons_blocks_notarized d) r = Some b \<Longrightarrow> bh_round b = r"
    using inv by (auto simp: mid_inv_def notar_inv_def)
  have lt: "r < - 1" using b(2) by (simp add: word_order.not_eq_extremum)
  then have "get_prev_notarized_block d (- 1) \<noteq> None" using b(1) by (auto simp: prev_notarized_None_iff)
  then obtain h where h: "get_prev_notarized_block d (- 1) = Some h" by blast
  then have "r \<le> bh_round h" using b(1) lt prev_notarized_Some_iff [where d = d and r = "- 1" and b = h, OF keys] by blast
  with h show ?thesis by blast
qed

text \<open>A verified block past everything the node has, which extends its latest one, is taken and the node leaves its round.\<close>

lemma extending_block_accepted:
  assumes inv: "cons_inv cr d" and cur: "cur = get_current_round d" "cur \<noteq> - 1"
    and p: "params_at d r = Some p" and r: "r = bh_round (n_inner block)" "r \<noteq> - 1" "cur \<le> r"
    and sg: "verify_sigs cr (header_sign_hash cr) block p = Ok u"
    and content: "verify_with_content cr (n_inner block) (params_hash cr p) clen pl = Ok v"
    and clen: "clen = of_nat (length (enc_params cr p))" and nd: "\<not> is_dummy (n_inner block)"
    and ext: "does_directly_extend cr (n_inner block) (get_prev_notarized_block d cur)"
    and pins: "\<And>r. tbl_get (cons_blocks_pinned d) r = None"
  shows "\<exists>tx'. process_notarized_real cr our cur block pl (wtx_new d) = Ok tx' \<and> r < get_current_round (dbtx tx')"
proof -
  let ?tx = "wtx_new d :: cons_tx"
  have mid: "mid_inv cr d" and below: "\<And>r b. tbl_get (cons_blocks_notarized d) r = Some b \<Longrightarrow> r < cur"
    using inv cur by (auto simp: cons_inv_def)
  have keys: "\<And>r b. tbl_get (cons_blocks_notarized d) r = Some b \<Longrightarrow> bh_round b = r"
    using mid by (auto simp: mid_inv_def notar_inv_def)
  have no: "tbl_get (cons_blocks_notarized (dbtx ?tx)) r = None" using below [of r] r(3) by (cases "tbl_get (cons_blocks_notarized d) r") (auto simp: leD)
  obtain tx1 where t: "insert_notarized_block_tx block pl ?tx = Ok tx1"
    using insert_notarized_block_tx_Ok [of ?tx block pl] no nd r(1) by auto
  have i: "mid_inv cr (dbtx tx1)" "get_current_round (dbtx tx1) = cur"
    "cons_blocks_notarized (dbtx tx1) = tbl_insert r (n_inner block) (cons_blocks_notarized d)"
    using insert_notarized_block_tx_inv [OF _ _ _ sg content clen nd _ t] mid p r no cur by simp_all
  have sync: "round_synced cur tx1"
    by (rule round_synced_quiet [OF round_synced_new [of d, folded cur(1)], where hs = "[NotifyNewVotes]"])
      (use insert_notarized_block_tx_hooks [OF t] i(2) cur in auto)
  have "cons_blocks_pinned (dbtx tx1) = cons_blocks_pinned d"
    using insert_notarized_block_tx_keep [OF t] by (simp add: keep_def)
  then have "check_round_end cr our cur tx1 \<noteq> Err PinnedMismatch" using check_round_end_Err pins by fastforce
  then obtain tx' where c: "check_round_end cr our cur tx1 = Ok tx'" "advanced (dbtx tx1) (dbtx tx')"
    using check_round_end_cases [OF i(1) i(2) [symmetric] cur(2) sync, of our] by blast
  obtain h where h: "get_prev_notarized_block (dbtx tx1) (- 1) = Some h" "r \<le> bh_round h"
    using highest_at_least [OF i(1), of r "n_inner block"] i(3) r(2) by auto
  have "r < get_current_round (dbtx tx')"
  proof (rule ccontr)
    assume "\<not> ?thesis"
    then have "get_current_round (dbtx tx') \<le> bh_round h" using h(2) by simp
    then show False using c(2) h(1) by (auto simp: advanced_def ended_def Let_def)
  qed
  moreover have "process_notarized_real cr our cur block pl ?tx = Ok tx'"
  proof (cases "get_prev_notarized_block d cur")
    case None
    then show ?thesis using ext t c(1) by (simp add: process_notarized_real_def Let_def)
  next
    case (Some l)
    then have "bh_round l < cur" using prev_notarized_Some_iff [OF keys] by blast
    then have "bh_round l < bh_round (n_inner block)" using r(1,3) by simp
    then show ?thesis using ext t c(1) Some by (simp add: process_notarized_real_def Let_def less_imp_neq not_le)
  qed
  ultimately show ?thesis by blast
qed

text \<open>C8. A node that is behind catches up. What a node serves for a request of another one, a real block of the
  current round of that one or later, which extends its latest block, is accepted and takes it past the round of the block;
  both nodes satisfy their invariant and agree on the parameters of the round, and the payload has the length of its header.\<close>

theorem served_block_catches_up:
  assumes client: "cons_inv cr d" "get_current_round d \<noteq> - 1" "\<forall>r. get_pinned_block d r = None"
    and server: "cons_inv cr (fst s)" "handle_wait_notarized_block cr req s = (Ok (Respond resp) :: (unit, _) res)"
    and block: "\<not> is_dummy (n_inner (wn_block resp))" "get_current_round d \<le> bh_round (n_inner (wn_block resp))"
      "does_directly_extend cr (n_inner (wn_block resp)) (get_prev_notarized_block d (get_current_round d))"
    and payload: "length (wn_payload resp) < 2 ^ 32" "bh_payload_len (n_inner (wn_block resp)) = of_nat (length (wn_payload resp))"
    and same: "params_at d (bh_round (n_inner (wn_block resp))) = params_at (fst s) (bh_round (n_inner (wn_block resp)))"
  shows "\<exists>tx'. process_notarized_block_response_tx cr our resp (wtx_new d) = Ok tx' \<and>
    bh_round (n_inner (wn_block resp)) < get_current_round (dbtx tx')"
proof -
  let ?b = "n_inner (wn_block resp)" and ?d = "fst s"
  have mid: "mid_inv cr ?d" using server(1) by (simp add: cons_inv_def)
  have resp: "get_notarized_block_resp cr req ?d = (Ok (Some resp) :: (unit, _) res)"
    using server(2) by (auto simp: handle_wait_notarized_block_def res_simps split: if_splits option.splits)
  have "first_entry (\<lambda>k. min_notarized_round req \<le> k) (entries (cons_blocks_notarized ?d)) \<noteq> None"
  proof
    assume "first_entry (\<lambda>k. min_notarized_round req \<le> k) (entries (cons_blocks_notarized ?d)) = None"
    then show False
      using resp block(1) by (auto simp: get_notarized_block_resp_def res_simps Let_def notarized_new_def
          is_dummy_def split: if_splits)
  qed
  then obtain r b where f: "first_entry (\<lambda>k. min_notarized_round req \<le> k) (entries (cons_blocks_notarized ?d)) = Some (r, b)"
    by fastforce
  from notarized_resp_real [OF mid f refl, where 'e = unit] obtain p pl where
    g: "get_notarized_block_resp cr req ?d =
      (Ok (Some \<lparr>wn_block = notarized_new b (get_votes_proposal ?d r), wn_payload = pl\<rparr>) :: (unit, _) res)"
    and b: "bh_round b = r" "payload_hash_of cr pl = payload_hash b" "params_at ?d r = Some p"
      "verify_sigs cr (header_sign_hash cr) (notarized_new b (get_votes_proposal ?d r)) p = Ok ()" by metis
  have w: "wn_block resp = notarized_new b (get_votes_proposal ?d r)" "wn_payload resp = pl" "?b = b"
    using resp g by (auto simp: notarized_new_def)
  have n: "tbl_get (cons_blocks_notarized ?d) r = Some b" using f by (simp add: tb.first_Some)
  then have ho: "header_ok cr ?d b" and r: "r < get_current_round ?d"
    using server(1) unfolding cons_inv_def mid_inv_def notar_inv_def by blast+
  have pd: "params_at d r = Some p" using same w b by simp
  have ok: "params_ok cr p" using params_at_ok [OF _ pd] client(1) by (auto simp: cons_inv_def mid_inv_def)
  let ?clen = "of_nat (length (enc_params cr p)) :: params_len"
  have c: "verify_with_content cr b (params_hash cr p) ?clen pl = Ok ()"
    using ho b payload w by (auto simp: verify_with_content_Ok_iff header_ok_def)
  have pr: "params_len cr p = (Ok ?clen :: (process_notarized_block_error, _) res)"
    "get_consensus_params d r = (Ok p :: (process_notarized_block_error, _) res)"
    using ok pd by (simp_all add: params_len_Ok_iff params_ok_def get_consensus_params_Ok_iff)
  have "\<And>r. tbl_get (cons_blocks_pinned d) r = None" using client(3) by (simp add: get_pinned_block_def)
  from extending_block_accepted [OF client(1) refl client(2) pd _ less_imp_not_max [OF r] _ _ _ refl _ _ this,
    of "wn_block resp" "()" pl "()" our] obtain tx' where
    "process_notarized_real cr our (get_current_round d) (wn_block resp) pl (wtx_new d) = Ok tx'" "r < get_current_round (dbtx tx')"
    using w b c block by auto
  moreover have "process_notarized_block_response_tx cr our resp (wtx_new d) =
      process_notarized_real cr our (get_current_round d) (wn_block resp) pl (wtx_new d)"
    using w b c block(1) by (simp add: process_notarized_block_response_tx_def Let_def pr)
  ultimately show ?thesis using w b(1) by auto
qed

text \<open>A node that starts and one that has notarized the first block of the same federation.\<close>

definition sync_db :: cons_db where
  "sync_db = cons_db_empty\<lparr>cons_params_schedule := tbl_insert 0 0 tbl_empty,
     cons_params := tbl_insert 0 (test_params [7]) tbl_empty\<rparr>"

lemma sync_db_fields:
  "cons_inv agree_crypto sync_db" "get_current_round sync_db = 0" "params_at sync_db r = Some (test_params [7])"
  "get_prev_notarized_block sync_db r = None" "get_pinned_block sync_db r = None"
proof -
  have "params_ok agree_crypto (test_params [7])" by (simp add: params_ok_def test_params_def agree_crypto_def)
  moreover have "init_tx agree_crypto (test_params [7]) None cons_db_empty = Ok (0, sync_db)"
    by (simp add: init_tx_def insert_consensus_params_def Let_def sync_db_def cons_db_empty_def get_current_round_def
        params_hash_def agree_crypto_def from_be_bytes_def)
  ultimately show "cons_inv agree_crypto sync_db" "get_current_round sync_db = 0" using cons_inv_init by blast+
  have "last_entry (\<lambda>k. k \<le> r) (entries (cons_params_schedule sync_db)) = Some (0, 0)"
    by (auto simp: sync_db_def tb.last_Some)
  then show "params_at sync_db r = Some (test_params [7])" by (simp add: params_at_def sync_db_def)
  show "get_prev_notarized_block sync_db r = None" "get_pinned_block sync_db r = None"
    by (simp_all add: sync_db_def cons_db_empty_def prev_notarized_None_iff get_pinned_block_def)
qed

theorem served_block_catches_up_witness:
  "\<exists>resp tx'. handle_wait_notarized_block agree_crypto \<lparr>min_notarized_round = 0, req_cur_round = 0\<rparr> (agree_db, \<lparr>current_round_with_timeout = (1, False), finality_consensus = 0, finality_self_vote = 1, new_votes = 0, new_proposal = 0\<rparr>) =
       (Ok (Respond resp) :: (unit, _) res) \<and>
     process_notarized_block_response_tx agree_crypto None resp (wtx_new sync_db) = Ok tx' \<and> 0 < get_current_round (dbtx tx')"
proof -
  let ?req = "\<lparr>min_notarized_round = 0, req_cur_round = 0\<rparr>" and ?s = "(agree_db, \<lparr>current_round_with_timeout = (1, False), finality_consensus = 0, finality_self_vote = 1, new_votes = 0, new_proposal = 0\<rparr>)"
  have f: "first_entry ((\<le>) 0) (entries (cons_blocks_notarized agree_db)) = Some (0, agree_block)"
    by (auto simp: tb.first_Some)
  have ph: "payload_hash agree_block = 5" "bh_payload_len agree_block = 1" by (simp_all add: agree_block_def)
  let ?resp = "\<lparr>wn_block = notarized_new agree_block (get_votes_proposal agree_db 0), wn_payload = [5]\<rparr>"
  have h: "handle_wait_notarized_block agree_crypto ?req ?s = (Ok (Respond ?resp) :: (unit, _) res)"
    unfolding handle_wait_notarized_block_def get_notarized_block_resp_def by (simp add: f ph)
  have b: "n_inner (notarized_new agree_block vs) = agree_block" for vs by (simp add: notarized_new_def)
  have ext: "does_directly_extend agree_crypto agree_block None"
    by (simp add: does_directly_extend_def agree_block_def test_header_def)
  have "\<exists>tx'. process_notarized_block_response_tx agree_crypto None ?resp (wtx_new sync_db) = Ok tx' \<and>
      bh_round (n_inner (wn_block ?resp)) < get_current_round (dbtx tx')"
    by (rule served_block_catches_up [OF _ _ _ _ h])
      (simp_all add: b sync_db_fields agree_inv ext ph)
  with h b show ?thesis by auto
qed

end
