(* ===== verification/Shared_Modules.thy ===== *)
theory Shared_Modules
  imports Node_App
begin

section \<open>The modules shared with the node\<close>

text \<open>
  \<open>node-shared-modules/src/lib.rs\<close>: the application owns the running modules; the node reads them through
  \<open>WeakSharedModules\<close>, mostly to wait for something to propose. The modules and their channels of proposed items are
  \<open>as_modules\<close> and \<open>as_props\<close> of the application. A method that waits is one turn of its loop, \<open>None\<close> for a turn
  that goes on waiting. A weak reference whose owner is gone hangs, or is \<open>ShuttingDown\<close>.
\<close>

definition module_items :: "module_id \<Rightarrow> byte list list \<Rightarrow> citem list" where
  "module_items i citems = map (\<lambda>raw. PeerCItem \<lparr>md_module_id = i, md_inner = raw\<rparr>) citems"

text \<open>The first module, in the order of the identifiers, that proposes something.\<close>

fun first_proposing :: "(module_id \<times> dyn_module_with_config) list \<Rightarrow> app_props \<Rightarrow> citem list option" where
  "first_proposing [] props = None"
| "first_proposing ((i, m) # ms) props =
     (if props i \<noteq> [] then Some (module_items i (props i)) else first_proposing ms props)"

text \<open>When none does, the stream map waits for the channels of the modules; \<open>woken\<close> is the one whose value arrives.\<close>

definition wait_consensus_proposal ::
  "modules \<Rightarrow> app_props \<Rightarrow> (module_id \<times> byte list list) option \<Rightarrow> (unit, citem list option) res" where
  "wait_consensus_proposal ms props woken = (case first_proposing (entries ms) props of
      Some items \<Rightarrow> Ok (Some items)
    | None \<Rightarrow>
        (case woken of
           None \<Rightarrow> Ok None
         | Some (i, citems) \<Rightarrow>
             if tbl_get ms i = None \<or> citems = [] then Ok None
             else res_bind (assert_or_panic ''!citems.is_empty()'' (citems \<noteq> [])) (\<lambda>_. Ok (Some (module_items i citems)))))"

text \<open>One turn of the loop; \<open>changed\<close> tells that \<open>select!\<close> takes the branch of the changed modules.\<close>

definition wait_fresh_consensus_proposal ::
  "block_round \<Rightarrow> block_round \<Rightarrow> bool \<Rightarrow> modules \<Rightarrow> app_props \<Rightarrow> (module_id \<times> byte list list) option \<Rightarrow>
     (unit, citem list option) res" where
  "wait_fresh_consensus_proposal finality app_ack changed ms props woken =
     (if app_ack \<noteq> finality then Ok None
      else if changed then Ok None
      else wait_consensus_proposal ms props woken)"

definition get_module :: "modules \<Rightarrow> module_id \<Rightarrow> dyn_module_with_config option" where
  "get_module ms i = tbl_get ms i"

definition get_modules_ids :: "modules \<Rightarrow> module_id list" where
  "get_modules_ids ms = map fst (entries ms)"

definition get_modules_kinds :: "modules \<Rightarrow> (module_id \<times> module_kind) list" where
  "get_modules_kinds ms = map (\<lambda>(i, m). (i, mc_kind (dm_config m))) (entries ms)"

datatype module_get_error = ModulesShuttingDown

definition weak_get :: "modules option \<Rightarrow> module_id \<Rightarrow> (module_get_error, dyn_module_with_config option) res" where
  "weak_get owner i = (case owner of None \<Rightarrow> Err ModulesShuttingDown | Some ms \<Rightarrow> Ok (get_module ms i))"

subsection \<open>What is proposed\<close>

lemma first_proposing_Some:
  assumes "first_proposing ms props = Some items"
  shows "\<exists>xs i m ys. ms = xs @ (i, m) # ys \<and> props i \<noteq> [] \<and> items = module_items i (props i) \<and>
    (\<forall>j \<in> set (map fst xs). props j = [])"
  using assms
proof (induction ms)
  case (Cons e ms)
  obtain i m where e: "e = (i, m)" by fastforce
  show ?case
  proof (cases "props i = []")
    case True
    then obtain xs j n ys where "ms = xs @ (j, n) # ys" "props j \<noteq> []" "items = module_items j (props j)"
      "\<forall>j \<in> set (map fst xs). props j = []" using Cons e by auto
    then show ?thesis using e True by (intro exI [of _ "e # xs"] exI [of _ j] exI [of _ n] exI [of _ ys]) simp
  next
    case False
    then show ?thesis using Cons.prems e by (intro exI [of _ "[]"] exI [of _ i] exI [of _ m] exI [of _ ms]) simp
  qed
qed simp

text \<open>Every proposed item is one of a running module, whole channels at a time, and nothing is proposed unless the application
  has seen the finality of the consensus.\<close>

lemma fresh_proposal_of_module:
  assumes "wait_fresh_consensus_proposal finality app_ack changed ms props woken = Ok (Some items)"
  shows "app_ack = finality \<and> items \<noteq> [] \<and> (\<exists>i citems. tbl_get ms i \<noteq> None \<and> items = module_items i citems)"
proof -
  have f: "\<exists>i citems. tbl_get ms i \<noteq> None \<and> citems \<noteq> [] \<and> items = module_items i citems"
    if p: "first_proposing (entries ms) props = Some items"
  proof -
    obtain xs i m ys where "entries ms = xs @ (i, m) # ys" "props i \<noteq> []" "items = module_items i (props i)"
      using first_proposing_Some [OF p] by blast
    moreover have "tbl_get ms i = Some m" using calculation(1) by (simp flip: tb.scan_get)
    ultimately show ?thesis by blast
  qed
  show ?thesis
    using assms f by (fastforce simp: wait_fresh_consensus_proposal_def wait_consensus_proposal_def module_items_def
        assert_or_panic_def split: if_splits option.splits prod.splits)
qed

end
