(* ===== verification/Db_Layer.thy ===== *)
theory Db_Layer
  imports Db
begin

section \<open>The transaction layer with its failures\<close>

text \<open>
  \<open>db/src/lib.rs\<close>, \<open>db/src/ctx.rs\<close> and \<open>db/src/error.rs\<close>, every failure included: opening the
  database, a transaction that cannot begin or commit, a body that reports a database error or an
  error of its own, a commit hook that panics. The theory \<open>Db\<close> is what the components use; the
  refinement lemma at the end relates the two.

  The storage engine \<open>redb\<close> is third-party code: what it and the file system answer is the record
  \<open>engine\<close> of a call, \<open>None\<close> meaning that the call succeeds. A hook is data, \<open>run\<close> says what it
  does to the channels and whether it panics. A panic while \<open>commit_hook_order_lock\<close> is held
  poisons that lock; it matters where panics unwind, as in development builds, a release build aborts.
\<close>

subsection \<open>Errors\<close>

datatype db_error =
    DatabaseErr string
  | TableErr string
  | StorageErr string
  | TransactionErr string
  | JoinErr string
  | CommitErr string
  | DbVersionTooHigh "64 word" "64 word"
  | IoErr string
  | InvalidPath
  | Overflow

datatype 'e db_tx_error = DbErr db_error | TxErr 'e

text \<open>\<open>TryFrom<DbTxError<E>> for DbError\<close>, the conversions by \<open>?\<close>, \<open>tx_into\<close> and \<open>map\<close>.\<close>

fun try_from_tx_error :: "'e db_tx_error \<Rightarrow> ('e, db_error) res" where
  "try_from_tx_error (DbErr source) = Ok source"
| "try_from_tx_error (TxErr source) = Err source"

definition from_table_error :: "string \<Rightarrow> 'e db_tx_error" where
  "from_table_error t = DbErr (TableErr t)"

definition from_storage_error :: "string \<Rightarrow> 'e db_tx_error" where
  "from_storage_error t = DbErr (StorageErr t)"

fun tx_into :: "('e \<Rightarrow> 'g) \<Rightarrow> 'e db_tx_error \<Rightarrow> 'g db_tx_error" where
  "tx_into from_e (DbErr source) = DbErr source"
| "tx_into from_e (TxErr source) = TxErr (from_e source)"

fun tx_error_map :: "('e \<Rightarrow> 'g) \<Rightarrow> 'e db_tx_error \<Rightarrow> 'g db_tx_error" where
  "tx_error_map f (DbErr source) = DbErr source"
| "tx_error_map f (TxErr source) = TxErr (f source)"

subsection \<open>The database\<close>

record 'd database =
  db_inner :: 'd
  db_ephemeral :: bool
  db_lock_poisoned :: bool

record engine =
  eng_begin_read :: "string option"
  eng_begin_write :: "string option"
  eng_commit :: "string option"

definition db_context :: "('s \<Rightarrow> 'e) \<Rightarrow> 's option \<Rightarrow> ('e, unit) res" where
  "db_context snafu answer = (case answer of None \<Rightarrow> Ok () | Some source \<Rightarrow> Err (snafu source))"

definition open_inner :: "'d \<Rightarrow> bool \<Rightarrow> 'd database" where
  "open_inner d ephemeral = \<lparr>db_inner = d, db_ephemeral = ephemeral, db_lock_poisoned = False\<rparr>"

text \<open>\<open>create\<close> is the answer of the engine.\<close>

definition new_in_memory :: "(string, 'd) res \<Rightarrow> (db_error, 'd database) res" where
  "new_in_memory create = res_bind (map_err DatabaseErr create) (\<lambda>d. Ok (open_inner d True))"

text \<open>
  A path is its components after an optional root. \<open>mkdir\<close> answers the creation of the parent
  directory, \<open>blocking\<close> the join of the blocking task, \<open>create\<close> the engine; a failed compaction is
  logged only.
\<close>

record path =
  path_has_root :: bool
  path_components :: "string list"

definition path_parent :: "path \<Rightarrow> path option" where
  "path_parent p = (if path_components p = [] then None
     else Some (p\<lparr>path_components := butlast (path_components p)\<rparr>))"

definition database_open ::
  "(path \<Rightarrow> string option) \<Rightarrow> string option \<Rightarrow> (path \<Rightarrow> (string, 'd) res) \<Rightarrow> path \<Rightarrow>
     (db_error, 'd database) res" where
  "database_open mkdir blocking create path =
     res_bind (case path_parent path of Some p \<Rightarrow> Ok p | None \<Rightarrow> Err InvalidPath) (\<lambda>parent.
     res_bind (db_context IoErr (mkdir parent)) (\<lambda>_.
     res_bind (db_context JoinErr blocking) (\<lambda>_.
     res_bind (map_err DatabaseErr (create path)) (\<lambda>d.
     Ok (open_inner d False)))))"

definition is_ephemeral :: "'d database \<Rightarrow> bool" where
  "is_ephemeral db = db_ephemeral db"

subsection \<open>Commit\<close>

text \<open>The hooks run in order; the first that panics ends the run.\<close>

fun run_hooks :: "('h \<Rightarrow> 'c \<Rightarrow> 'c \<times> string option) \<Rightarrow> 'h list \<Rightarrow> 'c \<Rightarrow> 'c \<times> string option" where
  "run_hooks run [] c = (c, None)"
| "run_hooks run (h # hs) c = (case run h c of
     (c', None) \<Rightarrow> run_hooks run hs c'
   | (c', Some m) \<Rightarrow> (c', Some m))"

type_synonym ('d, 'c) layer = "'d database \<times> 'c"

definition ctx_commit ::
  "engine \<Rightarrow> ('h \<Rightarrow> 'c \<Rightarrow> 'c \<times> string option) \<Rightarrow> ('d, 'h) wtx \<Rightarrow> ('d, 'c) layer \<Rightarrow>
     (string, unit) res \<times> ('d, 'c) layer" where
  "ctx_commit eng run tx s =
     (if db_lock_poisoned (fst s) then (Panic ''Can't fail'', s)
      else case eng_commit eng of
        Some source \<Rightarrow> (Err source, s)
      | None \<Rightarrow>
          (case run_hooks run (on_commit_hooks tx) (snd s) of
             (c, None) \<Rightarrow> (Ok (), (fst s)\<lparr>db_inner := dbtx tx\<rparr>, c)
           | (c, Some m) \<Rightarrow> (Panic m, (fst s)\<lparr>db_inner := dbtx tx, db_lock_poisoned := True\<rparr>, c)))"

subsection \<open>Transactions\<close>

type_synonym ('d, 'h, 'e, 'a) tx_body = "('d, 'h) wtx \<Rightarrow> ('e, 'a \<times> ('d, 'h) wtx) res"

definition write_with_inner_falliable ::
  "engine \<Rightarrow> ('h \<Rightarrow> 'c \<Rightarrow> 'c \<times> string option) \<Rightarrow> ('d, 'h, 'e db_tx_error, 'a) tx_body \<Rightarrow> ('d, 'c) layer \<Rightarrow>
     ('e db_tx_error, 'a) res \<times> ('d, 'c) layer" where
  "write_with_inner_falliable eng run f s =
     (case res_bind (db_context (DbErr \<circ> TransactionErr) (eng_begin_write eng)) (\<lambda>_. f (wtx_new (db_inner (fst s)))) of
        Err e \<Rightarrow> (Err e, s)
      | Panic m \<Rightarrow> (Panic m, s)
      | Ok (a, tx) \<Rightarrow>
          (case ctx_commit eng run tx s of (r, s') \<Rightarrow>
             (res_bind (map_err (DbErr \<circ> CommitErr) r) (\<lambda>_. Ok a), s')))"

definition write_with_inner ::
  "engine \<Rightarrow> ('h \<Rightarrow> 'c \<Rightarrow> 'c \<times> string option) \<Rightarrow> ('d, 'h, db_error, 'a) tx_body \<Rightarrow> ('d, 'c) layer \<Rightarrow>
     (db_error, 'a) res \<times> ('d, 'c) layer" where
  "write_with_inner eng run f s =
     (case res_bind (db_context TransactionErr (eng_begin_write eng)) (\<lambda>_. f (wtx_new (db_inner (fst s)))) of
        Err e \<Rightarrow> (Err e, s)
      | Panic m \<Rightarrow> (Panic m, s)
      | Ok (a, tx) \<Rightarrow>
          (case ctx_commit eng run tx s of (r, s') \<Rightarrow>
             (res_bind (map_err CommitErr r) (\<lambda>_. Ok a), s')))"

definition read_with_inner_falliable ::
  "engine \<Rightarrow> ('d \<Rightarrow> ('e db_tx_error, 'a) res) \<Rightarrow> ('d, 'c) layer \<Rightarrow> ('e db_tx_error, 'a) res" where
  "read_with_inner_falliable eng f s =
     res_bind (db_context (DbErr \<circ> TransactionErr) (eng_begin_read eng)) (\<lambda>_. f (db_inner (fst s)))"

definition read_with_inner ::
  "engine \<Rightarrow> ('d \<Rightarrow> (db_error, 'a) res) \<Rightarrow> ('d, 'c) layer \<Rightarrow> (db_error, 'a) res" where
  "read_with_inner eng f s =
     res_bind (db_context TransactionErr (eng_begin_read eng)) (\<lambda>_. f (db_inner (fst s)))"

text \<open>The error of a transaction that its caller sees: a database error is a panic.\<close>

definition unwrap_tx_error :: "('e db_tx_error, 'a) res \<Rightarrow> ('e, 'a) res" where
  "unwrap_tx_error r = (case r of
      Ok a \<Rightarrow> Ok a
    | Err (DbErr source) \<Rightarrow> Panic ''Database error''
    | Err (TxErr source) \<Rightarrow> Err source
    | Panic m \<Rightarrow> Panic m)"

text \<open>\<open>Result::expect\<close>\<close>

definition expect_res :: "string \<Rightarrow> ('e, 'a) res \<Rightarrow> ('g, 'a) res" where
  "expect_res msg r = (case r of Ok a \<Rightarrow> Ok a | Err e \<Rightarrow> Panic msg | Panic m \<Rightarrow> Panic m)"

definition write_with ::
  "engine \<Rightarrow> ('h \<Rightarrow> 'c \<Rightarrow> 'c \<times> string option) \<Rightarrow> ('d, 'h, db_error, 'a) tx_body \<Rightarrow> ('d, 'c) layer \<Rightarrow>
     (db_error, 'a) res \<times> ('d, 'c) layer" where
  "write_with eng run f s = write_with_inner eng run f s"

definition layer_write_falliable ::
  "engine \<Rightarrow> ('h \<Rightarrow> 'c \<Rightarrow> 'c \<times> string option) \<Rightarrow> ('d, 'h, 'e db_tx_error, 'a) tx_body \<Rightarrow> ('d, 'c) layer \<Rightarrow>
     ('e, 'a) res \<times> ('d, 'c) layer" where
  "layer_write_falliable eng run f s =
     (case write_with_inner_falliable eng run f s of (r, s') \<Rightarrow> (unwrap_tx_error r, s'))"

definition write_with_expect ::
  "engine \<Rightarrow> ('h \<Rightarrow> 'c \<Rightarrow> 'c \<times> string option) \<Rightarrow> ('d, 'h, db_error, 'a) tx_body \<Rightarrow> ('d, 'c) layer \<Rightarrow>
     ('e, 'a) res \<times> ('d, 'c) layer" where
  "write_with_expect eng run f s =
     (case write_with_inner eng run f s of (r, s') \<Rightarrow> (expect_res ''Fatal database error'' r, s'))"

definition read_with :: "engine \<Rightarrow> ('d \<Rightarrow> (db_error, 'a) res) \<Rightarrow> ('d, 'c) layer \<Rightarrow> (db_error, 'a) res" where
  "read_with eng f s = read_with_inner eng f s"

definition layer_read_falliable ::
  "engine \<Rightarrow> ('d \<Rightarrow> ('e db_tx_error, 'a) res) \<Rightarrow> ('d, 'c) layer \<Rightarrow> ('e, 'a) res" where
  "layer_read_falliable eng f s = unwrap_tx_error (read_with_inner_falliable eng f s)"

definition layer_read_expect ::
  "engine \<Rightarrow> ('d \<Rightarrow> (db_error, 'a) res) \<Rightarrow> ('d, 'c) layer \<Rightarrow> ('e, 'a) res" where
  "layer_read_expect eng f s = expect_res ''Fatal database error'' (read_with_inner eng f s)"

subsection \<open>Outcomes of a write\<close>

lemma db_context_simps [simp]: "db_context k None = Ok ()" "db_context k (Some x) = Err (k x)"
  "db_context k a \<noteq> Panic m"
  by (simp_all add: db_context_def split: option.split)

lemma db_context_Ok_iff [res_simps]: "db_context k a = Ok u \<longleftrightarrow> a = None"
  by (cases a) simp_all

lemma unwrap_tx_error_simps [simp]:
  "unwrap_tx_error (Ok a) = Ok a" "unwrap_tx_error (Err (DbErr d)) = Panic ''Database error''"
  "unwrap_tx_error (Err (TxErr e)) = Err e" "unwrap_tx_error (Panic m) = Panic m"
  by (simp_all add: unwrap_tx_error_def)

lemma unwrap_map_TxErr [simp]: "unwrap_tx_error (map_err TxErr r) = r"
  by (cases r) simp_all

text \<open>A transaction begins, or the storage engine fails and nothing has happened.\<close>

definition committed :: "engine \<Rightarrow> ('d, 'h, 'e, 'a) tx_body \<Rightarrow> 'd database \<Rightarrow> 'a \<Rightarrow> ('d, 'h) wtx \<Rightarrow> bool" where
  "committed eng f db a tx \<longleftrightarrow> eng_begin_write eng = None \<and> f (wtx_new (db_inner db)) = Ok (a, tx) \<and>
     \<not> db_lock_poisoned db \<and> eng_commit eng = None"

lemma layer_write_cases:
  obtains (unchanged) r where "layer_write_falliable eng run f s = (r, s)" "\<forall>a. r \<noteq> Ok a"
  | (success) a tx c where "committed eng f (fst s) a tx" "run_hooks run (on_commit_hooks tx) (snd s) = (c, None)"
      "layer_write_falliable eng run f s = (Ok a, (fst s)\<lparr>db_inner := dbtx tx\<rparr>, c)"
  | (hook_panic) a tx c m where "committed eng f (fst s) a tx"
      "run_hooks run (on_commit_hooks tx) (snd s) = (c, Some m)"
      "layer_write_falliable eng run f s = (Panic m, (fst s)\<lparr>db_inner := dbtx tx, db_lock_poisoned := True\<rparr>, c)"
proof -
  note defs = layer_write_falliable_def write_with_inner_falliable_def ctx_commit_def
  consider (early) r where "layer_write_falliable eng run f s = (r, s)" "\<forall>a. r \<noteq> Ok a"
    | (body) a tx where "eng_begin_write eng = None" "f (wtx_new (db_inner (fst s))) = Ok (a, tx)"
  proof (cases "eng_begin_write eng")
    case (Some e)
    then show ?thesis by (intro early) (auto simp: defs)
  next
    case None
    show ?thesis
    proof (cases "f (wtx_new (db_inner (fst s)))")
      case (Ok p)
      with None show ?thesis by (cases p) (auto intro: body)
    next
      case (Err e)
      with None show ?thesis by (cases e) (auto simp: defs intro!: early)
    next
      case (Panic m)
      with None show ?thesis by (auto simp: defs intro!: early)
    qed
  qed
  then show ?thesis
  proof cases
    case (early r)
    then show ?thesis by (rule unchanged)
  next
    case (body a tx)
    show ?thesis
    proof (cases "db_lock_poisoned (fst s) \<or> eng_commit eng \<noteq> None")
      case True
      with body show ?thesis by (cases "db_lock_poisoned (fst s)") (auto simp: defs intro!: unchanged)
    next
      case False
      then have c: "committed eng f (fst s) a tx" using body by (simp add: committed_def)
      obtain ch o' where h: "run_hooks run (on_commit_hooks tx) (snd s) = (ch, o')" by fastforce
      show ?thesis
      proof (cases o')
        case None
        with h False body show ?thesis by (intro success [OF c]) (auto simp: defs)
      next
        case (Some m)
        with h False body show ?thesis by (intro hook_panic [OF c]) (auto simp: defs)
      qed
    qed
  qed
qed

subsection \<open>Histories\<close>

text \<open>A history of transactions, each with the answers of the engine.\<close>

definition layer_history ::
  "('h \<Rightarrow> 'c \<Rightarrow> 'c \<times> string option) \<Rightarrow> (engine \<times> ('d, 'h, 'e db_tx_error, 'a) tx_body) list \<Rightarrow>
     ('d, 'c) layer \<Rightarrow> ('d, 'c) layer" where
  "layer_history run = fold (\<lambda>(eng, f) s. snd (layer_write_falliable eng run f s))"

definition db_history :: "('h \<Rightarrow> 'c \<Rightarrow> 'c) \<Rightarrow> ('d, 'h, 'e, 'a) tx_body list \<Rightarrow> 'd \<times> 'c \<Rightarrow> 'd \<times> 'c" where
  "db_history g = fold (\<lambda>f s. snd (write_with_expect_falliable g f s))"

lemma run_hooks_total:
  "\<forall>h c. run h c = (g h c, None) \<Longrightarrow> run_hooks run hs c = (fold g hs c, None)"
  by (induction hs arbitrary: c) simp_all

text \<open>The engine begins and commits a transaction; the body as a caller sees it.\<close>

definition engine_commits :: "engine \<Rightarrow> bool" where
  "engine_commits eng \<longleftrightarrow> eng_begin_write eng = None \<and> eng_commit eng = None"

definition seen_body :: "('d, 'h, 'e db_tx_error, 'a) tx_body \<Rightarrow> ('d, 'h, 'e, 'a) tx_body" where
  "seen_body f tx = unwrap_tx_error (f tx)"

text \<open>One transaction of the layer is one of \<open>Db\<close>, or it fails as a whole.\<close>

lemma layer_write_step:
  assumes "\<forall>h c. run h c = (g h c, None)" "\<not> db_lock_poisoned (fst s)" "engine_commits eng"
    "write_with_expect_falliable g (seen_body f) (db_inner (fst s), snd s) = (r, d, c)"
  shows "layer_write_falliable eng run f s = (r, (fst s)\<lparr>db_inner := d\<rparr>, c)"
  using assms(2-4) run_hooks_total [OF assms(1)]
  by (auto simp: layer_write_falliable_def write_with_inner_falliable_def ctx_commit_def seen_body_def engine_commits_def
    write_with_expect_falliable_def commit_def unwrap_tx_error_def split: res.splits db_tx_error.splits)

lemma layer_write_refused:
  assumes "\<not> engine_commits eng" "\<forall>h c. run h c = (g h c, None)"
  shows "snd (layer_write_falliable eng run f s) = s"
  by (rule layer_write_cases [of eng run f s]) (use assms in \<open>auto simp: committed_def engine_commits_def\<close>)

text \<open>C29. Whatever fails in a history of transactions (the engine cannot begin or commit one, a body
  returns an error of its own or of the database or panics), the database and the channels end exactly as
  the transactions of \<open>Db\<close>, on which all components rest, leave them when they run one after the other
  without those that the engine refused: the layer implements them, and a transaction that fails has no
  part of its effect. The hypotheses are that no hook panics and that none has.\<close>

theorem write_layer_refines:
  assumes hooks: "\<forall>h c. run h c = (g h c, None)" and lock: "\<not> db_lock_poisoned (fst s)"
  shows "\<exists>d c. db_history g (map (seen_body \<circ> snd) (filter (engine_commits \<circ> fst) ops)) (db_inner (fst s), snd s) = (d, c) \<and>
    layer_history run ops s = ((fst s)\<lparr>db_inner := d\<rparr>, c)"
using lock proof (induction ops arbitrary: s)
  case Nil
  show ?case by (simp add: layer_history_def db_history_def)
next
  case (Cons p ops)
  obtain eng f where p: "p = (eng, f)" by fastforce
  have h: "layer_history run (p # ops) s = layer_history run ops (snd (layer_write_falliable eng run f s))"
    by (simp add: layer_history_def p)
  show ?case
  proof (cases "engine_commits eng")
    case True
    obtain r d c where w: "write_with_expect_falliable g (seen_body f) (db_inner (fst s), snd s) = (r, d, c)"
      by (cases "write_with_expect_falliable g (seen_body f) (db_inner (fst s), snd s)") auto
    with layer_write_step [OF hooks Cons.prems True w] Cons.IH [of "((fst s)\<lparr>db_inner := d\<rparr>, c)"] Cons.prems h True
    show ?thesis by (auto simp: p db_history_def)
  next
    case False
    with Cons.IH [OF Cons.prems] h show ?thesis by (simp add: p layer_write_refused [OF False hooks])
  qed
qed

text \<open>While the lock is poisoned nothing is written.\<close>

lemma poisoned_write:
  assumes "db_lock_poisoned (fst s)"
  shows "snd (layer_write_falliable eng run f s) = s" "fst (layer_write_falliable eng run f s) \<noteq> Ok a"
  using assms by (rule_tac [!] layer_write_cases [of eng run f s]) (auto simp: committed_def)

lemma poisoned_history: "db_lock_poisoned (fst s) \<Longrightarrow> layer_history run ops s = s"
  by (induction ops) (auto simp: layer_history_def poisoned_write(1))

definition engine_ok :: engine where
  "engine_ok = \<lparr>eng_begin_read = None, eng_begin_write = None, eng_commit = None\<rparr>"

definition write_number :: "nat \<Rightarrow> (nat, nat, unit db_tx_error, unit) tx_body" where
  "write_number n tx = Ok ((), on_commit n (tx\<lparr>dbtx := n\<rparr>))"

theorem write_layer_refines_witness:
  "\<exists>d c. db_history (\<lambda>h c. c @ [h]) [seen_body (write_number 1), seen_body (write_number 3)] (0, []) = (d, c) \<and>
     layer_history (\<lambda>h c. (c @ [h], None))
       [(engine_ok, write_number 1), (engine_ok\<lparr>eng_commit := Some ''full''\<rparr>, write_number 2), (engine_ok, write_number 3)]
       (open_inner 0 True, []) = ((open_inner 0 True)\<lparr>db_inner := d\<rparr>, c)"
  using write_layer_refines [of "\<lambda>h c. (c @ [h], None)" "\<lambda>h c. c @ [h]" "(open_inner (0 :: nat) True, [] :: nat list)"
    "[(engine_ok, write_number 1), (engine_ok\<lparr>eng_commit := Some ''full''\<rparr>, write_number 2), (engine_ok, write_number 3)]"]
  by (simp add: open_inner_def engine_commits_def engine_ok_def)

subsection \<open>A hook that panics\<close>

text \<open>A hook that panics after the commit leaves the transaction committed, although its caller
  sees a panic, and poisons the lock over commits and hooks: from then on no write transaction of the
  process succeeds and none changes anything. In a release build the process is gone.\<close>

lemma hook_panic_stops_writes:
  fixes f :: "('d, 'h, 'e db_tx_error, 'a) tx_body"
  assumes "layer_write_falliable eng run f s = (Panic m, s')" "s' \<noteq> s"
  shows "(\<exists>a tx. f (wtx_new (db_inner (fst s))) = Ok (a, tx) \<and> db_inner (fst s') = dbtx tx) \<and>
    layer_history run ops s' = s' \<and> (\<forall>eng (f :: ('d, 'h, 'e db_tx_error, 'a) tx_body) b. fst (layer_write_falliable eng run f s') \<noteq> Ok b)"
proof -
  have "(\<exists>a tx. committed eng f (fst s) a tx \<and> db_inner (fst s') = dbtx tx) \<and> db_lock_poisoned (fst s')"
    using assms by (rule_tac layer_write_cases [of eng run f s]) (auto intro!: exI)
  then have p: "db_lock_poisoned (fst s')" and c: "\<exists>a tx. committed eng f (fst s) a tx \<and> db_inner (fst s') = dbtx tx"
    by blast+
  from c have "\<exists>a tx. f (wtx_new (db_inner (fst s))) = Ok (a, tx) \<and> db_inner (fst s') = dbtx tx"
    unfolding committed_def by blast
  moreover have "layer_history run ops s' = s'" by (rule poisoned_history [OF p])
  moreover have "fst (layer_write_falliable eng run f s') \<noteq> Ok b"
    for eng b and f :: "('d, 'h, 'e db_tx_error, 'a) tx_body" by (rule poisoned_write(2) [OF p])
  ultimately show ?thesis by blast
qed

end
