(* ===== verification/Module_Db.thy ===== *)
theory Module_Db
  imports Db_Layer Node_App
begin

section \<open>Named tables and the databases of the modules\<close>

text \<open>
  \<open>module/src/module/db.rs\<close>: \<open>ModuleDatabase\<close>, \<open>ModuleWriteTransactionCtx\<close> and
  \<open>ModuleReadTransaction\<close> wrap a database and its transactions, and every table that a module opens
  through them is the table of that name behind the prefix of the module.

  The database is seen here at the level of its tables by name. Opening a table is an operation of
  the third-party engine: a write transaction creates a table that does not exist, a read
  transaction reports an error for it. Every table holds a value of one type \<open>'v\<close>, \<open>fresh\<close> when it
  is new. The other theories have one record field per table; that this is right for the tables of
  modules is what \<open>modules_isolated\<close> shows.
\<close>

type_synonym 'v named_db = "string \<rightharpoonup> 'v"

text \<open>\<open>redb::WriteTransaction::open_table\<close>, \<open>redb::ReadTransaction::open_table\<close> and an update through
  an open table. The engine also refuses to open a table of a write transaction while an earlier handle of it is alive. This error is
  not among the answers here: handles have no lifetime in the closures below. Where the program runs into it,
  in the meta module, the model has the refusal as the parameter \<open>excl\<close> (theory \<open>Meta_Module\<close>).\<close>

definition raw_open_write :: "'v \<Rightarrow> string \<Rightarrow> ('v named_db, 'h) wtx \<Rightarrow> 'v \<times> ('v named_db, 'h) wtx" where
  "raw_open_write fresh name tx = (case dbtx tx name of
      Some t \<Rightarrow> (t, tx)
    | None \<Rightarrow> (fresh, tx\<lparr>dbtx := (dbtx tx)(name \<mapsto> fresh)\<rparr>))"

definition raw_open_read :: "string \<Rightarrow> 'v named_db \<Rightarrow> (db_error, 'v) res" where
  "raw_open_read name d = (case d name of Some t \<Rightarrow> Ok t | None \<Rightarrow> Err (TableErr ''does not exist''))"

definition raw_update :: "string \<Rightarrow> 'v \<Rightarrow> ('v named_db, 'h) wtx \<Rightarrow> ('v named_db, 'h) wtx" where
  "raw_update name t tx = tx\<lparr>dbtx := (dbtx tx)(name \<mapsto> t)\<rparr>"

subsection \<open>The transactions of a module\<close>

record ('v, 'h) module_write_ctx =
  mw_module_id :: module_id
  mw_inner :: "('v named_db, 'h) wtx"

record 'v module_read_ctx =
  mr_module_id :: module_id
  mr_inner :: "'v named_db"

definition module_write_ctx_new :: "module_id \<Rightarrow> ('v named_db, 'h) wtx \<Rightarrow> ('v, 'h) module_write_ctx" where
  "module_write_ctx_new i tx = \<lparr>mw_module_id = i, mw_inner = tx\<rparr>"

definition module_write_open_table :: "'v \<Rightarrow> string \<Rightarrow> ('v, 'h) module_write_ctx \<Rightarrow> 'v \<times> ('v, 'h) module_write_ctx" where
  "module_write_open_table fresh name c =
     (case raw_open_write fresh (module_table_name (mw_module_id c) name) (mw_inner c) of
        (t, tx) \<Rightarrow> (t, c\<lparr>mw_inner := tx\<rparr>))"

definition module_on_commit :: "'h \<Rightarrow> ('v, 'h) module_write_ctx \<Rightarrow> ('v, 'h) module_write_ctx" where
  "module_on_commit h c = c\<lparr>mw_inner := on_commit h (mw_inner c)\<rparr>"

definition module_read_ctx_new :: "module_id \<Rightarrow> 'v named_db \<Rightarrow> 'v module_read_ctx" where
  "module_read_ctx_new i d = \<lparr>mr_module_id = i, mr_inner = d\<rparr>"

definition module_read_open_table :: "string \<Rightarrow> 'v module_read_ctx \<Rightarrow> (db_error, 'v) res" where
  "module_read_open_table name c = raw_open_read (module_table_name (mr_module_id c) name) (mr_inner c)"

text \<open>An update through a table that \<open>open_table\<close> has returned.\<close>

definition module_update_table :: "string \<Rightarrow> 'v \<Rightarrow> ('v, 'h) module_write_ctx \<Rightarrow> ('v, 'h) module_write_ctx" where
  "module_update_table name t c = c\<lparr>mw_inner := raw_update (module_table_name (mw_module_id c) name) t (mw_inner c)\<rparr>"

subsection \<open>Closures\<close>

text \<open>
  What the closure of a write transaction can do with its context: open tables, update them,
  register hooks and return. The closure of a read transaction can open tables only.
\<close>

datatype ('v, 'h, 'e, 'a) write_closure =
    ReturnW "('e, 'a) res"
  | OpenW string "'v \<Rightarrow> ('v, 'h, 'e, 'a) write_closure"
  | UpdateW string 'v "('v, 'h, 'e, 'a) write_closure"
  | HookW 'h "('v, 'h, 'e, 'a) write_closure"

primrec run_write ::
  "('v, 'h, 'e, 'a) write_closure \<Rightarrow> 'v \<Rightarrow> ('v, 'h) module_write_ctx \<Rightarrow> ('e, 'a) res \<times> ('v, 'h) module_write_ctx" where
  "run_write (ReturnW r) fresh c = (r, c)"
| "run_write (OpenW name k) fresh c =
     (let p = module_write_open_table fresh name c in run_write (k (fst p)) fresh (snd p))"
| "run_write (UpdateW name t k) fresh c = run_write k fresh (module_update_table name t c)"
| "run_write (HookW h k) fresh c = run_write k fresh (module_on_commit h c)"

datatype ('v, 'e, 'a) read_closure =
    ReturnR "('e, 'a) res"
  | OpenR string "(db_error, 'v) res \<Rightarrow> ('v, 'e, 'a) read_closure"

primrec run_read :: "('v, 'e, 'a) read_closure \<Rightarrow> 'v module_read_ctx \<Rightarrow> ('e, 'a) res" where
  "run_read (ReturnR r) c = r"
| "run_read (OpenR name k) c = run_read (k (module_read_open_table name c)) c"

subsection \<open>The database of a module\<close>

record 'v module_database =
  mdb_module_id :: module_id
  mdb_fresh :: 'v

definition module_database_new :: "module_id \<Rightarrow> 'v \<Rightarrow> 'v module_database" where
  "module_database_new i fresh = \<lparr>mdb_module_id = i, mdb_fresh = fresh\<rparr>"

text \<open>The closure around the closure of a module: the context is that of the module.\<close>

definition within_module :: "'v module_database \<Rightarrow> ('v, 'h, 'e, 'a) write_closure \<Rightarrow> ('v named_db, 'h, 'e, 'a) tx_body" where
  "within_module m f tx =
     (case run_write f (mdb_fresh m) (module_write_ctx_new (mdb_module_id m) tx) of
        (r, c) \<Rightarrow> res_bind r (\<lambda>a. Ok (a, mw_inner c)))"

definition module_write_with ::
  "'v module_database \<Rightarrow> engine \<Rightarrow> ('h \<Rightarrow> 'c \<Rightarrow> 'c \<times> string option) \<Rightarrow> ('v, 'h, db_error, 'a) write_closure \<Rightarrow>
     ('v named_db, 'c) layer \<Rightarrow> (db_error, 'a) res \<times> ('v named_db, 'c) layer" where
  "module_write_with m eng run f s = write_with eng run (within_module m f) s"

definition module_write_with_expect_falliable ::
  "'v module_database \<Rightarrow> engine \<Rightarrow> ('h \<Rightarrow> 'c \<Rightarrow> 'c \<times> string option) \<Rightarrow> ('v, 'h, 'e db_tx_error, 'a) write_closure \<Rightarrow>
     ('v named_db, 'c) layer \<Rightarrow> ('e, 'a) res \<times> ('v named_db, 'c) layer" where
  "module_write_with_expect_falliable m eng run f s = layer_write_falliable eng run (within_module m f) s"

definition module_write_with_expect ::
  "'v module_database \<Rightarrow> engine \<Rightarrow> ('h \<Rightarrow> 'c \<Rightarrow> 'c \<times> string option) \<Rightarrow> ('v, 'h, db_error, 'a) write_closure \<Rightarrow>
     ('v named_db, 'c) layer \<Rightarrow> ('e, 'a) res \<times> ('v named_db, 'c) layer" where
  "module_write_with_expect m eng run f s = write_with_expect eng run (within_module m f) s"

definition module_read_with ::
  "'v module_database \<Rightarrow> engine \<Rightarrow> ('v, db_error, 'a) read_closure \<Rightarrow> ('v named_db, 'c) layer \<Rightarrow> (db_error, 'a) res" where
  "module_read_with m eng f s = read_with eng (\<lambda>d. run_read f (module_read_ctx_new (mdb_module_id m) d)) s"

definition module_read_with_expect_falliable ::
  "'v module_database \<Rightarrow> engine \<Rightarrow> ('v, 'e db_tx_error, 'a) read_closure \<Rightarrow> ('v named_db, 'c) layer \<Rightarrow> ('e, 'a) res" where
  "module_read_with_expect_falliable m eng f s =
     layer_read_falliable eng (\<lambda>d. run_read f (module_read_ctx_new (mdb_module_id m) d)) s"

definition module_read_with_expect ::
  "'v module_database \<Rightarrow> engine \<Rightarrow> ('v, db_error, 'a) read_closure \<Rightarrow> ('v named_db, 'c) layer \<Rightarrow> ('e, 'a) res" where
  "module_read_with_expect m eng f s =
     layer_read_expect eng (\<lambda>d. run_read f (module_read_ctx_new (mdb_module_id m) d)) s"

subsection \<open>The tables of a module\<close>

text \<open>The name of a table within its module, the tables of a module, and a database with these
  tables of one module.\<close>

definition module_local_name :: "module_id \<Rightarrow> string \<Rightarrow> string option" where
  "module_local_name i n =
     (let prefix = module_table_name i [] in
      if take (length prefix) n = prefix then Some (drop (length prefix) n) else None)"

definition module_view :: "module_id \<Rightarrow> 'v named_db \<Rightarrow> 'v named_db" where
  "module_view i d = (\<lambda>name. d (module_table_name i name))"

definition module_put :: "module_id \<Rightarrow> 'v named_db \<Rightarrow> 'v named_db \<Rightarrow> 'v named_db" where
  "module_put i m d = (\<lambda>n. case module_local_name i n of Some name \<Rightarrow> m name | None \<Rightarrow> d n)"

lemma module_table_name_prefix: "module_table_name i name = module_table_name i [] @ name"
  by (simp add: module_table_name_def)

lemma module_local_name_Some: "module_local_name i n = Some name \<longleftrightarrow> n = module_table_name i name"
  unfolding module_local_name_def Let_def module_table_name_prefix [of i name]
  by (auto simp: take_all_iff) (metis append_take_drop_id)

lemma module_local_name_other: "module_local_name i n = None \<longleftrightarrow> (\<forall>name. n \<noteq> module_table_name i name)"
  using module_local_name_Some by (metis not_Some_eq)

lemma module_local_name_simps [simp]:
  "module_local_name i (module_table_name i name) = Some name"
  "i \<noteq> j \<Longrightarrow> module_local_name i (module_table_name j name) = None"
  by (simp_all add: module_local_name_Some module_local_name_other module_table_name_inj)

lemma module_put_simps [simp]:
  "module_put i (module_view i d) d = d"
  "module_view i (module_put i m d) = m"
  "i \<noteq> j \<Longrightarrow> module_view j (module_put i m d) = module_view j d"
  "module_put i m d (module_table_name i name) = m name"
  "(module_put i m d)(module_table_name i name \<mapsto> t) = module_put i (m(name \<mapsto> t)) d"
  by (auto simp: module_put_def module_view_def fun_eq_iff module_local_name_Some module_local_name_other
      split: option.split)

subsection \<open>Closures on tables of their own\<close>

primrec run_private ::
  "('v, 'h, 'e, 'a) write_closure \<Rightarrow> 'v \<Rightarrow> ('v named_db, 'h) wtx \<Rightarrow> ('e, 'a) res \<times> ('v named_db, 'h) wtx" where
  "run_private (ReturnW r) fresh tx = (r, tx)"
| "run_private (OpenW name k) fresh tx =
     (let p = raw_open_write fresh name tx in run_private (k (fst p)) fresh (snd p))"
| "run_private (UpdateW name t k) fresh tx = run_private k fresh (raw_update name t tx)"
| "run_private (HookW h k) fresh tx = run_private k fresh (on_commit h tx)"

definition private_body :: "'v \<Rightarrow> ('v, 'h, 'e, 'a) write_closure \<Rightarrow> ('v named_db, 'h, 'e, 'a) tx_body" where
  "private_body fresh f tx = (case run_private f fresh tx of (r, tx') \<Rightarrow> res_bind r (\<lambda>a. Ok (a, tx')))"

text \<open>The transaction \<open>tx\<close> with the tables and the further hooks of one module.\<close>

definition embed :: "module_id \<Rightarrow> ('v named_db, 'h) wtx \<Rightarrow> ('v named_db, 'h) wtx \<Rightarrow> ('v, 'h) module_write_ctx" where
  "embed i tx p = module_write_ctx_new i
     \<lparr>dbtx = module_put i (dbtx p) (dbtx tx), on_commit_hooks = on_commit_hooks tx @ on_commit_hooks p\<rparr>"

lemma embed_steps:
  "module_write_open_table fresh name (embed i tx p) =
     (fst (raw_open_write fresh name p), embed i tx (snd (raw_open_write fresh name p)))"
  "module_update_table name t (embed i tx p) = embed i tx (raw_update name t p)"
  "module_on_commit h (embed i tx p) = embed i tx (on_commit h p)"
  by (simp_all add: embed_def module_write_open_table_def module_update_table_def module_on_commit_def
    raw_open_write_def raw_update_def on_commit_def module_write_ctx_new_def split: option.split)

lemma run_write_embed:
  "run_write f fresh (embed i tx p) =
     (fst (run_private f fresh p), embed i tx (snd (run_private f fresh p)))"
  by (induction f arbitrary: p) (simp_all add: embed_steps Let_def)

lemma embed_new: "embed i tx (wtx_new (module_view i (dbtx tx))) = module_write_ctx_new i tx"
  by (cases tx) (simp add: embed_def wtx_new_def)

lemma within_module_private:
  "within_module m f = module_tx (module_view (mdb_module_id m)) (module_put (mdb_module_id m)) (\<lambda>h. h)
     (private_body (mdb_fresh m) f)"
proof
  fix tx
  show "within_module m f tx = module_tx (module_view (mdb_module_id m)) (module_put (mdb_module_id m)) (\<lambda>h. h)
     (private_body (mdb_fresh m) f) tx"
    unfolding within_module_def module_tx_def private_body_def embed_new [symmetric] run_write_embed
    by (cases "run_private f (mdb_fresh m) (wtx_new (module_view (mdb_module_id m) (dbtx tx)))";
        cases "fst (run_private f (mdb_fresh m) (wtx_new (module_view (mdb_module_id m) (dbtx tx))))")
      (simp_all add: embed_def module_write_ctx_new_def)
qed

text \<open>Of the database a transaction of a module leaves everything but the tables of the module.\<close>

lemma module_write_frame:
  assumes "\<forall>name. n \<noteq> module_table_name (mdb_module_id m) name"
  shows "db_inner (fst (snd (module_write_with_expect_falliable m eng run f s))) n = db_inner (fst s) n"
proof -
  have none: "module_local_name (mdb_module_id m) n = None" using assms by (simp add: module_local_name_other)
  have "within_module m f (wtx_new (db_inner (fst s))) = Ok (a, tx) \<Longrightarrow> dbtx tx n = db_inner (fst s) n" for a tx
    by (auto simp: within_module_private module_tx_def res_simps module_put_def none)
  then show ?thesis
    unfolding module_write_with_expect_falliable_def
    by (rule_tac layer_write_cases [of eng run "within_module m f" s]) (auto simp: committed_def)
qed

text \<open>C30. The prefix on table names gives every module a database of its own. A write transaction of
  a module on the shared database is the transaction \<open>module_tx\<close> of the application with, in place of
  the database, the tables of that module under their plain names; it leaves every table that is not one of the module's as it
  was; and no table of a module is a table of another module, or the same table under another plain name.\<close>

theorem module_tables_private:
  "module_write_with_expect_falliable m eng run f s =
     layer_write_falliable eng run
       (module_tx (module_view (mdb_module_id m)) (module_put (mdb_module_id m)) (\<lambda>h. h) (private_body (mdb_fresh m) f)) s \<and>
   (\<forall>n. (\<forall>name. n \<noteq> module_table_name (mdb_module_id m) name) \<longrightarrow>
     db_inner (fst (snd (module_write_with_expect_falliable m eng run f s))) n = db_inner (fst s) n) \<and>
   (\<forall>j name name'. module_table_name j name' = module_table_name (mdb_module_id m) name \<longrightarrow>
     j = mdb_module_id m \<and> name' = name)"
  using module_write_frame [of _ m eng run f s]
  by (simp add: module_write_with_expect_falliable_def within_module_private module_table_name_inj)

theorem module_tables_private_witness:
  "db_inner (fst (snd (module_write_with_expect_falliable (module_database_new 1 (0 :: nat)) engine_ok (\<lambda>(h :: unit) c. (c, None))
     (UpdateW ''t'' 5 (ReturnW (Ok () :: (unit db_tx_error, unit) res)))
     (open_inner [module_table_name 11 ''t'' \<mapsto> 3] False, ())))) (module_table_name 11 ''t'') = Some 3"
proof -
  let ?m = "module_database_new 1 (0 :: nat)" and ?f = "UpdateW ''t'' 5 (ReturnW (Ok ())) :: (nat, unit, unit db_tx_error, unit) write_closure"
  let ?s = "(open_inner [module_table_name 11 ''t'' \<mapsto> (3::nat)] False, ())"
  note p = module_tables_private [of ?m engine_ok "\<lambda>(h :: unit) c. (c, None)" ?f ?s]
  have "\<forall>name. module_table_name 11 ''t'' \<noteq> module_table_name (mdb_module_id ?m) name"
    using p [THEN conjunct2, THEN conjunct2] by (force simp: module_database_new_def)
  with p have "db_inner (fst (snd (module_write_with_expect_falliable ?m engine_ok (\<lambda>(h :: unit) c. (c, None)) ?f ?s))) (module_table_name 11 ''t'') =
      db_inner (fst ?s) (module_table_name 11 ''t'')" by blast
  then show ?thesis by (simp add: open_inner_def)
qed

subsection \<open>Isolation\<close>

lemma run_read_view:
  "module_view i d = module_view i e \<Longrightarrow> run_read f (module_read_ctx_new i d) = run_read f (module_read_ctx_new i e)"
proof (induction f)
  case (OpenR name k)
  then have "module_read_open_table name (module_read_ctx_new i d) = module_read_open_table name (module_read_ctx_new i e)"
    by (simp add: module_view_def module_read_open_table_def module_read_ctx_new_def raw_open_read_def fun_eq_iff)
  then show ?case using OpenR by simp
qed simp

lemma module_write_view:
  assumes "mdb_module_id m \<noteq> j"
  shows "module_view j (db_inner (fst (snd (module_write_with_expect_falliable m eng run f s)))) =
    module_view j (db_inner (fst s))"
proof -
  have "within_module m f (wtx_new (db_inner (fst s))) = Ok (a, tx) \<Longrightarrow>
      module_view j (dbtx tx) = module_view j (db_inner (fst s))" for a tx
    using assms by (auto simp: within_module_private module_tx_def res_simps)
  then show ?thesis
    unfolding module_write_with_expect_falliable_def
    by (rule_tac layer_write_cases [of eng run "within_module m f" s]) (auto simp: committed_def)
qed

lemma layer_write_result:
  assumes "\<forall>h c. run h c = (g h c, None)" "db_lock_poisoned (fst s) = db_lock_poisoned (fst s')"
    "module_view (mdb_module_id m) (db_inner (fst s)) = module_view (mdb_module_id m) (db_inner (fst s'))"
  shows "fst (module_write_with_expect_falliable m eng run f s) = fst (module_write_with_expect_falliable m eng run f s')"
  unfolding module_write_with_expect_falliable_def within_module_private layer_write_falliable_def
    write_with_inner_falliable_def ctx_commit_def module_tx_def
  by (cases "eng_begin_write eng"; cases "eng_commit eng";
      cases "private_body (mdb_fresh m) f (wtx_new (module_view (mdb_module_id m) (db_inner (fst s'))))")
    (auto simp: assms(2,3) run_hooks_total [OF assms(1)])

lemma layer_write_lock:
  "\<forall>h c. run h c = (g h c, None) \<Longrightarrow>
    db_lock_poisoned (fst (snd (module_write_with_expect_falliable m eng run f s))) = db_lock_poisoned (fst s)"
  unfolding module_write_with_expect_falliable_def
  by (rule layer_write_cases [of eng run "within_module m f" s]) (auto simp: run_hooks_total [of run g])

text \<open>C20. Modules are isolated in the database: whatever a transaction of one module does and however
  it ends, every read and every write transaction of another module returns what it would have returned
  without it. The hypothesis on hooks is that none panics.\<close>

theorem modules_isolated:
  assumes "mdb_module_id m \<noteq> mdb_module_id m'" "\<forall>h c. run h c = (g h c, None)"
    "snd (module_write_with_expect_falliable m eng run f s) = s'"
  shows "module_read_with_expect_falliable m' eng' rd s' = module_read_with_expect_falliable m' eng' rd s \<and>
    fst (module_write_with_expect_falliable m' eng' run wr s') = fst (module_write_with_expect_falliable m' eng' run wr s)"
proof -
  have v: "module_view (mdb_module_id m') (db_inner (fst s')) = module_view (mdb_module_id m') (db_inner (fst s))"
    using module_write_view [OF assms(1)] assms(3) by blast
  have l: "db_lock_poisoned (fst s') = db_lock_poisoned (fst s)" using layer_write_lock [OF assms(2)] assms(3) by blast
  have "run_read rd (module_read_ctx_new (mdb_module_id m') (db_inner (fst s'))) =
      run_read rd (module_read_ctx_new (mdb_module_id m') (db_inner (fst s)))"
    by (rule run_read_view [OF v])
  then have "module_read_with_expect_falliable m' eng' rd s' = module_read_with_expect_falliable m' eng' rd s"
    by (simp add: module_read_with_expect_falliable_def layer_read_falliable_def read_with_inner_falliable_def)
  moreover have "fst (module_write_with_expect_falliable m' eng' run wr s') = fst (module_write_with_expect_falliable m' eng' run wr s)"
    by (rule layer_write_result [OF assms(2) l v])
  ultimately show ?thesis ..
qed

theorem modules_isolated_witness:
  "module_read_with_expect_falliable (module_database_new 11 (0 :: nat)) engine_ok (OpenR ''t'' (\<lambda>r. ReturnR (map_err DbErr r)))
     (snd (module_write_with_expect_falliable (module_database_new 1 0) engine_ok (\<lambda>h c. (c, None))
       (UpdateW ''1_t'' 5 (ReturnW (Ok ()))) (open_inner Map.empty False, ())))
   = (Panic ''Database error'' :: (unit, nat) res)"
proof -
  let ?s = "(open_inner (Map.empty :: nat named_db) False, ())"
  let ?rd = "OpenR ''t'' (\<lambda>r. ReturnR (map_err DbErr r)) :: (nat, unit db_tx_error, nat) read_closure"
  have "mdb_module_id (module_database_new 1 (0 :: nat)) \<noteq> mdb_module_id (module_database_new 11 (0 :: nat))"
    by (simp add: module_database_new_def)
  then have "module_read_with_expect_falliable (module_database_new 11 0) engine_ok ?rd
      (snd (module_write_with_expect_falliable (module_database_new 1 0) engine_ok (\<lambda>h c. (c, None))
        (UpdateW ''1_t'' 5 (ReturnW (Ok ()))) ?s)) =
    module_read_with_expect_falliable (module_database_new 11 0) engine_ok ?rd ?s"
    by (rule modules_isolated [THEN conjunct1, of _ _ _ "\<lambda>h c. c"]) simp_all
  then show ?thesis
    by (simp add: module_read_with_expect_falliable_def layer_read_falliable_def read_with_inner_falliable_def engine_ok_def
      module_read_open_table_def raw_open_read_def open_inner_def module_read_ctx_new_def)
qed

subsection \<open>The tables of a node\<close>

text \<open>
  \<open>Node::init_tables_tx\<close> and \<open>NodeApp::init_tables_dbtx\<close>, the tables that a start creates, and the
  address table as \<open>pick_push_gossip_pair\<close> opens it, in a read transaction. \<open>insert_own_address_update\<close>
  and the answers to a join write that table; a node without a secret whose join was told no address has
  none of it.
\<close>

definition node_init_tables_tx :: "'v \<Rightarrow> ('v named_db, 'h) wtx \<Rightarrow> (db_error, unit \<times> ('v named_db, 'h) wtx) res" where
  "node_init_tables_tx fresh tx = Ok ((), snd (raw_open_write fresh ''ui_pass_hash'' tx))"

definition app_init_tables_dbtx :: "'v \<Rightarrow> ('v named_db, 'h) wtx \<Rightarrow> (db_error, unit \<times> ('v named_db, 'h) wtx) res" where
  "app_init_tables_dbtx fresh tx = Ok ((), snd (raw_open_write fresh ''app_cur_round'' tx))"

definition open_peer_addresses :: "engine \<Rightarrow> ('v named_db, 'c) layer \<Rightarrow> ('e, 'v) res" where
  "open_peer_addresses eng = layer_read_expect eng (\<lambda>d. raw_open_read ''peer_addresses'' d)"

text \<open>A fresh database after the start of a node: opening the address table to read it is a panic.\<close>

lemma fresh_node_push_gossip_panics:
  assumes "write_with_expect engine_ok run (node_init_tables_tx fresh) (open_inner Map.empty e, c) = (Ok (), s)"
  shows "open_peer_addresses engine_ok s = Panic ''Fatal database error''"
  using assms
  by (auto simp: write_with_expect_def write_with_inner_def engine_ok_def node_init_tables_tx_def ctx_commit_def
    raw_open_write_def wtx_new_def open_inner_def expect_res_def open_peer_addresses_def layer_read_expect_def
    read_with_inner_def raw_open_read_def)

end
