(* ===== verification/Cons_Pins.thy ===== *)
theory Cons_Pins
  imports Cons_Theorems
begin

section \<open>Pinned blocks\<close>

text \<open>
  A node that joins with an invite pins a block (\<open>consensus/src/consensus/init.rs\<close>): it must be the notarized
  block of its round. \<open>check_round_end\<close> checks it when it leaves the round
  (\<open>consensus/src/consensus/finish_round.rs\<close>). What this gives, and what the rewind of
  \<open>handle_notarized_block.rs\<close> takes back.
\<close>

definition pin_ok :: "crypto \<Rightarrow> cons_db \<Rightarrow> block_round \<Rightarrow> bool" where
  "pin_ok cr d r \<longleftrightarrow> (\<forall>h. get_pinned_block d r = Some h \<longrightarrow> map_option (header_hash cr) (get_notarized_block d r) = Some h)"

text \<open>No block is lost and the pins stay.\<close>

definition grown :: "cons_db \<Rightarrow> cons_db \<Rightarrow> bool" where
  "grown d d' \<longleftrightarrow> cons_blocks_pinned d' = cons_blocks_pinned d \<and>
     (\<forall>r b. tbl_get (cons_blocks_notarized d) r = Some b \<longrightarrow> tbl_get (cons_blocks_notarized d') r = Some b)"

lemma grown_refl: "grown d d"
  by (simp add: grown_def)

lemma grown_trans: "grown d e \<Longrightarrow> grown e f \<Longrightarrow> grown d f"
  by (simp add: grown_def)

lemma pin_ok_grown: "pin_ok cr d r \<Longrightarrow> grown d d' \<Longrightarrow> pin_ok cr d' r"
  by (fastforce simp: pin_ok_def grown_def get_pinned_block_def get_notarized_block_def)

lemma round_body_grown:
  assumes "round_body cr start highest cur l d = Ok (Continue l' d')"
  shows "grown d d'" "start \<noteq> cur \<Longrightarrow> pin_ok cr d (cur - 1)"
proof -
  have ins: "insert_notarized_block r b None d = (Ok (out, e) :: (round_invariant_error, _) res) \<Longrightarrow> grown d e" for r b out e
    by (auto simp: insert_notarized_block_def res_simps Let_def grown_def retain_votes_def split: option.splits)
  show "grown d d'"
    using assms by (auto simp: round_body_def res_simps Let_def grown_refl dest: ins split: if_splits option.splits bool.splits)
qed (use assms in \<open>auto simp: round_body_def check_pin_def res_simps arr_prev_def checked_sub_def pin_ok_def
    split: if_splits option.splits\<close>)

lemma round_loop_pins:
  "round_loop cr start highest cur l d = Ok e \<Longrightarrow> start \<le> cur \<Longrightarrow>
     grown d (re_db e) \<and> (start \<noteq> cur \<longrightarrow> pin_ok cr (re_db e) (cur - 1)) \<and>
     (\<forall>r. cur \<le> r \<longrightarrow> r < re_round e \<longrightarrow> pin_ok cr (re_db e) r)"
proof (induction cr start highest cur l d rule: round_loop.induct)
  case (1 cr start highest cur l d)
  show ?case
  proof (cases "round_body cr start highest cur l d")
    case (Ok it)
    show ?thesis
    proof (cases it)
      case (Continue l' d')
      with Ok "1.prems" obtain nx where nx: "arr_next_expect cur = (Ok nx :: (round_invariant_error, _) res)"
        and t: "round_loop cr start highest nx l' d' = Ok e"
        by (auto simp: round_loop.simps [of _ _ _ cur] split: res.splits)
      have n: "cur < nx" "nx - 1 = cur" "\<And>r. cur < r \<longleftrightarrow> nx \<le> r"
        using nx less_plus_one [of cur] inc_le [of cur] by (auto simp: res_simps)
      note g = round_body_grown [OF Ok [unfolded Continue]]
      have le: "start \<le> nx" "start \<noteq> nx" using "1.prems"(2) n(1) by (blast intro: order.strict_implies_order order.trans, force)
      note i = "1.IH" [OF Ok Continue nx t le(1)]
      have ih: "grown d' (re_db e)" "pin_ok cr (re_db e) cur" "\<And>r. nx \<le> r \<Longrightarrow> r < re_round e \<Longrightarrow> pin_ok cr (re_db e) r"
        using i le(2) unfolding n(2) by blast+
      moreover have "pin_ok cr (re_db e) r" if "cur \<le> r" "r < re_round e" for r
        using that ih(2,3) n(3) [of r] order.not_eq_order_implies_strict [of cur r] by (cases "r = cur") blast+
      ultimately show ?thesis using g grown_trans pin_ok_grown by blast
    next
      case (Break t)
      then have e: "re_db e = d" "re_round e = cur" using Ok "1.prems" by (auto simp: round_loop.simps [of _ _ _ cur])
      have "pin_ok cr d (cur - 1)" if "start \<noteq> cur"
        using Ok that by (auto simp: round_body_def check_pin_def res_simps arr_prev_def checked_sub_def pin_ok_def
            split: if_splits option.splits)
      then show ?thesis using e by (auto simp: grown_refl dest: leD)
    qed
  qed (use "1.prems" in \<open>simp_all add: round_loop.simps [of _ _ _ cur]\<close>)
qed

lemma check_round_end_pins:
  assumes "check_round_end cr our start tx = Ok tx'" "start \<le> r" "r < get_current_round (dbtx tx')"
    "start = get_current_round (dbtx tx)"
  shows "pin_ok cr (dbtx tx') r"
proof -
  let ?h = "get_prev_notarized_block (dbtx tx) (- 1)"
  obtain e tx2 where e: "round_loop cr start ?h start None (dbtx tx) = Ok e"
    and t: "record_self_vote our (re_round e) (re_last_notarized e)
      (upd (\<lambda>_. if start \<noteq> re_round e then set_current_round (re_round e) (re_db e) else re_db e) tx) =
        (Ok tx2 :: (round_invariant_error, _) res)"
    and tx': "dbtx tx' = dbtx tx2"
    using assms(1) by (auto simp: check_round_end_def Let_def res_simps)
  have f: "finality_step (if start \<noteq> re_round e then set_current_round (re_round e) (re_db e) else re_db e) (dbtx tx')"
    using record_self_vote_step [OF t] tx' by simp
  have "grown (re_db e) (dbtx tx')" using f by (auto simp: finality_step_def grown_def set_current_round_def split: if_splits)
  moreover have "get_current_round (dbtx tx') = re_round e"
    using finality_step_round [OF f] round_loop_mono [OF e] assms(4)
    by (auto simp: set_current_round_def get_current_round_def keep_def split: if_splits)
  moreover have "pin_ok cr (re_db e) r" using round_loop_pins [OF e] assms(2,3) calculation(2) by simp
  ultimately show ?thesis using pin_ok_grown by blast
qed

text \<open>A handler leaves the current round in \<open>check_round_end\<close> only.\<close>

definition ends_by_check ::
  "crypto \<Rightarrow> peer_pubkey option \<Rightarrow> cons_tx \<Rightarrow> cons_tx \<Rightarrow> bool" where
  "ends_by_check cr our tx tx' \<longleftrightarrow> get_current_round (dbtx tx') = get_current_round (dbtx tx) \<or>
     (\<exists>tx1. get_current_round (dbtx tx1) = get_current_round (dbtx tx) \<and>
       check_round_end cr our (get_current_round (dbtx tx)) tx1 = Ok tx')"

lemma ends_same: "get_current_round (dbtx tx') = get_current_round (dbtx tx) \<Longrightarrow> ends_by_check cr our tx tx'"
  by (simp add: ends_by_check_def)

lemma ends_check:
  "check_round_end cr our cur tx1 = Ok tx' \<Longrightarrow> cur = get_current_round (dbtx tx) \<Longrightarrow>
     get_current_round (dbtx tx1) = cur \<Longrightarrow> ends_by_check cr our tx tx'"
  unfolding ends_by_check_def by blast

lemma process_vote_ends:
  assumes "process_vote cr our cur params clen i vote tx = Ok tx'" "cur = get_current_round (dbtx tx)"
  shows "ends_by_check cr our tx tx'"
  using assms(1)
proof (rule process_vote_elim)
  fix d'
  assume "is_dummy (inner vote) \<and> consensus_params_hash (inner vote) = params_hash cr params \<and>
        d' = snd (insert_dummy_vote cur i (sig vote) (dbtx tx)) \<or>
      \<not> is_dummy (inner vote) \<and> (tbl_get (cons_blocks_proposals (dbtx tx)) cur = None \<or>
          tbl_get (cons_blocks_proposals (dbtx tx)) cur = Some (inner vote)) \<and>
        d' = snd (insert_block_vote cur i vote (dbtx tx))"
  then have r: "get_current_round d' = cur" using assms(2) by auto
  assume "tx' = notify_new_votes (upd (\<lambda>_. d') tx) \<or>
      check_round_end cr our cur (notify_new_votes (upd (\<lambda>_. d') tx)) = Ok tx'"
  then show ?thesis
    using r assms(2) ends_check [of cr our cur "notify_new_votes (upd (\<lambda>_. d') tx)" tx' tx]
    by (auto simp: notify_new_votes_def intro: ends_same)
qed

lemma process_vote_response_tx_ends:
  assumes "process_vote_response_tx cr our i resp tx = Ok tx'"
  shows "ends_by_check cr our tx tx'"
proof (cases resp)
  case (Vote block)
  then show ?thesis
    using assms process_vote_ends by (auto simp: process_vote_response_tx_def res_simps Let_def)
next
  case (Proposal block pl)
  then obtain params clen out where
    out: "process_proposal cr (get_current_round (dbtx tx)) params clen i block pl tx = Ok out"
    and o: "(case out of Inl tx1 \<Rightarrow> Ok tx1
      | Inr tx1 \<Rightarrow> process_vote cr our (get_current_round (dbtx tx)) params clen i block tx1) = Ok tx'"
    using assms by (auto simp: process_vote_response_tx_def res_simps Let_def)
  show ?thesis
  proof (cases out)
    case (Inl tx1)
    then have "tx' = tx" using process_proposal_Inl out o by fastforce
    then show ?thesis by (simp add: ends_same)
  next
    case (Inr tx1)
    then have r: "get_current_round (dbtx tx1) = get_current_round (dbtx tx)"
      using process_proposal_keep out by (auto simp: keep_def)
    moreover have "process_vote cr our (get_current_round (dbtx tx)) params clen i block tx1 = Ok tx'" using o Inr by simp
    ultimately have "ends_by_check cr our tx1 tx'" by (simp add: process_vote_ends)
    then show ?thesis using r by (simp add: ends_by_check_def)
  qed
qed

lemma process_notarized_real_ends:
  assumes "process_notarized_real cr our cur block pl tx = Ok tx'" "cur = get_current_round (dbtx tx)"
  shows "ends_by_check cr our tx tx'"
  using assms(1)
proof (rule process_notarized_real_elim)
  fix tx0 tx1
  assume t: "keep (dbtx tx) (dbtx tx0)" "insert_notarized_block_tx block pl tx0 = Ok tx1"
    "check_round_end cr our cur tx1 = Ok tx'"
  have "get_current_round (dbtx tx1) = cur"
    using keep_trans [OF t(1) insert_notarized_block_tx_keep [OF t(2)]] assms(2) by (simp add: keep_def)
  then show ?thesis using t(3) assms(2) by (simp add: ends_check)
qed (simp add: ends_same)

lemma process_notarized_block_response_tx_ends:
  assumes "process_notarized_block_response_tx cr our resp tx = Ok tx'"
  shows "ends_by_check cr our tx tx'"
proof (cases "is_dummy (n_inner (wn_block resp))")
  case True
  let ?d = "fold (\<lambda>(i, s) d. snd (insert_dummy_vote (get_current_round (dbtx tx)) i s d))
    (entries (sigs (wn_block resp))) (dbtx tx)"
  let ?tx = "notify_new_votes (upd (\<lambda>_. ?d) tx)"
  have c: "check_round_end cr our (get_current_round (dbtx tx)) ?tx = Ok tx'"
    using assms True by (auto simp: process_notarized_block_response_tx_def process_notarized_dummy_def
        res_simps Let_def)
  have "get_current_round (dbtx ?tx) = get_current_round (dbtx tx)"
    by (simp add: notify_new_votes_def fold_insert_dummy_vote get_current_round_def)
  then show ?thesis using c by (simp add: ends_check)
next
  case False
  then show ?thesis
    using assms process_notarized_real_ends
    by (auto simp: process_notarized_block_response_tx_def res_simps Let_def)
qed

lemma ends_by_check_pins:
  assumes "ends_by_check cr our tx tx'" "get_current_round (dbtx tx) \<le> r" "r < get_current_round (dbtx tx')"
  shows "pin_ok cr (dbtx tx') r"
proof -
  have "get_current_round (dbtx tx') \<noteq> get_current_round (dbtx tx)" using assms(2,3) by auto
  then obtain tx1 where "check_round_end cr our (get_current_round (dbtx tx)) tx1 = Ok tx'"
    "get_current_round (dbtx tx) = get_current_round (dbtx tx1)"
    using assms(1) unfolding ends_by_check_def by metis
  then show ?thesis using check_round_end_pins assms(2,3) by blast
qed

text \<open>A new federation with a proposal of its first round, which is pinned.\<close>

definition pin_db :: cons_db where
  "pin_db = (test_db [7])\<lparr>cons_blocks_proposals := tbl_insert 0 (test_header 0 0 0) tbl_empty,
     cons_blocks_pinned := tbl_insert 0 1 tbl_empty\<rparr>"

lemma pin_db_run:
  defines "b \<equiv> test_header 0 0 0"
  defines "d1 \<equiv> snd (insert_block_vote 0 0 \<lparr>inner = b, sig = 9\<rparr> pin_db)"
  shows "\<exists>tx'. check_round_end test_crypto None 0 (notify_new_votes (upd (\<lambda>_. d1) (wtx_new pin_db))) = Ok tx' \<and>
    get_current_round (dbtx tx') = 1"
proof -
  have f: "tbl_get (cons_blocks_notarized d1) r = None" "tbl_get (cons_votes_dummy d1) k = None"
    "tbl_get (cons_blocks_proposals d1) r = (if r = 0 then Some b else None)"
    "tbl_get (cons_blocks_pinned d1) r = (if r = 0 then Some 1 else None)"
    "tbl_get (cons_votes_block d1) (r, i) \<noteq> None \<longleftrightarrow> r = 0 \<and> i = 0" for r k i
    by (simp_all add: d1_def b_def pin_db_def insert_block_vote_def test_db_def cons_db_empty_def)
  have p: "params_at d1 r = Some (test_params [7])" for r
    by (simp add: d1_def pin_db_def insert_block_vote_def)
  have b: "bh_round b = 0" "\<not> is_dummy b" by (simp_all add: b_def is_dummy_def test_header_def)
  define d2 where "d2 = retain_votes 0 b (d1\<lparr>cons_blocks_notarized := tbl_insert 0 b (cons_blocks_notarized d1)\<rparr>)"
  have g: "tbl_get (cons_blocks_notarized d2) r = (if r = 0 then Some b else None)" "tbl_get (cons_votes_dummy d2) k = None"
    "tbl_get (cons_blocks_proposals d2) r = (if r = 0 then Some b else None)"
    "tbl_get (cons_blocks_pinned d2) r = (if r = 0 then Some 1 else None)"
    "params_at d2 r = Some (test_params [7])" for r k
    using f p [of r] by (auto simp: d2_def retain_votes_def params_at_def)
  have np: "num_peers (test_params [7]) = (Ok 1 :: (round_invariant_error, _) res)" "threshold 1 = 1" "max_faulty 1 = 0"
    by (simp_all add: num_peers_def to_num_peers_def test_params_def threshold_def max_faulty_def total_def)
  have v: "get_num_votes_proposal d1 0 = 1" "get_num_votes_dummy d1 0 = 0" "get_num_votes_dummy d2 1 = 0"
    using f(2,5) g(2) by (simp_all add: num_votes_proposal num_votes_dummy)
  have hi: "get_prev_notarized_block d1 r = None" for r
    using f(1) by (simp add: prev_notarized_None_iff)
  have i: "insert_notarized_block 0 b None d1 = (Ok (Inserted, d2) :: (round_invariant_error, _) res)"
    using b f(1) by (simp add: insert_notarized_block_def d2_def)
  have gp: "get_proposal d1 0 = (Ok (Some b) :: (round_invariant_error, _) res)"
    "get_proposal d2 1 = (Ok None :: (round_invariant_error, _) res)"
    "get_consensus_params d1 0 = (Ok (test_params [7]) :: (round_invariant_error, _) res)"
    "get_consensus_params d2 1 = (Ok (test_params [7]) :: (round_invariant_error, _) res)"
    using f g b p by (simp_all add: get_proposal_def get_consensus_params_Ok_iff)
  have one: "round_body test_crypto 0 None 0 None d1 = Ok (Continue (Some 0) d2)"
    unfolding round_body_def by (simp add: gp np v i)
  have c: "check_pin test_crypto 1 d2 = Ok ()"
    by (simp add: check_pin_def arr_prev_def checked_sub_def g get_pinned_block_def get_notarized_block_def header_hash_def)
  have "\<exists>l. params_leader_idx test_crypto (test_params [7]) 1 = (Ok l :: (round_invariant_error, _) res)"
    by (simp add: params_leader_idx_def np leader_idx_def total_def)
  then obtain l where l: "params_leader_idx test_crypto (test_params [7]) 1 = (Ok l :: (round_invariant_error, _) res)" ..
  have two: "round_body test_crypto 0 None 1 (Some 0) d2 = Ok (Break False)"
    unfolding round_body_def by (simp add: gp np v c l get_vote_dummy_def g)
  have loop: "round_loop test_crypto 0 None 0 None d1 =
      Ok \<lparr>re_round = 1, re_last_notarized = Some 0, re_needs_timeout = False, re_db = d2\<rparr>"
    by (simp add: round_loop.simps [of _ _ _ 0] round_loop.simps [of _ _ _ 1] one two arr_next_expect_def checked_add_one)
  show ?thesis
    by (simp add: check_round_end_def notify_new_votes_def hi loop record_self_vote_def arr_next_expect_def checked_add_one
        set_current_round_def get_current_round_def)
qed

lemma pin_db_vote:
  "\<exists>tx'. process_vote_response_tx test_crypto None 0 (Vote \<lparr>inner = test_header 0 0 0, sig = 9\<rparr>) (wtx_new pin_db) = Ok tx' \<and>
     get_current_round (dbtx tx') = 1"
proof -
  let ?b = "test_header 0 0 0" and ?v = "\<lparr>inner = test_header 0 0 0, sig = 9\<rparr>"
  have b: "bh_round ?b = 0" "\<not> is_dummy ?b" by (simp_all add: is_dummy_def test_header_def)
  have r: "get_current_round pin_db = 0" by (simp add: pin_db_def)
  have p: "get_consensus_params pin_db 0 = (Ok (test_params [7]) :: (process_vote_error, _) res)"
    by (simp add: get_consensus_params_Ok_iff pin_db_def)
  have g: "get_proposal pin_db 0 = (Ok (Some ?b) :: (process_vote_error, _) res)"
    using b by (simp add: get_proposal_def pin_db_def)
  have n: "tbl_get (cons_votes_block pin_db) (0, 0) = None" by (simp add: pin_db_def test_db_def cons_db_empty_def)
  have o: "fst (insert_block_vote 0 0 ?v pin_db) = Inserted" using n by (simp add: insert_block_vote_def outcome_of_def)
  have s: "verify_sig_peer_idx test_crypto (header_sign_hash test_crypto) ?v 0 (peers (test_params [7])) = Ok ()"
    by (simp add: res_simps test_params_def sig_valid_def)
  have l: "params_len test_crypto (test_params [7]) = (Ok 0 :: (process_vote_error, _) res)"
    by (simp add: params_len_Ok_iff)
  have "process_vote_response_tx test_crypto None 0 (Vote ?v) (wtx_new pin_db) = map_err VoteRoundInvariant
    (check_round_end test_crypto None 0
      (notify_new_votes (upd (\<lambda>_. snd (insert_block_vote 0 0 ?v pin_db)) (wtx_new pin_db))))"
    by (simp add: process_vote_response_tx_def response_block_def Let_def ensure_def r p b l process_vote_def s g o
        outcome_map_def)
  then show ?thesis using pin_db_run by auto
qed

subsection \<open>Properties\<close>

text \<open>C11. A pin is enforced. Whatever message takes the node past a pinned round, the block of the pinned hash
  is then the notarized block of that round; a node for which it is not does not leave the round.\<close>

theorem pinned_block_enforced:
  assumes "process_vote_response_tx cr our i resp tx = Ok tx' \<or>
      process_notarized_block_response_tx cr our nresp tx = Ok tx'"
    and "get_current_round (dbtx tx) \<le> r" "r < get_current_round (dbtx tx')" "get_pinned_block (dbtx tx) r = Some h"
  shows "map_option (header_hash cr) (get_notarized_block (dbtx tx') r) = Some h"
proof -
  have "ends_by_check cr our tx tx'"
    using assms(1) process_vote_response_tx_ends process_notarized_block_response_tx_ends by blast
  then have "pin_ok cr (dbtx tx') r" using assms(2,3) by (rule ends_by_check_pins)
  moreover have "progress (dbtx tx) (dbtx tx')"
    using assms(1) process_vote_response_tx_progress process_notarized_block_response_tx_progress by blast
  ultimately show ?thesis using assms(4) by (simp add: pin_ok_def progress_def get_pinned_block_def)
qed

theorem pinned_block_enforced_witness:
  "\<exists>tx'. process_vote_response_tx test_crypto None 0 (Vote \<lparr>inner = test_header 0 0 0, sig = 9\<rparr>) (wtx_new pin_db) = Ok tx' \<and>
     map_option (header_hash test_crypto) (get_notarized_block (dbtx tx') 0) = Some 1"
proof -
  obtain tx' where t: "process_vote_response_tx test_crypto None 0 (Vote \<lparr>inner = test_header 0 0 0, sig = 9\<rparr>)
      (wtx_new pin_db) = Ok tx'" "get_current_round (dbtx tx') = 1"
    using pin_db_vote by blast
  have "map_option (header_hash test_crypto) (get_notarized_block (dbtx tx') 0) = Some 1"
    by (rule pinned_block_enforced [OF disjI1 [OF t(1)]])
      (simp_all add: t(2), simp_all add: pin_db_def get_pinned_block_def)
  with t(1) show ?thesis by blast
qed
end
