(* ===== verification/Node_Join.thy ===== *)
theory Node_Join
  imports Node_Rpc Cons_Pins
begin

section \<open>Invites and joining\<close>

text \<open>
  \<open>invite/src/lib.rs\<close>, \<open>node/src/invite.rs\<close> and \<open>node/src/join.rs\<close>: the invite that a node hands out
  names the initial parameters of the federation by hash and a recent final block, the pin; the node that joins
  checks what it is told against both. The text form of an invite (\<open>base32\<close> of \<open>cbor\<close>) is that of third-party
  encoders, arguments here. A database write that precedes an error stays.
\<close>

record invite =
  inv_pin :: "(block_round \<times> hash) option"
  inv_init_params :: "(hash \<times> params_len) option"
  inv_address :: peer_address

datatype invite_parse_error = Base32 | Cbor

definition invite_from_str ::
  "('s \<Rightarrow> byte list option) \<Rightarrow> (byte list \<Rightarrow> invite option) \<Rightarrow> 's \<Rightarrow> (invite_parse_error, invite) res" where
  "invite_from_str base32_decode cbor_decode s = (case base32_decode s of
      None \<Rightarrow> Err Base32
    | Some bytes \<Rightarrow> (case cbor_decode bytes of None \<Rightarrow> Err Cbor | Some i \<Rightarrow> Ok i))"

definition invite_to_str :: "(byte list \<Rightarrow> 's) \<Rightarrow> (invite \<Rightarrow> byte list) \<Rightarrow> invite \<Rightarrow> 's" where
  "invite_to_str base32_encode cbor_encode i = base32_encode (cbor_encode i)"

definition generate_invite_code :: "crypto \<Rightarrow> hash \<Rightarrow> cons_state option \<Rightarrow> (string, invite) res" where
  "generate_invite_code cr node_id consensus = (case consensus of
      None \<Rightarrow> Err ''Consensus not initialized''
    | Some s \<Rightarrow>
        let d = fst s;
            block = (case get_finality_consensus d of
                Some r \<Rightarrow> (case arr_prev r of Some q \<Rightarrow> get_prev_notarized_block d q | None \<Rightarrow> None)
              | None \<Rightarrow> None)
        in res_bind (get_init_params d) (\<lambda>init_params.
           res_bind (hash_and_len cr init_params) (\<lambda>hl.
           Ok \<lparr>inv_pin = map_option (\<lambda>b. (bh_round b, header_hash cr b)) block,
               inv_init_params = Some hl, inv_address = Iroh node_id\<rparr>)))"

subsection \<open>Joining\<close>

text \<open>The loop over the peers of some parameters: each address that the other side knows is recorded.\<close>

fun learn_peer_addresses ::
  "crypto \<Rightarrow> (address_update \<Rightarrow> byte list) \<Rightarrow> connection \<Rightarrow> peer_pubkey list \<Rightarrow> addr_db \<Rightarrow> (string, unit) res \<times> addr_db" where
  "learn_peer_addresses cr enc conn [] d = (Ok (), d)"
| "learn_peer_addresses cr enc conn (k # ks) d =
     (case res_bind (map_err (\<lambda>_. ''Failed request get_peer_address'') (ask_peer_address conn k))
         (rpc_get_peer_address cr enc k) of
        Err e \<Rightarrow> (Err e, d)
      | Panic m \<Rightarrow> (Panic m, d)
      | Ok None \<Rightarrow> learn_peer_addresses cr enc conn ks d
      | Ok (Some update) \<Rightarrow> (case handle_address_update cr enc update d of
          Err e \<Rightarrow> (Err e, d)
        | Panic m \<Rightarrow> (Panic m, d)
        | Ok d' \<Rightarrow> learn_peer_addresses cr enc conn ks d'))"

definition fetch_params ::
  "crypto \<Rightarrow> connection \<Rightarrow> string \<Rightarrow> block_round \<Rightarrow> hash \<Rightarrow> params_len \<Rightarrow> (string, consensus_params) res" where
  "fetch_params cr conn msg r h len =
     res_bind (rpc_get_consensus_params conn r h len) (\<lambda>raw. map_err (\<lambda>_. msg) (from_raw cr raw))"

text \<open>The two halves of \<open>consensus_join_static_inner\<close>: the initial parameters and the pin.\<close>

definition join_init_params ::
  "crypto \<Rightarrow> (address_update \<Rightarrow> byte list) \<Rightarrow> connection \<Rightarrow> invite \<Rightarrow> addr_db \<Rightarrow>
     (string, consensus_params option) res \<times> addr_db" where
  "join_init_params cr enc conn invite d = (case inv_init_params invite of
      None \<Rightarrow> (Ok None, d)
    | Some (h, len) \<Rightarrow> (case fetch_params cr conn ''Failed to parse init consensus params'' 0 h len of
        Err e \<Rightarrow> (Err e, d)
      | Panic m \<Rightarrow> (Panic m, d)
      | Ok params \<Rightarrow>
          (let (r, d') = learn_peer_addresses cr enc conn (peers params) d in (res_bind r (\<lambda>_. Ok (Some params)), d'))))"

definition join_pin ::
  "crypto \<Rightarrow> (address_update \<Rightarrow> byte list) \<Rightarrow> connection \<Rightarrow> invite \<Rightarrow> addr_db \<Rightarrow> (string, unit) res \<times> addr_db" where
  "join_pin cr enc conn invite d = (case inv_pin invite of
      None \<Rightarrow> (Ok (), d)
    | Some (r, h) \<Rightarrow> (case rpc_get_block_hashed cr conn r h of
        Err e \<Rightarrow> (Err e, d)
      | Panic m \<Rightarrow> (Panic m, d)
      | Ok block \<Rightarrow> (case fetch_params cr conn ''Failed to parse consensus params'' r
            (consensus_params_hash (n_inner block)) (consensus_params_len (n_inner block)) of
          Err e \<Rightarrow> (Err e, d)
        | Panic m \<Rightarrow> (Panic m, d)
        | Ok params \<Rightarrow> learn_peer_addresses cr enc conn (peers params) d)))"

definition consensus_join ::
  "crypto \<Rightarrow> (address_update \<Rightarrow> byte list) \<Rightarrow> connection \<Rightarrow> invite \<Rightarrow> peer_pubkey option \<Rightarrow> cons_db \<Rightarrow> addr_db \<Rightarrow>
     (string, cons_state) res \<times> addr_db" where
  "consensus_join cr enc conn invite our d a =
     (case join_init_params cr enc conn invite a of
        (Err e, a1) \<Rightarrow> (Err e, a1)
      | (Panic m, a1) \<Rightarrow> (Panic m, a1)
      | (Ok init_params, a1) \<Rightarrow> (case join_pin cr enc conn invite a1 of
          (Err e, a2) \<Rightarrow> (Err e, a2)
        | (Panic m, a2) \<Rightarrow> (Panic m, a2)
        | (Ok _, a2) \<Rightarrow> (case init_params of
            None \<Rightarrow> (Err ''Init params not available in the invite'', a2)
          | Some params \<Rightarrow>
              (map_err (\<lambda>_. ''Failed to initialize consensus'') (cons_init cr params d our (inv_pin invite)), a2))))"

subsection \<open>What a join checked\<close>

lemma learn_peer_addresses_book:
  "learn_peer_addresses cr enc conn ks d = (r, d') \<Longrightarrow> book_inv cr enc d \<Longrightarrow> book_inv cr enc d'"
proof (induction cr enc conn ks d arbitrary: r d' rule: learn_peer_addresses.induct)
  case (2 cr enc conn k ks d)
  then show ?case
    using handle_address_update_step by (auto split: res.splits option.splits)
qed simp

lemma join_book:
  "join_init_params cr enc conn iv d = (r, d') \<Longrightarrow> book_inv cr enc d \<Longrightarrow> book_inv cr enc d'"
  "join_pin cr enc conn iv d = (r', d') \<Longrightarrow> book_inv cr enc d \<Longrightarrow> book_inv cr enc d'"
  by (auto simp: join_init_params_def join_pin_def dest: learn_peer_addresses_book
      split: option.splits res.splits prod.splits)

lemma consensus_join_book:
  "consensus_join cr enc conn iv our d a = (r, a') \<Longrightarrow> book_inv cr enc a \<Longrightarrow> book_inv cr enc a'"
  by (auto simp: consensus_join_def dest!: join_book split: res.splits option.splits prod.splits)

lemma join_init_params_Some:
  assumes "join_init_params cr enc conn iv a = (Ok (Some p), a')"
  obtains h len raw where "inv_init_params iv = Some (h, len)" "ask_consensus_params conn 0 h len = Ok raw"
    "dec_params cr raw = Some p"
  using assms by (auto simp: join_init_params_def fetch_params_def rpc_get_consensus_params_def from_raw_def res_simps
      split: option.splits res.splits prod.splits if_splits)

lemma join_pin_Ok:
  assumes "join_pin cr enc conn iv a = (Ok (), a')" "inv_pin iv = Some (r, h)"
  shows "\<exists>b. ask_block conn r = Ok b \<and> bh_round (n_inner b) = r \<and> header_hash cr (n_inner b) = h"
  using assms by (auto simp: join_pin_def rpc_get_block_hashed_def rpc_get_block_def res_simps
      split: res.splits if_splits)

lemma consensus_join_Ok:
  assumes "consensus_join cr enc conn iv our d a = (Ok s, a')"
  obtains p a1 a2 where "join_init_params cr enc conn iv a = (Ok (Some p), a1)"
    "join_pin cr enc conn iv a1 = (Ok (), a2)" "cons_init cr p d our (inv_pin iv) = Ok s"
  using assms by (auto simp: consensus_join_def res_simps split: res.splits option.splits prod.splits)

lemma cons_init_stores:
  assumes "cons_init cr p cons_db_empty our pinned = Ok s"
  shows "params_at (fst s) 0 = Some p" "pinned = Some (r, h) \<Longrightarrow> get_pinned_block (fst s) r = Some h"
proof -
  obtain cur d where i: "init_tx cr p pinned cons_db_empty = Ok (cur, d)"
    and o: "open_internal cr our cur d = (Ok s :: (init_error, _) res)"
    using assms by (auto simp: cons_init_def res_simps)
  have "cur = get_current_round d" using i by (auto simp: init_tx_def Let_def res_simps)
  from open_internal_progress [OF o this] have
    s: "cons_blocks_pinned (fst s) = cons_blocks_pinned d" "params_at (fst s) 0 = params_at d 0"
    by (auto simp: progress_def params_at_def split: option.splits)
  have "last_entry (\<lambda>k. k \<le> 0) (entries (tbl_insert (0::block_round) (params_hash cr p) tbl_empty)) = Some (0, params_hash cr p)"
    by (auto simp: tb.last_Some)
  then have "params_at d 0 = Some p \<and> (pinned = Some (r, h) \<longrightarrow> tbl_get (cons_blocks_pinned d) r = Some h)"
    using i by (auto simp: init_tx_def insert_consensus_params_def Let_def res_simps cons_db_empty_def params_at_def
        split: option.splits)
  then show "params_at (fst s) 0 = Some p" "pinned = Some (r, h) \<Longrightarrow> get_pinned_block (fst s) r = Some h"
    by (simp_all add: s get_pinned_block_def)
qed

subsection \<open>Properties\<close>

text \<open>C12. A node that joined holds what the invite names, whatever the node on the other side answers: its
  parameters of round 0 decode from bytes of the invite's hash, the pin is recorded and the block of the pinned hash
  was shown to it, and its address book holds signed entries only. The hypothesis on the connection is the check of the
  hash-verified transfer of the parameters.\<close>

theorem join_checks_invite:
  assumes "consensus_join cr enc conn iv our cons_db_empty a = (Ok s, a')"
    and bao: "\<forall>r h len raw. ask_consensus_params conn r h len = Ok raw \<longrightarrow> blake3 cr raw = h"
  shows "\<exists>h len raw p. inv_init_params iv = Some (h, len) \<and> blake3 cr raw = h \<and> dec_params cr raw = Some p \<and>
      get_consensus_params (fst s) 0 = (Ok p :: (unit, _) res) \<and>
      (\<forall>r g. inv_pin iv = Some (r, g) \<longrightarrow> get_pinned_block (fst s) r = Some g \<and>
        (\<exists>b. ask_block conn r = Ok b \<and> bh_round (n_inner b) = r \<and> header_hash cr (n_inner b) = g)) \<and>
      (book_inv cr enc a \<longrightarrow> book_inv cr enc a')"
proof -
  obtain p a1 a2 where j: "join_init_params cr enc conn iv a = (Ok (Some p), a1)"
    "join_pin cr enc conn iv a1 = (Ok (), a2)" "cons_init cr p cons_db_empty our (inv_pin iv) = Ok s"
    using assms(1) by (rule consensus_join_Ok)
  obtain h len raw where "inv_init_params iv = Some (h, len)" "ask_consensus_params conn 0 h len = Ok raw"
    "dec_params cr raw = Some p"
    using j(1) by (rule join_init_params_Some)
  then show ?thesis
    using bao cons_init_stores [OF j(3)] join_pin_Ok [OF j(2)] consensus_join_book [OF assms(1)]
    by (force simp: get_consensus_params_Ok_iff)
qed

text \<open>A connection to an honest peer of a federation of one.\<close>

definition join_crypto :: crypto where
  "join_crypto = test_crypto\<lparr>dec_params := (\<lambda>bs. Some (test_params [7]))\<rparr>"

definition join_conn :: connection where
  "join_conn = \<lparr>ask_block = (\<lambda>r. Ok (notarized_new (test_header 0 r 0) [])),
     ask_consensus_params = (\<lambda>r h len. if h = 1 then Ok [] else Err ''bad hash''),
     ask_peer_address = (\<lambda>k. Ok None), ask_finality_vote = (\<lambda>r. Err ''none'')\<rparr>"

definition join_invite :: invite where
  "join_invite = \<lparr>inv_pin = Some (3, 1), inv_init_params = Some (1, 0), inv_address = Iroh 0\<rparr>"

lemma join_crypto_simps [simp]:
  "blake3 join_crypto bs = of_nat (length bs) + 1" "enc_header join_crypto h = []" "enc_params join_crypto p = []"
  "dec_params join_crypto bs = Some (test_params [7])"
  by (simp_all add: join_crypto_def)

lemma join_init_runs: "\<exists>s. cons_init join_crypto (test_params [7]) cons_db_empty None (Some (3, 1)) = Ok s"
proof -
  let ?d = "(test_db [7])\<lparr>cons_blocks_pinned := tbl_insert 3 1 tbl_empty\<rparr>"
  have i: "init_tx join_crypto (test_params [7]) (Some (3, 1)) cons_db_empty = Ok (0, ?d)"
    by (simp add: init_tx_def insert_consensus_params_def Let_def test_db_def cons_db_empty_def
        get_current_round_def params_hash_def)
  have t: "tbl_get (cons_blocks_notarized ?d) r = None" "tbl_get (cons_blocks_proposals ?d) r = None"
    "tbl_get (cons_votes_dummy ?d) k = None" "tbl_get (cons_votes_block ?d) k = None" for r k
    by (simp_all add: test_db_def cons_db_empty_def)
  have np: "num_peers (test_params [7]) = (Ok 1 :: (round_invariant_error, _) res)" "threshold 1 = 1" "max_faulty 1 = 0"
    by (simp_all add: num_peers_def to_num_peers_def test_params_def threshold_def max_faulty_def total_def)
  have v: "get_num_votes_proposal ?d 0 = 0" "get_num_votes_dummy ?d 0 = 0"
    by (simp_all only: num_votes_proposal num_votes_dummy t) simp_all
  have hi: "get_prev_notarized_block ?d r = None" for r using t(1) by (simp add: prev_notarized_None_iff)
  have g: "get_proposal ?d 0 = (Ok None :: (round_invariant_error, _) res)"
    "get_consensus_params ?d 0 = (Ok (test_params [7]) :: (round_invariant_error, _) res)"
    by (simp_all only: get_proposal_def t get_consensus_params_Ok_iff) simp_all
  have "\<exists>l. params_leader_idx join_crypto (test_params [7]) 0 = (Ok l :: (round_invariant_error, _) res)"
    by (simp add: params_leader_idx_def np leader_idx_def total_def)
  then obtain l where l: "params_leader_idx join_crypto (test_params [7]) 0 = (Ok l :: (round_invariant_error, _) res)" ..
  have "round_body join_crypto 0 None 0 None ?d = Ok (Break False)"
    unfolding round_body_def by (simp add: g np v l get_vote_dummy_def t [simplified])
  then have loop: "round_loop join_crypto 0 None 0 None ?d =
      Ok \<lparr>re_round = 0, re_last_notarized = None, re_needs_timeout = False, re_db = ?d\<rparr>"
    by (simp add: round_loop.simps [of _ _ _ 0])
  have "\<exists>s. open_internal join_crypto None 0 ?d = (Ok s :: (init_error, cons_state) res)"
    by (simp add: open_internal_def open_channels_def hi open_internal_tx_def check_round_end_def loop record_self_vote_def
        write_with_expect_falliable_def unit_tx_def)
  then show ?thesis by (simp add: cons_init_def i)
qed

theorem join_checks_invite_witness:
  "\<exists>s a'. consensus_join join_crypto (\<lambda>_. []) join_conn join_invite None cons_db_empty addr_db_empty = (Ok s, a') \<and>
     get_pinned_block (fst s) 3 = Some 1"
proof -
  obtain s where s: "cons_init join_crypto (test_params [7]) cons_db_empty None (Some (3, 1)) = Ok s"
    using join_init_runs ..
  have r: "fetch_params join_crypto join_conn m r 1 len = Ok (test_params [7])" for m r len
    by (simp add: fetch_params_def rpc_get_consensus_params_def join_conn_def from_raw_def test_params_def)
  have l: "learn_peer_addresses join_crypto (\<lambda>_. []) join_conn ks d = (Ok (), d)" for ks d
    by (induction ks) (simp_all add: join_conn_def rpc_get_peer_address_def)
  have b: "rpc_get_block_hashed join_crypto join_conn 3 1 = Ok (notarized_new (test_header 0 3 0) [])"
    by (simp add: rpc_get_block_hashed_def rpc_get_block_def join_conn_def notarized_new_def test_header_def header_hash_def)
  have h: "consensus_params_hash (n_inner (notarized_new (test_header 0 3 0) [])) = 1"
    by (simp add: notarized_new_def test_header_def)
  have j: "consensus_join join_crypto (\<lambda>_. []) join_conn join_invite None cons_db_empty addr_db_empty = (Ok s, addr_db_empty)"
    by (simp add: consensus_join_def join_init_params_def join_pin_def join_invite_def r l b h s)
  have "\<forall>r h len raw. ask_consensus_params join_conn r h len = Ok raw \<longrightarrow> blake3 join_crypto raw = h"
    by (auto simp: join_conn_def split: if_splits)
  from join_checks_invite [OF j this] j show ?thesis by (force simp: join_invite_def)
qed

end
