(* ===== verification/Node_Ui.thy ===== *)
theory Node_Ui
  imports Node_Join Node_App
begin

section \<open>The web interface\<close>

text \<open>
  What the requests of the web interface do to the node: the password (\<open>node/src/pass.rs\<close>), the session check and the other
  guards (\<open>node-ui-axum/src/middleware.rs\<close>), signing in (\<open>routes/login.rs\<close>), creating and joining a federation
  (\<open>routes/init.rs\<close>, \<open>node/src/node.rs\<close>) and the votes that a user asks the modules for (\<open>routes/module.rs\<close>).
  A page reads the state and changes nothing; pages are in \<open>Ui_Pages\<close>.

  A text is the list of its Unicode scalar values. The session layer, the HTTP server and the \<open>hex\<close> and \<open>urlencoding\<close>
  encoders are third-party code: a session is its identifier, and the encoders are arguments. What comes from outside is the
  record \<open>ui_env\<close>. A time-out while joining is an error answer of the connection.
\<close>

type_synonym utext = "nat list"

text \<open>\<open>char::is_whitespace\<close>, \<open>str::trim\<close> and the UTF-8 bytes of a text.\<close>

definition is_whitespace :: "nat \<Rightarrow> bool" where
  "is_whitespace c \<longleftrightarrow> 9 \<le> c \<and> c \<le> 13 \<or> c = 32 \<or> c = 133 \<or> c = 160 \<or> c = 5760 \<or> 8192 \<le> c \<and> c \<le> 8202 \<or>
     c = 8232 \<or> c = 8233 \<or> c = 8239 \<or> c = 8287 \<or> c = 12288"

definition trim :: "utext \<Rightarrow> utext" where
  "trim s = rev (dropWhile is_whitespace (rev (dropWhile is_whitespace s)))"

definition utf8_char :: "nat \<Rightarrow> byte list" where
  "utf8_char c =
     (if c < 128 then [of_nat c]
      else if c < 2048 then [of_nat (192 + c div 64), of_nat (128 + c mod 64)]
      else if c < 65536 then [of_nat (224 + c div 4096), of_nat (128 + c div 64 mod 64), of_nat (128 + c mod 64)]
      else [of_nat (240 + c div 262144), of_nat (128 + c div 4096 mod 64), of_nat (128 + c div 64 mod 64),
            of_nat (128 + c mod 64)])"

definition utf8 :: "utext \<Rightarrow> byte list" where
  "utf8 s = concat (map utf8_char s)"

subsection \<open>The password\<close>

record ui_pass =
  ui_pass_hash :: hash
  ui_pass_is_temporary :: bool
  ui_pass_row :: "hash option"

definition load_ui_pass_hash :: "ui_pass \<Rightarrow> hash option" where
  "load_ui_pass_hash p = ui_pass_row p"

definition change_ui_pass_db_static :: "crypto \<Rightarrow> utext \<Rightarrow> ui_pass \<Rightarrow> hash \<times> ui_pass" where
  "change_ui_pass_db_static cr pass p =
     (let pass_hash = blake3 cr (utf8 pass) in (pass_hash, p\<lparr>ui_pass_row := Some pass_hash\<rparr>))"

definition change_ui_pass :: "crypto \<Rightarrow> utext \<Rightarrow> ui_pass \<Rightarrow> ui_pass" where
  "change_ui_pass cr pass p =
     (let (pass_hash, p') = change_ui_pass_db_static cr pass p
      in p'\<lparr>ui_pass_hash := pass_hash, ui_pass_is_temporary := False\<rparr>)"

text \<open>The part of \<open>Node::new\<close> about the password; \<open>random_pass\<close> is the temporary one it prints.\<close>

definition new_ui_pass :: "crypto \<Rightarrow> utext option \<Rightarrow> utext \<Rightarrow> hash option \<Rightarrow> ui_pass" where
  "new_ui_pass cr force_ui_password random_pass row =
     (let p = \<lparr>ui_pass_hash = 0, ui_pass_is_temporary = True, ui_pass_row = row\<rparr>;
          p1 = (case force_ui_password of Some pass \<Rightarrow> snd (change_ui_pass_db_static cr pass p) | None \<Rightarrow> p) in
      case load_ui_pass_hash p1 of
        Some h \<Rightarrow> p1\<lparr>ui_pass_hash := h, ui_pass_is_temporary := False\<rparr>
      | None \<Rightarrow> p1\<lparr>ui_pass_hash := blake3 cr (utf8 random_pass), ui_pass_is_temporary := True\<rparr>)"

subsection \<open>State, requests and answers\<close>

record ui_env =
  ue_app :: app_env
  ue_hkdf :: "hash \<Rightarrow> byte list \<Rightarrow> hash"
  ue_pubkey :: "peer_seckey \<Rightarrow> peer_pubkey"
  ue_root_secret :: "deriveable_secret option"
  ue_ctrl_version :: consensus_version
  ue_now :: timestamp
  ue_addr_enc :: "address_update \<Rightarrow> byte list"
  ue_dial :: "peer_address \<Rightarrow> (string, connection) res"

record ui_state =
  us_pass :: ui_pass
  us_sessions :: "nat set"
  us_initialized :: bool
  us_addrs :: addr_db
  us_app :: app_state

datatype ui_request =
    GetPage string
  | PostLogin "utext option" utext "string option"
  | PostInit "invite option"
  | PostAddPeerVote module_id peer_pubkey
  | PostRemovePeerVote module_id peer_pubkey
  | PostAddModuleVote module_id module_kind consensus_version
  | PostMetaVote module_id meta_key meta_value

record http =
  http_session :: nat
  http_referer_path :: "string option"
  http_request :: ui_request

datatype user_request_error = WrongPassword | ConsensusCreate string | ConsensusJoin string | Other string

datatype request_error = ShuttingDown | LoginRequired "string option" | User user_request_error

datatype ui_response = Html | Redirect_to string

type_synonym ui_result = "(request_error, ui_response) res \<times> ui_state"

definition ROUTE_UI :: string where "ROUTE_UI = ''/ui''"
definition ROUTE_LOGIN :: string where "ROUTE_LOGIN = ''/ui/login''"
definition ROUTE_INIT_CONSENSUS :: string where "ROUTE_INIT_CONSENSUS = ''/ui/init''"

definition module_path :: "module_id \<Rightarrow> string" where
  "module_path i = ''/ui/module/'' @ dec_digits (unat i)"

definition meta_key_path :: "module_id \<Rightarrow> meta_key \<Rightarrow> string" where
  "meta_key_path i key = module_path i @ ''/meta_key/'' @ dec_digits (unat key)"

fun req_path :: "ui_request \<Rightarrow> string" where
  "req_path (GetPage p) = p"
| "req_path (PostLogin _ _ _) = ROUTE_LOGIN"
| "req_path (PostInit _) = ROUTE_INIT_CONSENSUS"
| "req_path (PostAddPeerVote i _) = module_path i @ ''/add_peer_vote''"
| "req_path (PostRemovePeerVote i _) = module_path i @ ''/remove_peer_vote''"
| "req_path (PostAddModuleVote i _ _) = module_path i @ ''/add_module_vote''"
| "req_path (PostMetaVote i key _) = meta_key_path i key @ ''/vote''"

subsection \<open>Signing in\<close>

definition login_post ::
  "crypto \<Rightarrow> nat \<Rightarrow> utext option \<Rightarrow> utext \<Rightarrow> string option \<Rightarrow> ui_state \<Rightarrow> ui_result" where
  "login_post cr session temp_password password redirect u =
     (let p = us_pass u;
          enter = (\<lambda>u. (Ok (Redirect_to (case redirect of Some r \<Rightarrow> r | None \<Rightarrow> ROUTE_UI)),
            u\<lparr>us_sessions := insert session (us_sessions u)\<rparr>)) in
      if ui_pass_is_temporary p then
        (case temp_password of
           None \<Rightarrow> (Err (User (Other ''temporary password missing'')), u)
         | Some temp_pass \<Rightarrow>
             if blake3 cr (utf8 (trim temp_pass)) \<noteq> ui_pass_hash p then (Err (LoginRequired redirect), u)
             else enter (u\<lparr>us_pass := change_ui_pass cr password p\<rparr>))
      else if blake3 cr (utf8 (trim password)) \<noteq> ui_pass_hash p then (Err (User WrongPassword), u)
      else enter u)"

subsection \<open>Creating and joining a federation\<close>

text \<open>\<open>OnceLock::set\<close> of the consensus: a node that has one panics.\<close>

definition set_consensus :: "cons_state \<Rightarrow> ui_state \<Rightarrow> ('e, unit) res \<times> ui_state" where
  "set_consensus s u =
     (let a = us_app u; u1 = u\<lparr>us_app := a\<lparr>as_db := (as_db a)\<lparr>app_cons := fst s\<rparr>\<rparr>\<rparr> in
      if us_initialized u then (Panic ''Can't be initialized twice'', u1)
      else (Ok (), u1\<lparr>us_initialized := True, us_app := (us_app u1)\<lparr>as_chan := snd s\<rparr>\<rparr>))"

datatype node_init_error = NoSecret | InitSecret level_error | ConsensusInit init_error

definition node_consensus_init :: "ui_env \<Rightarrow> peer_pubkey list \<Rightarrow> ui_state \<Rightarrow> (node_init_error, unit) res \<times> ui_state" where
  "node_consensus_init env extra_peers u = (case ue_root_secret env of
      None \<Rightarrow> (Err NoSecret, u)
    | Some secret \<Rightarrow>
        (case res_bind (map_err InitSecret (consensus_init_params (ue_hkdf env) (ue_pubkey env) secret extra_peers
              (ue_ctrl_version env) (ue_now env))) (\<lambda>(k, params).
            map_err ConsensusInit (cons_init (env_crypto (ue_app env)) params (app_cons (as_db (us_app u))) (Some k) None)) of
          Err e \<Rightarrow> (Err e, u)
        | Panic m \<Rightarrow> (Panic m, u)
        | Ok s \<Rightarrow> set_consensus s u))"

definition node_consensus_join :: "ui_env \<Rightarrow> invite \<Rightarrow> ui_state \<Rightarrow> (string, unit) res \<times> ui_state" where
  "node_consensus_join env invite u = (case ue_dial env (inv_address invite) of
      Err e \<Rightarrow> (Err e, u)
    | Panic m \<Rightarrow> (Panic m, u)
    | Ok conn \<Rightarrow>
        (let (r, a) = consensus_join (env_crypto (ue_app env)) (ue_addr_enc env) conn invite (env_self (ue_app env))
               (app_cons (as_db (us_app u))) (us_addrs u);
             u1 = u\<lparr>us_addrs := a\<rparr> in
         case r of
           Err e \<Rightarrow> (Err e, u1)
         | Panic m \<Rightarrow> (Panic m, u1)
         | Ok s \<Rightarrow> set_consensus s u1))"

definition init_post :: "ui_env \<Rightarrow> invite option \<Rightarrow> ui_state \<Rightarrow> ui_result" where
  "init_post env invite u = (case invite of
      Some i \<Rightarrow> (let (r, u') = node_consensus_join env i u in
        (res_bind (map_err (\<lambda>e. User (ConsensusJoin e)) r) (\<lambda>_. Ok (Redirect_to ROUTE_UI)), u'))
    | None \<Rightarrow> (let (r, u') = node_consensus_init env [] u in
        (res_bind (map_err (\<lambda>_. User (ConsensusCreate ''Failed to init consensus'')) r) (\<lambda>_. Ok (Redirect_to ROUTE_UI)), u')))"

subsection \<open>Votes\<close>

definition ctrl_vote ::
  "(ctrl_module \<Rightarrow> ctrl_state \<Rightarrow> (whatever, ctrl_state) res) \<Rightarrow> module_id \<Rightarrow> ui_state \<Rightarrow> ui_result" where
  "ctrl_vote call i u =
     (let a = us_app u; back = Redirect_to (module_path i) in
      case tbl_get (as_modules a) i of
        None \<Rightarrow> (Ok back, u)
      | Some m \<Rightarrow>
          if mc_kind (dm_config m) = MODULE_KIND_CONSENSUS_CTRL then
            (case dm_inner m of
               MetaInst _ \<Rightarrow> (Ok back, u)
             | CtrlInst cm \<Rightarrow>
                 (case call cm (app_ctrl (as_db a) i, as_props a i) of
                    Err e \<Rightarrow> (Err (User (Other e)), u)
                  | Panic msg \<Rightarrow> (Panic msg, u)
                  | Ok (d, props) \<Rightarrow> (Ok back, u\<lparr>us_app := a\<lparr>
                      as_db := (as_db a)\<lparr>app_ctrl := (app_ctrl (as_db a))(i := d)\<rparr>,
                      as_props := (as_props a)(i := props)\<rparr>\<rparr>)))
          else (Ok back, u))"

definition post_add_peer_vote :: "ui_env \<Rightarrow> module_id \<Rightarrow> peer_pubkey \<Rightarrow> ui_state \<Rightarrow> ui_result" where
  "post_add_peer_vote env i k = ctrl_vote (\<lambda>cm. set_pending_add_peer_vote cm (env_ctrl_codec (ue_app env)) k) i"

definition post_remove_peer_vote :: "ui_env \<Rightarrow> module_id \<Rightarrow> peer_pubkey \<Rightarrow> ui_state \<Rightarrow> ui_result" where
  "post_remove_peer_vote env i k = ctrl_vote (\<lambda>cm. set_pending_remove_peer_vote cm (env_ctrl_codec (ue_app env)) k) i"

definition post_add_module_vote ::
  "ui_env \<Rightarrow> module_id \<Rightarrow> module_kind \<Rightarrow> consensus_version \<Rightarrow> ui_state \<Rightarrow> ui_result" where
  "post_add_module_vote env i k v = ctrl_vote (\<lambda>cm. set_pending_add_module_vote cm (env_ctrl_codec (ue_app env)) k v) i"

definition post_meta_vote :: "ui_env \<Rightarrow> module_id \<Rightarrow> meta_key \<Rightarrow> meta_value \<Rightarrow> ui_state \<Rightarrow> ui_result" where
  "post_meta_vote env i key value u =
     (let a = us_app u; back = Redirect_to (meta_key_path i key) in
      case tbl_get (as_modules a) i of
        None \<Rightarrow> (Ok back, u)
      | Some m \<Rightarrow>
          if mc_kind (dm_config m) = MODULE_KIND_META then
            (case dm_inner m of
               CtrlInst _ \<Rightarrow> (Ok back, u)
             | MetaInst mm \<Rightarrow>
                 (case propose_key_value mm (env_meta_codec (ue_app env)) key value (app_meta (as_db a) i, as_props a i) of
                    Err e \<Rightarrow> (Err (User (Other e)), u)
                  | Panic msg \<Rightarrow> (Panic msg, u)
                  | Ok (d, props) \<Rightarrow> (Ok back, u\<lparr>us_app := a\<lparr>
                      as_db := (as_db a)\<lparr>app_meta := (app_meta (as_db a))(i := d)\<rparr>,
                      as_props := (as_props a)(i := props)\<rparr>\<rparr>)))
          else (Ok back, u))"

subsection \<open>Guards and routes\<close>

fun route :: "ui_env \<Rightarrow> nat \<Rightarrow> ui_request \<Rightarrow> ui_state \<Rightarrow> ui_result" where
  "route env session (GetPage p) u = (Ok Html, u)"
| "route env session (PostLogin t p r) u = login_post (env_crypto (ue_app env)) session t p r u"
| "route env session (PostInit i) u = init_post env i u"
| "route env session (PostAddPeerVote i k) u = post_add_peer_vote env i k u"
| "route env session (PostRemovePeerVote i k) u = post_remove_peer_vote env i k u"
| "route env session (PostAddModuleVote i k v) u = post_add_module_vote env i k v u"
| "route env session (PostMetaVote i key value) u = post_meta_vote env i key value u"

definition require_auth :: "http \<Rightarrow> (ui_state \<Rightarrow> ui_result) \<Rightarrow> ui_state \<Rightarrow> ui_result" where
  "require_auth req nxt u =
     (let path = req_path (http_request req) in
      if path = ROUTE_LOGIN then nxt u
      else if http_session req \<in> us_sessions u then nxt u
      else (Err (LoginRequired (case http_request req of GetPage _ \<Rightarrow> Some path | _ \<Rightarrow> http_referer_path req)), u))"

definition consensus_init_guard :: "http \<Rightarrow> (ui_state \<Rightarrow> ui_result) \<Rightarrow> ui_state \<Rightarrow> ui_result" where
  "consensus_init_guard req nxt u =
     (let path = req_path (http_request req) in
      if us_initialized u then
        (if path = ROUTE_INIT_CONSENSUS then (Ok (Redirect_to ROUTE_UI), u) else nxt u)
      else if path = ROUTE_INIT_CONSENSUS \<or> path = ROUTE_LOGIN then nxt u
      else (Ok (Redirect_to ROUTE_INIT_CONSENSUS), u))"

definition ui_step :: "ui_env \<Rightarrow> http \<Rightarrow> ui_state \<Rightarrow> ui_result" where
  "ui_step env req =
     require_auth req (consensus_init_guard req (route env (http_session req) (http_request req)))"

definition login_redirect_path :: "(string \<Rightarrow> string) \<Rightarrow> string option \<Rightarrow> string" where
  "login_redirect_path url_encode redirect = (case redirect of
      Some path \<Rightarrow> ROUTE_LOGIN @ ''?redirect='' @ url_encode path | None \<Rightarrow> ROUTE_LOGIN)"

text \<open>How long a response of a content type may be cached, in seconds.\<close>

definition cache_control :: "string option \<Rightarrow> nat option" where
  "cache_control content_type = (case content_type of
      None \<Rightarrow> None
    | Some ct \<Rightarrow>
        if take (length ''text/css'') ct = ''text/css'' then Some (10 * 60)
        else if take (length ''text/html'') ct = ''text/html'' then None
        else Some (60 * 60))"

subsection \<open>Values of the meta module in forms\<close>

text \<open>\<open>std::str::from_utf8\<close>: the well-formed byte sequences.\<close>

definition cont :: "byte \<Rightarrow> bool" where
  "cont b \<longleftrightarrow> 0x80 \<le> b \<and> b \<le> 0xBF"

fun utf8_ok :: "byte list \<Rightarrow> bool" where
  "utf8_ok [] \<longleftrightarrow> True"
| "utf8_ok (a # r) \<longleftrightarrow>
     (if a < 0x80 then utf8_ok r
      else case r of [] \<Rightarrow> False
      | b # r1 \<Rightarrow>
          if 0xC2 \<le> a \<and> a \<le> 0xDF then cont b \<and> utf8_ok r1
          else case r1 of [] \<Rightarrow> False
          | c # r2 \<Rightarrow>
              if 0xE0 \<le> a \<and> a \<le> 0xEF then
                (if a = 0xE0 then 0xA0 \<le> b \<and> b \<le> 0xBF else if a = 0xED then 0x80 \<le> b \<and> b \<le> 0x9F else cont b) \<and>
                cont c \<and> utf8_ok r2
              else case r2 of [] \<Rightarrow> False
              | d # r3 \<Rightarrow>
                  0xF0 \<le> a \<and> a \<le> 0xF4 \<and>
                  (if a = 0xF0 then 0x90 \<le> b \<and> b \<le> 0xBF else if a = 0xF4 then 0x80 \<le> b \<and> b \<le> 0x8F else cont b) \<and>
                  cont c \<and> cont d \<and> utf8_ok r3)"

text \<open>The bytes of \<open>0x\<close>.\<close>

definition hex_prefix :: "byte list \<Rightarrow> bool" where
  "hex_prefix s \<longleftrightarrow> take 2 s = [48, 120] \<or> take 2 s = [48, 88]"

definition meta_value_deserialize :: "(byte list \<Rightarrow> byte list option) \<Rightarrow> byte list \<Rightarrow> meta_value option" where
  "meta_value_deserialize hex_decode s = (if hex_prefix s then hex_decode (drop 2 s) else Some s)"

text \<open>The value that the form of the \<open>Approve\<close> button carries.\<close>

definition render_meta_value :: "(byte list \<Rightarrow> byte list) \<Rightarrow> meta_value \<Rightarrow> byte list" where
  "render_meta_value hex_encode value = (if utf8_ok value then value else [48, 120] @ hex_encode value)"

subsection \<open>Who can change the node\<close>

text \<open>A request of somebody who has neither a session nor the password.\<close>

definition stranger :: "crypto \<Rightarrow> ui_state \<Rightarrow> http \<Rightarrow> bool" where
  "stranger cr u req \<longleftrightarrow> http_session req \<notin> us_sessions u \<and>
     (case http_request req of
        PostLogin t p r \<Rightarrow> (\<forall>x \<in> set (p # (case t of Some y \<Rightarrow> [y] | None \<Rightarrow> [])).
          blake3 cr (utf8 (trim x)) \<noteq> ui_pass_hash (us_pass u))
      | _ \<Rightarrow> True)"

lemma path_is_login:
  "req_path q = ROUTE_LOGIN \<longleftrightarrow> (case q of PostLogin _ _ _ \<Rightarrow> True | GetPage p \<Rightarrow> p = ROUTE_LOGIN | _ \<Rightarrow> False)"
  by (cases q) (simp_all add: ROUTE_LOGIN_def ROUTE_INIT_CONSENSUS_def module_path_def meta_key_path_def)

lemma stranger_step:
  assumes "stranger (env_crypto (ue_app env)) u req"
  shows "snd (ui_step env req u) = u"
proof (cases "req_path (http_request req) = ROUTE_LOGIN")
  case True
  then show ?thesis
    using assms by (cases "http_request req")
      (auto simp: path_is_login ui_step_def require_auth_def consensus_init_guard_def login_post_def Let_def stranger_def
        ROUTE_LOGIN_def ROUTE_INIT_CONSENSUS_def split: option.splits)
next
  case False
  then show ?thesis using assms by (simp add: ui_step_def require_auth_def Let_def stranger_def)
qed

text \<open>C24. Nothing but the password opens the web interface. Whatever requests are sent, in whatever order, by somebody
  who has no session and does not know a text of the stored hash, they change nothing of the node: no vote is cast, no
  federation created or joined, no password set, no session opened.\<close>

theorem ui_needs_password:
  assumes "list_all (stranger (env_crypto (ue_app env)) u) reqs"
  shows "fold (\<lambda>r v. snd (ui_step env r v)) reqs u = u"
  using assms
proof (induction reqs)
  case (Cons req reqs)
  then have "snd (ui_step env req u) = u" by (simp add: stranger_step)
  with Cons show ?case by simp
qed simp

theorem ui_needs_password_witness:
  "\<forall>env app. let u = \<lparr>us_pass = \<lparr>ui_pass_hash = blake3 (env_crypto (ue_app env)) (utf8 (trim [97])) + 1,
        ui_pass_is_temporary = False, ui_pass_row = None\<rparr>, us_sessions = {3}, us_initialized = True,
      us_addrs = addr_db_empty, us_app = app\<rparr> in
     fold (\<lambda>r v. snd (ui_step env r v))
       [\<lparr>http_session = 1, http_referer_path = None, http_request = PostLogin None [97] None\<rparr>,
        \<lparr>http_session = 1, http_referer_path = None, http_request = PostAddPeerVote 0 7\<rparr>,
        \<lparr>http_session = 2, http_referer_path = None, http_request = PostInit None\<rparr>] u = u"
  unfolding Let_def by (intro allI ui_needs_password) (simp add: stranger_def)

subsection \<open>A password with spaces around it\<close>

lemma dropWhile_rev_trim:
  assumes "dropWhile p t = t"
  shows "dropWhile p (rev (dropWhile p (rev t))) = rev (dropWhile p (rev t))"
proof -
  let ?x = "rev (dropWhile p (rev t))"
  have t: "t = ?x @ rev (takeWhile p (rev t))" by (metis rev_append rev_rev_ident takeWhile_dropWhile_id)
  show ?thesis
  proof (cases "dropWhile p (rev t)" rule: rev_cases)
    case (snoc cs c)
    then have "hd t = c" "t \<noteq> []" using t by (metis append_Cons list.sel(1) rev_eq_Cons_iff rev_rev_ident, force)
    then have "\<not> p c" using assms by (metis dropWhile_eq_self_iff)
    then show ?thesis using snoc by simp
  qed (simp only: rev.simps dropWhile.simps)
qed

lemma dropWhile_idem: "dropWhile p (dropWhile p s) = dropWhile p s"
  by (induction s) simp_all

lemma trim_idem: "trim (trim s) = trim s"
  unfolding trim_def by (simp add: dropWhile_rev_trim dropWhile_idem)

text \<open>C25. A password is of use only without spaces around it. After the first sign-in, which sets the password, some text signs
  in again if and only if the password is its own trimmed form: what is hashed then is the password as typed, what
  is hashed at a sign-in is the trimmed text. A restart does not help, it loads the same hash. The hypothesis is that the password
  shares its hash with no trimmed text but itself.\<close>

theorem sign_in_after_password_change:
  assumes temp: "ui_pass_is_temporary (us_pass u)" "blake3 cr (utf8 (trim t)) = ui_pass_hash (us_pass u)"
    and hash: "\<forall>f. blake3 cr (utf8 (trim f)) = blake3 cr (utf8 pw) \<longrightarrow> trim f = pw"
  shows "\<exists>v u'. login_post cr session (Some t) pw redirect u = (Ok v, u') \<and>
    new_ui_pass cr None random_pass (ui_pass_row (us_pass u')) = us_pass u' \<and>
    ((\<exists>session' t' f redirect' v'. fst (login_post cr session' t' f redirect' u') = Ok v') \<longleftrightarrow> trim pw = pw)"
proof -
  let ?p = "change_ui_pass cr pw (us_pass u)"
  let ?u = "u\<lparr>us_pass := ?p, us_sessions := insert session (us_sessions u)\<rparr>"
  have p: "ui_pass_hash ?p = blake3 cr (utf8 pw)" "\<not> ui_pass_is_temporary ?p" "ui_pass_row ?p = Some (blake3 cr (utf8 pw))"
    by (simp_all add: change_ui_pass_def change_ui_pass_db_static_def Let_def)
  have f: "(\<exists>v'. fst (login_post cr s' t' f r' ?u) = Ok v') \<longleftrightarrow> blake3 cr (utf8 (trim f)) = blake3 cr (utf8 pw)" for s' t' f r'
    using p by (simp add: login_post_def Let_def)
  have "(\<exists>f. blake3 cr (utf8 (trim f)) = blake3 cr (utf8 pw)) \<longleftrightarrow> trim pw = pw"
    using hash trim_idem by metis
  then have "(\<exists>session' t' f redirect' v'. fst (login_post cr session' t' f redirect' ?u) = Ok v') \<longleftrightarrow> trim pw = pw"
    using f by blast
  moreover have "\<exists>v. login_post cr session (Some t) pw redirect u = (Ok v, ?u)" using temp by (simp add: login_post_def Let_def)
  moreover have "new_ui_pass cr None random_pass (ui_pass_row ?p) = ?p"
    using p by (simp add: new_ui_pass_def load_ui_pass_hash_def Let_def)
  ultimately show ?thesis by fastforce
qed

lemma utf8_char_ne: "utf8_char c \<noteq> []"
  by (simp add: utf8_char_def)

lemma utf8_space: "utf8 s = [32] \<longleftrightarrow> s = [32]"
proof
  assume u: "utf8 s = [32]"
  then obtain c cs where s: "s = c # cs" by (cases s) (simp_all add: utf8_def)
  have "cs = []" using u s utf8_char_ne by (cases cs; cases "utf8_char c"; cases "utf8_char (hd cs)") (auto simp: utf8_def)
  moreover have "c < 128" using u s by (auto simp: utf8_def utf8_char_def split: if_splits)
  ultimately have "(of_nat c :: byte) = 32" "c < 128" using u s by (simp_all add: utf8_def utf8_char_def)
  moreover have "unat (of_nat c :: byte) = c" using \<open>c < 128\<close> by (simp add: unsigned_of_nat take_bit_nat_eq_self)
  ultimately have "c = 32" by simp
  then show "s = [32]" using s \<open>cs = []\<close> by simp
qed (simp add: utf8_def utf8_char_def)

definition space_crypto :: crypto where
  "space_crypto = test_crypto\<lparr>blake3 := (\<lambda>bs. if bs = [32] then 1 else 0)\<rparr>"

theorem sign_in_after_password_change_witness:
  "\<forall>app. \<exists>v u'. login_post space_crypto 1 (Some [97]) [32] None
      \<lparr>us_pass = \<lparr>ui_pass_hash = 0, ui_pass_is_temporary = True, ui_pass_row = None\<rparr>, us_sessions = {}, us_initialized = False,
       us_addrs = addr_db_empty, us_app = app\<rparr> = (Ok v, u') \<and>
     \<not> (\<exists>session t f redirect v'. fst (login_post space_crypto session t f redirect u') = Ok v')"
proof
  fix app
  let ?u = "\<lparr>us_pass = \<lparr>ui_pass_hash = 0, ui_pass_is_temporary = True, ui_pass_row = None\<rparr>, us_sessions = {}, us_initialized = False,
    us_addrs = addr_db_empty, us_app = app\<rparr>"
  have h: "\<forall>f. blake3 space_crypto (utf8 (trim f)) = blake3 space_crypto (utf8 [32]) \<longrightarrow> trim f = [32]"
    by (simp add: space_crypto_def utf8_space)
  have t: "trim [32] \<noteq> [32]" "trim [97] = [97]" by (simp_all add: trim_def is_whitespace_def)
  have "blake3 space_crypto (utf8 (trim [97])) = ui_pass_hash (us_pass ?u)"
    by (simp add: t(2) space_crypto_def utf8_space)
  from sign_in_after_password_change [OF _ this h, of 1 None "[]"] t(1)
  show "\<exists>v u'. login_post space_crypto 1 (Some [97]) [32] None ?u = (Ok v, u') \<and>
     \<not> (\<exists>session t f redirect v'. fst (login_post space_crypto session t f redirect u') = Ok v')" by auto
qed

subsection \<open>Approving a value\<close>

text \<open>C26. The \<open>Approve\<close> button votes for the value it shows, except for a text that starts with \<open>0x\<close>: a form that
  carries it is read as hexadecimal digits and stands for another value or none. The hypotheses on the \<open>hex\<close> encoder are
  that decoding undoes encoding and halves the length.\<close>

theorem approved_value_roundtrip:
  assumes "\<forall>v. hex_decode (hex_encode v) = Some v" "\<forall>s v. hex_decode s = Some v \<longrightarrow> length s = 2 * length v"
  shows "meta_value_deserialize hex_decode (render_meta_value hex_encode mv) = Some mv \<longleftrightarrow>
    \<not> (utf8_ok mv \<and> hex_prefix mv)"
proof (cases "utf8_ok mv \<and> hex_prefix mv")
  case True
  then have l: "2 \<le> length mv" by (cases mv rule: remdups_adj.cases) (auto simp: hex_prefix_def)
  have "hex_decode (drop 2 mv) \<noteq> Some mv"
  proof
    assume "hex_decode (drop 2 mv) = Some mv"
    with assms(2) have "length (drop 2 mv) = 2 * length mv" by blast
    with l show False by simp
  qed
  with True show ?thesis by (simp add: meta_value_deserialize_def render_meta_value_def)
next
  case False
  then show ?thesis using assms(1) by (auto simp: meta_value_deserialize_def render_meta_value_def hex_prefix_def)
qed

text \<open>An encoder that writes every byte twice.\<close>

fun twice :: "byte list \<Rightarrow> byte list" where
  "twice [] = []"
| "twice (b # bs) = b # b # twice bs"

fun half_list :: "byte list \<Rightarrow> byte list option" where
  "half_list [] = Some []"
| "half_list [b] = None"
| "half_list (b # c # bs) = map_option (\<lambda>v. b # v) (half_list bs)"

theorem approved_value_roundtrip_witness:
  "meta_value_deserialize half_list (render_meta_value twice [48, 120, 52]) \<noteq> Some [48, 120, 52] \<and>
   meta_value_deserialize half_list (render_meta_value twice [255]) = Some [255]"
proof -
  have d: "half_list (twice v) = Some v" for v by (induction v) simp_all
  have l: "half_list s = Some v \<Longrightarrow> length s = 2 * length v" for s v
    by (induction s arbitrary: v rule: half_list.induct) auto
  note r = approved_value_roundtrip [of half_list twice]
  have "utf8_ok [48, 120, 52]" "hex_prefix [48, 120, 52]" "\<not> utf8_ok [255]" by (simp_all add: hex_prefix_def)
  then show ?thesis using r [of "[48, 120, 52]"] r [of "[255]"] d l by blast
qed

end
