(* ===== verification/Bfte_Main.thy ===== *)
theory Bfte_Main
  imports Node_Ui
begin

section \<open>The command line and the start of a node\<close>

text \<open>
  \<open>bfte/src/lib.rs\<close> and \<open>bfte/src/opts.rs\<close>, the command line, and the parts of
  \<open>node/src/node.rs\<close> that it calls: \<open>Node::new\<close>, \<open>consensus_init_static\<close>, \<open>consensus_join_static\<close>
  and \<open>run\<close> up to the start of the tasks.

  \<open>disk\<close> is what the database file holds of the consensus, of the address book and of the password;
  the tables of the application are not touched before its task runs. Without a data directory a
  command works on an empty database that is gone when the process ends. What comes from outside is
  the record \<open>start_env\<close>, \<open>None\<close> meaning that a call succeeds. What a join
  leaves in the tables of the consensus when its last step panics is not tracked.
\<close>

datatype commands =
    GenSecret
  | InitCmd (init_run: bool) (extra_peers: "peer_pubkey list")
  | JoinCmd (join_run: bool) (join_invite_arg: invite)
  | RunCmd

record opts =
  opt_data_dir :: bool
  opt_force_ui_password :: "utext option"
  opt_secret_path :: bool
  opt_command :: commands

record disk =
  dk_cons :: cons_db
  dk_addrs :: addr_db
  dk_pass :: "hash option"

record start_env =
  se_crypto :: crypto
  se_hkdf :: "hash \<Rightarrow> byte list \<Rightarrow> hash"
  se_pubkey :: "peer_seckey \<Rightarrow> peer_pubkey"
  se_entropy :: "utext \<Rightarrow> (string, byte list) res"
  se_mnemonic :: "byte list \<Rightarrow> utext"
  se_now :: timestamp
  se_random_secret :: hash
  se_random_pass :: utext
  se_node_id :: hash
  se_addr_enc :: "address_update \<Rightarrow> byte list"
  se_dial :: "peer_address \<Rightarrow> (string, connection) res"
  se_logging :: "string option"
  se_secret_file :: "(string, utext) res"
  se_make_dir :: "string option"
  se_open_db :: "string option"
  se_endpoint :: "string option"

definition opt_ctx :: "string \<Rightarrow> string option \<Rightarrow> (whatever, unit) res" where
  "opt_ctx msg answer = (case answer of None \<Rightarrow> Ok () | Some _ \<Rightarrow> Err msg)"

definition whatever_context :: "string \<Rightarrow> ('e, 'a) res \<Rightarrow> (whatever, 'a) res" where
  "whatever_context msg r = map_err (\<lambda>_. msg) r"

subsection \<open>A new node\<close>

datatype node_new_error = NewSecret level_error | NewIrohEndpoint string

record started_node =
  sn_keys :: node_keys
  sn_pass :: ui_pass
  sn_consensus :: "cons_state option"
  sn_initialized :: bool
  sn_app_ack :: block_round
  sn_pending :: "transaction list"
  sn_finality_tasks :: "peer_pubkey list"
  sn_ctrl_version :: consensus_version

definition make_iroh_endpoint :: "start_env \<Rightarrow> (string, unit) res" where
  "make_iroh_endpoint env = (case se_endpoint env of None \<Rightarrow> Ok () | Some e \<Rightarrow> Err e)"

text \<open>\<open>insert_own_address_update\<close> at the end of \<open>Node::new\<close>; its error is logged.\<close>

definition own_address :: "start_env \<Rightarrow> node_keys \<Rightarrow> addr_db \<Rightarrow> (node_new_error, addr_db) res" where
  "own_address env keys a =
     res_bind (case root_secret keys of None \<Rightarrow> Ok None
       | Some _ \<Rightarrow> res_bind (get_peer_secret_expect (se_hkdf env) keys) (\<lambda>sk. Ok (Some sk))) (\<lambda>sk.
     case insert_own_address_update (se_crypto env) (se_addr_enc env) (se_pubkey env) (se_now env) (se_node_id env) sk a of
       Ok a' \<Rightarrow> Ok a'
     | Err _ \<Rightarrow> Ok a
     | Panic m \<Rightarrow> Panic m)"

definition node_new ::
  "start_env \<Rightarrow> deriveable_secret option \<Rightarrow> consensus_version \<Rightarrow> utext option \<Rightarrow> disk \<Rightarrow>
     (node_new_error, started_node) res \<times> disk" where
  "node_new env secret version force_ui_password d =
     (case res_bind (map_err NewSecret (new_node_keys (se_hkdf env) (se_pubkey env) secret)) (\<lambda>keys.
        res_bind (map_err NewIrohEndpoint (make_iroh_endpoint env)) (\<lambda>_. Ok keys)) of
        Err e \<Rightarrow> (Err e, d)
      | Panic m \<Rightarrow> (Panic m, d)
      | Ok keys \<Rightarrow>
          (let pass = new_ui_pass (se_crypto env) force_ui_password (se_random_pass env) (dk_pass d);
               d1 = d\<lparr>dk_pass := ui_pass_row pass\<rparr>;
               opened = cons_open (se_crypto env) (dk_cons d1) (own_pubkey keys);
               consensus = (case opened of Ok s \<Rightarrow> Some s | _ \<Rightarrow> None);
               d2 = (case opened of Ok s \<Rightarrow> d1\<lparr>dk_cons := fst s\<rparr> | _ \<Rightarrow> d1) in
           case opened of
             Panic m \<Rightarrow> (Panic m, d1)
           | _ \<Rightarrow>
               (case own_address env keys (dk_addrs d2) of
                  Panic m \<Rightarrow> (Panic m, d2)
                | Err e \<Rightarrow> (Err e, d2)
                | Ok a \<Rightarrow>
                    (Ok \<lparr>sn_keys = keys, sn_pass = pass, sn_consensus = consensus,
                        sn_initialized = (consensus \<noteq> None), sn_app_ack = 0, sn_pending = [],
                        sn_finality_tasks = [], sn_ctrl_version = version\<rparr>,
                     d2\<lparr>dk_addrs := a\<rparr>))))"

subsection \<open>The consensus of a node\<close>

definition node_consensus :: "started_node \<Rightarrow> cons_state option" where
  "node_consensus n = sn_consensus n"

definition consensus_expect :: "started_node \<Rightarrow> ('e, cons_state) res" where
  "consensus_expect n = expect ''Must be called only when consensus is running'' (sn_consensus n)"

text \<open>\<open>consensus_wait\<close> waits for the channel that tells of the initialization; \<open>None\<close> is a wait.\<close>

definition consensus_wait :: "started_node \<Rightarrow> ('e, cons_state) res option" where
  "consensus_wait n = (if sn_initialized n then Some (consensus_expect n) else None)"

text \<open>\<open>run\<close> up to the start of its three tasks, with the invite that it prints; \<open>None\<close> is the wait for a
  federation to be created or joined in the web interface.\<close>

definition node_run :: "start_env \<Rightarrow> started_node \<Rightarrow> (whatever, invite) res option" where
  "node_run env n =
     (if \<not> sn_initialized n then None
      else Some (generate_invite_code (se_crypto env) (se_node_id env) (node_consensus n)))"

subsection \<open>Commands\<close>

text \<open>
  \<open>consensus_init_static\<close>: \<open>Consensus::init\<close> writes the parameters in a transaction of its own, so a panic in
  what follows leaves them in the database.
\<close>

definition init_db :: "crypto \<Rightarrow> consensus_params \<Rightarrow> (init_error, cons_state) res \<Rightarrow> cons_db \<Rightarrow> cons_db" where
  "init_db cr params r d = (case r of
      Ok s \<Rightarrow> fst s
    | Err _ \<Rightarrow> d
    | Panic _ \<Rightarrow> (case init_tx cr params None d of Ok (_, d1) \<Rightarrow> d1 | _ \<Rightarrow> d))"

definition consensus_init_static ::
  "start_env \<Rightarrow> deriveable_secret \<Rightarrow> peer_pubkey list \<Rightarrow> consensus_version \<Rightarrow> disk \<Rightarrow>
     (node_init_error, cons_state) res \<times> disk" where
  "consensus_init_static env secret extra version d =
     (case map_err InitSecret (consensus_init_params (se_hkdf env) (se_pubkey env) secret extra version (se_now env)) of
        Err e \<Rightarrow> (Err e, d)
      | Panic m \<Rightarrow> (Panic m, d)
      | Ok (k, params) \<Rightarrow>
          (let r = cons_init (se_crypto env) params (dk_cons d) (Some k) None in
           (map_err ConsensusInit r, d\<lparr>dk_cons := init_db (se_crypto env) params r (dk_cons d)\<rparr>)))"

definition consensus_join_static ::
  "start_env \<Rightarrow> invite \<Rightarrow> peer_pubkey option \<Rightarrow> disk \<Rightarrow> (string, cons_state) res \<times> addr_db" where
  "consensus_join_static env invite our d =
     (case res_bind (make_iroh_endpoint env) (\<lambda>_. se_dial env (inv_address invite)) of
        Err e \<Rightarrow> (Err e, dk_addrs d)
      | Panic m \<Rightarrow> (Panic m, dk_addrs d)
      | Ok conn \<Rightarrow> consensus_join (se_crypto env) (se_addr_enc env) conn invite our (dk_cons d) (dk_addrs d))"

datatype outcome =
    SecretPrinted peer_pubkey utext
  | CommandDone
  | NodeStarted started_node

text \<open>What a command does to the database; \<open>Some\<close> outcome ends the process, \<open>None\<close> goes on to the node.\<close>

definition gen_secret :: "start_env \<Rightarrow> (whatever, outcome) res" where
  "gen_secret env =
     (let root = \<lparr>secret_bytes = se_random_secret env, level = 0\<rparr> in
      res_bind (expect ''Just generated'' (case get_peer_seckey (se_hkdf env) root of Ok k \<Rightarrow> Some k | _ \<Rightarrow> None)) (\<lambda>sk.
      Ok (SecretPrinted (se_pubkey env sk) (secret_to_str (se_mnemonic env) root))))"

definition open_db :: "start_env \<Rightarrow> (whatever, unit) res" where
  "open_db env = opt_ctx ''Failed to open database'' (se_open_db env)"

definition ends_unless :: "bool \<Rightarrow> outcome option" where
  "ends_unless run = (if run then None else Some CommandDone)"

definition run_command ::
  "start_env \<Rightarrow> commands \<Rightarrow> deriveable_secret option \<Rightarrow> peer_pubkey option \<Rightarrow> consensus_version \<Rightarrow> disk \<Rightarrow>
     (whatever, outcome option) res \<times> disk" where
  "run_command env cmd secret our version d = (case cmd of
      GenSecret \<Rightarrow> (res_bind (gen_secret env) (\<lambda>oc. Ok (Some oc)), d)
    | JoinCmd run invite \<Rightarrow> (case open_db env of
        Err e \<Rightarrow> (Err e, d) | Panic m \<Rightarrow> (Panic m, d)
      | Ok _ \<Rightarrow>
          (case consensus_join_static env invite our d of (r, a) \<Rightarrow>
             (let d1 = d\<lparr>dk_addrs := a\<rparr> in
              case whatever_context ''Failed to join consensus'' r of
                Err e \<Rightarrow> (Err e, d1)
              | Panic m \<Rightarrow> (Panic m, d1)
              | Ok s \<Rightarrow> (Ok (ends_unless run), d1\<lparr>dk_cons := fst s\<rparr>))))
    | InitCmd run extra \<Rightarrow> (case open_db env of
        Err e \<Rightarrow> (Err e, d) | Panic m \<Rightarrow> (Panic m, d)
      | Ok _ \<Rightarrow> (case secret of
          None \<Rightarrow> (Err ''Secret must be provided to create a new federation'', d)
        | Some s \<Rightarrow> (case consensus_init_static env s extra version d of (r, d1) \<Rightarrow>
            (res_bind (whatever_context ''Failed to create consensus'' r) (\<lambda>_. Ok (ends_unless run)), d1))))
    | RunCmd \<Rightarrow> (res_bind (open_db env) (\<lambda>_. Ok None), d))"

subsection \<open>The program\<close>

definition init_kind :: "dyn_module_init \<Rightarrow> module_kind" where
  "init_kind i = (case i of CtrlModuleInit \<Rightarrow> MODULE_KIND_CONSENSUS_CTRL | MetaModuleInit \<Rightarrow> MODULE_KIND_META)"

type_synonym inits = "(module_kind, dyn_module_init) table"

definition with_module_init :: "dyn_module_init \<Rightarrow> inits \<Rightarrow> ('e, inits) res" where
  "with_module_init i t =
     (if tbl_get t (init_kind i) \<noteq> None then Panic ''Multiple module inits of the same kind''
      else Ok (tbl_insert (init_kind i) i t))"

definition insert_ctrl_init :: "inits \<Rightarrow> ('e, inits) res" where
  "insert_ctrl_init t =
     (if tbl_get t MODULE_KIND_CONSENSUS_CTRL \<noteq> None
      then Panic ''Bfte has a redundant ConsensusCtrlModuleInit already inserted''
      else Ok (tbl_insert MODULE_KIND_CONSENSUS_CTRL CtrlModuleInit t))"

definition read_secret :: "start_env \<Rightarrow> opts \<Rightarrow> (whatever, deriveable_secret option) res" where
  "read_secret env op =
     (if opt_secret_path op then
        res_bind (whatever_context ''Failed to read secret file'' (se_secret_file env)) (\<lambda>text.
        res_bind (whatever_context ''Failed to parse secret'' (secret_from_str (se_entropy env) (trim text))) (\<lambda>s.
        Ok (Some s)))
      else Ok None)"

definition secret_pubkey :: "start_env \<Rightarrow> deriveable_secret option \<Rightarrow> ('e, peer_pubkey option) res" where
  "secret_pubkey env secret = (case secret of
      None \<Rightarrow> Ok None
    | Some s \<Rightarrow>
        res_bind (expect ''Just created, must be root''
            (case get_peer_seckey (se_hkdf env) s of Ok k \<Rightarrow> Some k | _ \<Rightarrow> None)) (\<lambda>sk.
        Ok (Some (se_pubkey env sk))))"

text \<open>Everything before the command: the secret, the own key and the version for a new federation.\<close>

definition prepare ::
  "start_env \<Rightarrow> opts \<Rightarrow> inits \<Rightarrow>
     (whatever, deriveable_secret option \<times> peer_pubkey option \<times> consensus_version) res" where
  "prepare env op t =
     res_bind (insert_ctrl_init t) (\<lambda>modules_inits.
     res_bind (opt_ctx ''init_logging'' (se_logging env)) (\<lambda>_.
     res_bind (read_secret env op) (\<lambda>secret.
     res_bind (secret_pubkey env secret) (\<lambda>our.
     res_bind (if opt_data_dir op then opt_ctx ''Failed to create/open data dir'' (se_make_dir env) else Ok ()) (\<lambda>_.
     res_bind (expect ''Must have ConsensusCtrlModuleInit'' (tbl_get modules_inits MODULE_KIND_CONSENSUS_CTRL)) (\<lambda>i.
     res_bind (latest_version (init_data i)) (\<lambda>version.
     Ok (secret, our, version))))))))"

definition empty_disk :: disk where
  "empty_disk = \<lparr>dk_cons = cons_db_empty, dk_addrs = addr_db_empty, dk_pass = None\<rparr>"

text \<open>The command and then the node, on the database that the process opened.\<close>

definition bfte_work ::
  "start_env \<Rightarrow> opts \<Rightarrow> deriveable_secret option \<Rightarrow> peer_pubkey option \<Rightarrow> consensus_version \<Rightarrow> disk \<Rightarrow>
     (whatever, outcome) res \<times> disk" where
  "bfte_work env op secret our version d =
     (case run_command env (opt_command op) secret our version d of
        (Err e, d1) \<Rightarrow> (Err e, d1)
      | (Panic m, d1) \<Rightarrow> (Panic m, d1)
      | (Ok (Some oc), d1) \<Rightarrow> (Ok oc, d1)
      | (Ok None, d1) \<Rightarrow>
          (case node_new env secret version (opt_force_ui_password op) d1 of (r, d2) \<Rightarrow>
             (res_bind (whatever_context ''Failed to build node'' r) (\<lambda>n. Ok (NodeStarted n)), d2)))"

definition bfte_build :: "start_env \<Rightarrow> opts \<Rightarrow> inits \<Rightarrow> disk \<Rightarrow> (whatever, outcome) res \<times> disk" where
  "bfte_build env op t d =
     (case prepare env op t of
        Err e \<Rightarrow> (Err e, d)
      | Panic m \<Rightarrow> (Panic m, d)
      | Ok (secret, our, version) \<Rightarrow>
          (if opt_data_dir op then bfte_work env op secret our version d
           else (fst (bfte_work env op secret our version empty_disk), d)))"

subsection \<open>A database with too many peers\<close>

definition oversized :: "cons_db \<Rightarrow> bool" where
  "oversized d \<longleftrightarrow> get_current_round d = 0 \<and> (\<forall>r. tbl_get (cons_blocks_notarized d) r = None) \<and>
     (\<exists>p. params_at d 0 = Some p \<and> 255 < length (peers p))"

lemma oversized_prev: "oversized d \<Longrightarrow> get_prev_notarized_block d r = None"
  by (simp add: oversized_def prev_notarized_None_iff)

lemma oversized_update: "oversized d \<Longrightarrow> oversized (d\<lparr>cons_finality_votes := t\<rparr>)"
  by (simp add: oversized_def params_at_def get_current_round_def)

lemma oversized_params: "oversized d \<Longrightarrow> \<exists>p. get_consensus_params d 0 = (Ok p :: ('e, _) res) \<and> 255 < length (peers p)"
  by (auto simp: oversized_def get_consensus_params_Ok_iff)

lemma oversized_check_round_end:
  assumes "oversized (dbtx tx)"
  shows "\<exists>m. check_round_end cr our 0 tx = Panic m"
proof -
  obtain p where p: "get_consensus_params (dbtx tx) 0 = (Ok p :: (round_invariant_error, _) res)" "255 < length (peers p)"
    using oversized_params [OF assms] by blast
  then have "round_body cr 0 None 0 None (dbtx tx) = Panic ''ToNumPeers used for Vec of size larger than u8''"
    by (simp add: round_body_def num_peers_def to_num_peers_def)
  then show ?thesis using oversized_prev [OF assms] by (simp add: check_round_end_def round_loop.simps)
qed

lemma oversized_open_tx:
  assumes "oversized (dbtx tx)"
  shows "\<exists>m. open_internal_tx cr our 0 v tx = Panic m"
proof (cases our)
  case None
  then show ?thesis using oversized_check_round_end [OF assms] by (simp add: open_internal_tx_def)
next
  case (Some k)
  let ?tx = "upd (\<lambda>_. snd (update_finality_vote k v (dbtx tx))) tx"
  have o1: "oversized (dbtx ?tx)" using oversized_update [OF assms] by (simp add: update_finality_vote_def)
  obtain p where p: "get_consensus_params (dbtx ?tx) 0 = (Ok p :: (round_invariant_error, _) res)" "255 < length (peers p)"
    using oversized_params [OF o1] by blast
  then have "\<exists>m. recalculate_finality_consensus_tx 0 ?tx = (Panic m :: (round_invariant_error, _) res)"
    by (simp add: recalculate_finality_consensus_tx_def to_num_peers_def)
  then have "(\<exists>m. update_peer_finality_vote_round 0 k v tx = (Panic m :: (round_invariant_error, _) res)) \<or>
      update_peer_finality_vote_round 0 k v tx = (Ok ?tx :: (round_invariant_error, _) res)"
    by (auto simp: update_peer_finality_vote_round_def Let_def)
  then show ?thesis
    using oversized_check_round_end [OF o1, of cr our] Some by (auto simp: open_internal_tx_def)
qed

lemma oversized_open_internal:
  assumes "oversized d"
  shows "\<exists>m. open_internal cr our 0 d = (Panic m :: ('e, _) res)"
proof -
  obtain c where c: "open_channels 0 d = (Ok c :: ('e, _) res)"
    using oversized_prev [OF assms] by (simp add: open_channels_def)
  obtain m where "open_internal_tx cr our 0 (finality_self_vote c) (wtx_new d) = Panic m"
    using oversized_open_tx [of "wtx_new d" cr our "finality_self_vote c"] assms by auto
  then have "write_with_expect_falliable run_hook (unit_tx (open_internal_tx cr our 0 (finality_self_vote c))) (d, c) =
      (Panic m, d, c)"
    by (simp add: write_with_expect_falliable_def unit_tx_def)
  then show ?thesis using c by (simp add: open_internal_def)
qed

lemma oversized_open: "oversized d \<Longrightarrow> \<exists>m. cons_open cr d our = Panic m"
  using oversized_params [of d] oversized_open_internal [of d cr our]
  by (auto simp: cons_open_def open_tx_def get_consensus_params_Ok_iff oversized_def get_consensus_params_opt_def
      params_at_def split: option.splits)

text \<open>No second \<open>init\<close> or \<open>join\<close> gets past such a database.\<close>

lemma oversized_init_tx:
  assumes "oversized d" "init_tx cr params pinned d = Ok (cur, d1)"
  shows "oversized d1 \<and> cur = 0"
proof -
  obtain p where p: "get_current_round d = 0" "\<forall>r. tbl_get (cons_blocks_notarized d) r = None" "params_at d 0 = Some p"
    "255 < length (peers p)"
    using assms(1) by (auto simp: oversized_def)
  obtain k h where e: "last_entry (\<lambda>k. k \<le> 0) (entries (cons_params_schedule d)) = Some (k, h)" "tbl_get (cons_params d) h = Some p"
    using p(3) by (auto simp: params_at_def split: option.splits)
  then have g: "tbl_get (cons_params_schedule d) 0 = Some h" by (auto simp: tb.last_Some)
  define d0 where "d0 = d\<lparr>cons_params_schedule := tbl_insert 0 (params_hash cr params) (cons_params_schedule d)\<rparr>"
  have h: "params_hash cr params = h" and d1: "d1 = (case pinned of None \<Rightarrow> d0 | Some (r, h) \<Rightarrow>
      d0\<lparr>cons_blocks_pinned := tbl_insert r h (cons_blocks_pinned d0)\<rparr>)" and c: "cur = get_current_round d1"
    using assms(2) g by (cases pinned; auto simp: init_tx_def insert_consensus_params_def Let_def res_simps d0_def)+
  have "last_entry (\<lambda>k. k \<le> 0) (entries (tbl_insert 0 h (cons_params_schedule d))) = Some (0, h)"
    by (auto simp: tb.last_Some)
  then have "params_at d1 0 = Some p" using e(2) by (auto simp: d1 d0_def h params_at_def split: option.split)
  moreover have "get_current_round d1 = 0" "\<forall>r. tbl_get (cons_blocks_notarized d1) r = None"
    using p(1,2) by (auto simp: d1 d0_def get_current_round_def split: option.split)
  ultimately show ?thesis using p(4) c by (simp add: oversized_def)
qed

lemma oversized_init:
  assumes "oversized d"
  shows "cons_init cr params d our pinned \<noteq> Ok s"
    "oversized (init_db cr params (cons_init cr params d our None) d)"
proof -
  have no: "cons_init cr params d our pinned \<noteq> Ok s" for our pinned s
  proof
    assume "cons_init cr params d our pinned = Ok s"
    then obtain cur d1 where i: "init_tx cr params pinned d = Ok (cur, d1)"
      and o1: "open_internal cr our cur d1 = (Ok s :: (init_error, _) res)"
      by (auto simp: cons_init_def res_simps)
    from oversized_init_tx [OF assms i] oversized_open_internal [of d1 cr our, where 'e = init_error] o1 show False by auto
  qed
  then show "cons_init cr params d our pinned \<noteq> Ok s" .
  show "oversized (init_db cr params (cons_init cr params d our None) d)"
    using no assms oversized_init_tx [OF assms] by (auto simp: init_db_def split: res.split)
qed

lemma oversized_node_new:
  assumes "oversized (dk_cons d)"
  shows "fst (node_new env secret version force d) \<noteq> Ok n"
proof -
  have "\<exists>m. cons_open (se_crypto env) (dk_cons d) our = Panic m" for our by (rule oversized_open [OF assms])
  then have "cons_open (se_crypto env) (dk_cons d) our \<noteq> Ok s" "cons_open (se_crypto env) (dk_cons d) our \<noteq> Err e" for our s e
    by (metis res.distinct)+
  then show ?thesis by (auto simp: node_new_def Let_def split: res.splits)
qed

lemma run_command_None:
  assumes "run_command env cmd secret our version d = (Ok None, d1)"
  shows "dk_cons d1 = dk_cons d \<or>
    (\<exists>params our pinned s. cons_init (se_crypto env) params (dk_cons d) our pinned = Ok s)"
proof (cases cmd)
  case (JoinCmd run iv)
  then obtain a s where "consensus_join_static env iv our d = (Ok s, a)"
    using assms by (auto simp: run_command_def whatever_context_def res_simps map_err_Ok_iff Let_def
      split: res.splits prod.splits)
  then have "\<exists>params pinned. cons_init (se_crypto env) params (dk_cons d) our pinned = Ok s"
    by (auto simp: consensus_join_static_def split: res.splits elim!: consensus_join_Ok)
  then show ?thesis by blast
next
  case (InitCmd run extra)
  then obtain sec s d2 where "consensus_init_static env sec extra version d = (Ok s, d2)"
    using assms by (auto simp: run_command_def whatever_context_def res_simps split: res.splits prod.splits option.splits)
  then obtain k params where "cons_init (se_crypto env) params (dk_cons d) (Some k) None = Ok s"
    by (auto simp: consensus_init_static_def Let_def res_simps split: res.splits)
  then show ?thesis by blast
qed (use assms in \<open>auto simp: run_command_def res_simps\<close>)

lemma oversized_no_node:
  assumes "oversized (dk_cons d)"
  shows "fst (bfte_work env op secret our version d) \<noteq> Ok (NodeStarted n)"
proof
  assume w: "fst (bfte_work env op secret our version d) = Ok (NodeStarted n)"
  obtain r d1 where c: "run_command env (opt_command op) secret our version d = (r, d1)" by fastforce
  have none: "fst (node_new env secret version (opt_force_ui_password op) d1) \<noteq> Ok n" if "r = Ok None" for n
  proof -
    have "dk_cons d1 = dk_cons d"
      using run_command_None [of env "opt_command op"] c that oversized_init(1) [OF assms] by metis
    then show ?thesis using oversized_node_new assms by metis
  qed
  have "r \<noteq> Ok (Some (NodeStarted n))"
    using c by (auto simp: run_command_def gen_secret_def ends_unless_def Let_def res_simps
      split: commands.splits res.splits option.splits prod.splits if_splits)
  then show False
    using w c none by (auto simp: bfte_work_def whatever_context_def res_simps split: res.splits option.splits prod.splits)
qed

lemma init_oversized:
  assumes "255 \<le> length extra" "level s = 0"
  shows "\<exists>m d1. consensus_init_static env s extra version empty_disk = (Panic m, d1) \<and> oversized (dk_cons d1)"
proof -
  obtain k p where p: "consensus_init_params (se_hkdf env) (se_pubkey env) s extra version (se_now env) = (Ok (k, p) :: (level_error, _) res)"
    using assms(2) by (auto simp: consensus_init_params_def res_simps)
  have l: "255 < length (peers p)" using consensus_init_peers(3) [OF p] assms(1) by simp
  let ?d = "cons_db_empty\<lparr>cons_params_schedule := tbl_insert 0 (params_hash (se_crypto env) p) tbl_empty,
    cons_params := tbl_insert (params_hash (se_crypto env) p) p tbl_empty\<rparr>"
  have i: "init_tx (se_crypto env) p None cons_db_empty = Ok (0, ?d)"
    by (simp add: init_tx_def insert_consensus_params_def Let_def cons_db_empty_def get_current_round_def)
  have "last_entry (\<lambda>k. k \<le> 0) (entries (tbl_insert (0::block_round) (params_hash (se_crypto env) p) tbl_empty)) =
      Some (0, params_hash (se_crypto env) p)"
    by (auto simp: tb.last_Some)
  then have o1: "oversized ?d" using l by (simp add: oversized_def params_at_def cons_db_empty_def get_current_round_def)
  obtain m where m: "cons_init (se_crypto env) p cons_db_empty (Some k) None = Panic m"
    using oversized_open_internal [OF o1] i by (fastforce simp: cons_init_def)
  then show ?thesis using o1 i by (simp add: consensus_init_static_def p empty_disk_def init_db_def)
qed

text \<open>C14. \<open>init\<close> takes any number of extra peers. With 255 of them or more it panics, but only after the parameters are in
  the database: from then on no command, \<open>run\<close>, \<open>init\<close> or \<open>join\<close>, whatever its options, starts a node on that data
  directory. The hypotheses are that the options before the command are in order.\<close>

theorem oversized_init_ruins_data_dir:
  assumes "prepare env op t = Ok (Some s, our, version)" "opt_command op = InitCmd run extra" "opt_data_dir op"
    "se_open_db env = None" "255 \<le> length extra"
  shows "\<exists>m d. bfte_build env op t empty_disk = (Panic m, d) \<and>
    (\<forall>env' op' t' n. opt_data_dir op' \<longrightarrow> fst (bfte_build env' op' t' d) \<noteq> Ok (NodeStarted n))"
proof -
  have "level s = 0" using assms(1)
    by (auto simp: prepare_def secret_pubkey_def read_secret_def res_simps split: res.splits if_splits)
  then obtain m d where i: "consensus_init_static env s extra version empty_disk = (Panic m, d)" "oversized (dk_cons d)"
    using init_oversized [OF assms(5)] by blast
  have "bfte_build env op t empty_disk = (Panic m, d)"
    by (simp add: bfte_build_def assms bfte_work_def run_command_def open_db_def opt_ctx_def i whatever_context_def)
  moreover have "opt_data_dir op' \<Longrightarrow> fst (bfte_build env' op' t' d) \<noteq> Ok (NodeStarted n)" for env' op' t' n
    using oversized_no_node [OF i(2)] by (auto simp: bfte_build_def split: res.splits prod.splits)
  ultimately show ?thesis by blast
qed

subsection \<open>A new federation\<close>

lemma init_static_Ok:
  assumes "consensus_init_static env s extra version empty_disk = (Ok st, d)" "length extra \<le> 254"
    "\<forall>p. length (enc_params (se_crypto env) p) < 2 ^ 32"
  obtains k p where "get_peer_seckey (se_hkdf env) s = (Ok k :: (level_error, _) res)"
    "params_at (dk_cons d) 0 = Some p" "sorted (peers p)" "mset (peers p) = add_mset (se_pubkey env k) (mset extra)"
    "d = empty_disk\<lparr>dk_cons := fst st\<rparr>" "node_inv (se_crypto env) st"
proof -
  obtain k p where p: "consensus_init_params (se_hkdf env) (se_pubkey env) s extra version (se_now env) = (Ok (k, p) :: (level_error, _) res)"
    and i: "cons_init (se_crypto env) p cons_db_empty (Some k) None = Ok st" and d: "d = empty_disk\<lparr>dk_cons := fst st\<rparr>"
    using assms(1) by (auto simp: consensus_init_static_def Let_def res_simps empty_disk_def init_db_def split: res.splits)
  have "length (peers p) \<le> 255" "peers p \<noteq> []" using consensus_init_peers [OF p] assms(2) by auto
  then have ok: "params_ok (se_crypto env) p" using assms(3) by (simp add: params_ok_def)
  obtain cur d1 where t: "init_tx (se_crypto env) p None cons_db_empty = Ok (cur, d1)"
    and o1: "open_internal (se_crypto env) (Some k) cur d1 = (Ok st :: (init_error, _) res)"
    using i by (auto simp: cons_init_def res_simps)
  have "cons_inv (se_crypto env) d1" "cur = get_current_round d1" "cur \<noteq> - 1" using cons_inv_init [OF t ok] by simp_all
  then have n: "node_inv (se_crypto env) st" using open_internal_inv [OF _ _ _ o1] by blast
  obtain sk where sk: "get_peer_seckey (se_hkdf env) s = (Ok sk :: (level_error, _) res)" "k = se_pubkey env sk"
    "peers p = ps_from_iter ([k] @ extra)"
    using p by (auto simp: consensus_init_params_def res_simps)
  show thesis
    using that [OF sk(1), of p] cons_init_stores(1) [OF i] sk n d by (simp add: ps_from_iter_def sorted_insort)
qed

lemma open_node_inv:
  assumes "node_inv cr s" "cons_open cr (fst s) our = Ok s'"
  shows "node_inv cr s'"
proof -
  have o1: "open_internal cr our (get_current_round (fst s)) (fst s) = (Ok s' :: (open_error, _) res)"
    using assms(2) by (auto simp: cons_open_def open_tx_def res_simps)
  have "get_current_round (fst s) \<le> get_current_round (fst s')"
    using open_internal_progress [OF o1 refl] by (simp add: progress_def)
  then have "get_current_round (fst s) = - 1 \<Longrightarrow> get_current_round (fst s') = - 1"
    using less_imp_not_max by (metis order_le_less)
  then show ?thesis
    using assms(1) open_internal_inv [OF _ refl _ o1] by (cases "get_current_round (fst s) = - 1") (auto simp: node_inv_def)
qed

lemma node_new_consensus:
  assumes "node_new env secret version force d = (Ok n, d')"
  shows "(\<exists>keys. new_node_keys (se_hkdf env) (se_pubkey env) secret = Ok keys \<and> sn_keys n = keys) \<and>
    (case sn_consensus n of
       Some s \<Rightarrow> cons_open (se_crypto env) (dk_cons d) (own_pubkey (sn_keys n)) = Ok s \<and> fst s = dk_cons d' \<and> sn_initialized n
     | None \<Rightarrow> cons_open (se_crypto env) (dk_cons d) (own_pubkey (sn_keys n)) = Err NotInitialized \<and> dk_cons d' = dk_cons d \<and>
         \<not> sn_initialized n)"
proof -
  have "e = NotInitialized" for e :: open_error by (cases e) simp
  then show ?thesis
    using assms by (auto simp: node_new_def Let_def res_simps split: res.splits)
qed

lemma init_command_Ok:
  assumes "opt_command op = InitCmd run extra" "opt_data_dir op" "bfte_build env op t empty_disk = (Ok oc, d)"
  obtains s our version st d1 where "prepare env op t = Ok (Some s, our, version)"
    "consensus_init_static env s extra version empty_disk = (Ok st, d1)"
    "if run then \<exists>n. node_new env (Some s) version (opt_force_ui_password op) d1 = (Ok n, d) \<and> oc = NodeStarted n
     else oc = CommandDone \<and> d = d1"
proof -
  obtain secret our version where pr: "prepare env op t = Ok (secret, our, version)"
    and w: "bfte_work env op secret our version empty_disk = (Ok oc, d)"
    using assms(2,3) by (auto simp: bfte_build_def split: res.splits)
  then obtain r d1 where c: "run_command env (InitCmd run extra) secret our version empty_disk = (Ok r, d1)"
    using assms(1) by (auto simp: bfte_work_def split: res.splits prod.splits)
  then obtain s st where "secret = Some s" "consensus_init_static env s extra version empty_disk = (Ok st, d1)"
    "r = ends_unless run"
    by (auto simp: run_command_def whatever_context_def res_simps split: res.splits option.splits prod.splits)
  with pr w c show thesis
    by (intro that [of s our version st d1])
      (auto simp: bfte_work_def assms(1) ends_unless_def whatever_context_def res_simps split: prod.splits if_splits)
qed

lemma params_at_open: "params_at d 0 = Some p \<Longrightarrow> cons_open cr d our \<noteq> Err e"
  by (auto simp: cons_open_def open_tx_def open_internal_def open_channels_def get_consensus_params_opt_def params_at_def
      res_bind_Err_iff arr_next_expect_def split: option.splits res.splits prod.splits)

text \<open>The secret that a command works with is the one in the secret file.\<close>

lemma prepare_secret:
  assumes "prepare env op t = Ok (Some s, our, version)"
  obtains str bytes where "se_secret_file env = Ok str" "se_entropy env (trim str) = Ok bytes" "length bytes = 32"
    "s = \<lparr>secret_bytes = from_be_bytes bytes, level = 0\<rparr>"
  using assms by (auto simp: prepare_def read_secret_def secret_from_str_def whatever_context_def res_simps split: if_splits)

lemma file_secret_key:
  "get_peer_seckey hkdf \<lparr>secret_bytes = b, level = 0\<rparr> = (Ok k :: (level_error, _) res) \<longleftrightarrow> k = hkdf b [0, 0, 0, 0]"
  by (simp add: res_simps PEER_SECKEY_CHILD_ID_def numeral_Bit0)

text \<open>C13. \<open>init\<close> on a new data directory creates the federation that was asked for: the parameters of round 0 name the
  founder and the extra peers, in order and none lost. The founder's key is that of the secret in the secret file: the public
  key of what \<open>hkdf\<close> derives for child 0 from the 32 bytes that the trimmed text of the file stands for. The database satisfies the
  invariant of a node; and with \<open>--run\<close> the node that starts holds that consensus under that key and does not wait for the web
  interface. The hypotheses bound the number of peers and the length of encoded parameters.\<close>

theorem init_command_creates_federation:
  assumes "opt_command op = InitCmd run extra" "opt_data_dir op" "bfte_build env op t empty_disk = (Ok oc, d)"
    "length extra \<le> 254" "\<forall>p. length (enc_params (se_crypto env) p) < 2 ^ 32"
  shows "\<exists>str bytes k p. se_secret_file env = Ok str \<and> se_entropy env (trim str) = Ok bytes \<and> length bytes = 32 \<and>
    k = se_pubkey env (se_hkdf env (from_be_bytes bytes) [0, 0, 0, 0]) \<and>
    params_at (dk_cons d) 0 = Some p \<and> sorted (peers p) \<and> mset (peers p) = add_mset k (mset extra) \<and>
    (\<exists>c. node_inv (se_crypto env) (dk_cons d, c)) \<and>
    (if run then \<exists>n c. oc = NodeStarted n \<and> own_pubkey (sn_keys n) = Some k \<and>
        sn_consensus n = Some (dk_cons d, c) \<and> sn_initialized n \<and> node_inv (se_crypto env) (dk_cons d, c)
     else oc = CommandDone)"
proof -
  obtain s our version st d1 where pr: "prepare env op t = Ok (Some s, our, version)"
    and i: "consensus_init_static env s extra version empty_disk = (Ok st, d1)"
    and r: "if run then \<exists>n. node_new env (Some s) version (opt_force_ui_password op) d1 = (Ok n, d) \<and> oc = NodeStarted n
      else oc = CommandDone \<and> d = d1"
    using assms(1-3) by (rule init_command_Ok)
  obtain str bytes where sf: "se_secret_file env = Ok str" "se_entropy env (trim str) = Ok bytes" "length bytes = 32"
    "s = \<lparr>secret_bytes = from_be_bytes bytes, level = 0\<rparr>"
    using pr by (rule prepare_secret)
  let ?k = "se_pubkey env (se_hkdf env (from_be_bytes bytes) [0, 0, 0, 0])"
  have k: "get_peer_seckey (se_hkdf env) s = (Ok (se_hkdf env (from_be_bytes bytes) [0, 0, 0, 0]) :: (level_error, _) res)"
    by (simp add: sf(4) file_secret_key)
  obtain k' p where k': "get_peer_seckey (se_hkdf env) s = (Ok k' :: (level_error, _) res)"
    and p': "params_at (dk_cons d1) 0 = Some p" "sorted (peers p)" "mset (peers p) = add_mset (se_pubkey env k') (mset extra)"
    and d1: "d1 = empty_disk\<lparr>dk_cons := fst st\<rparr>" and n: "node_inv (se_crypto env) st"
    using i assms(4,5) by (rule init_static_Ok)
  have "k' = se_hkdf env (from_be_bytes bytes) [0, 0, 0, 0]" using k k' by simp
  with p' have p: "params_at (dk_cons d1) 0 = Some p" "sorted (peers p)" "mset (peers p) = add_mset ?k (mset extra)"
    by simp_all
  have "params_at (dk_cons d) 0 = Some p \<and> (\<exists>c. node_inv (se_crypto env) (dk_cons d, c)) \<and>
    (if run then \<exists>n c. oc = NodeStarted n \<and> own_pubkey (sn_keys n) = Some ?k \<and>
        sn_consensus n = Some (dk_cons d, c) \<and> sn_initialized n \<and> node_inv (se_crypto env) (dk_cons d, c)
     else oc = CommandDone)"
  proof (cases run)
    case False
    then have "d = d1" "oc = CommandDone" using r by simp_all
    then show ?thesis using False p n d1 by (cases st) auto
  next
    case True
    then obtain n' where n': "node_new env (Some s) version (opt_force_ui_password op) d1 = (Ok n', d)" "oc = NodeStarted n'"
      using r by auto
    from node_new_consensus [OF n'(1)] k have own: "own_pubkey (sn_keys n') = Some ?k"
      by (auto simp: new_node_keys_def res_bind_Ok_iff)
    obtain c where c: "sn_consensus n' = Some (dk_cons d, c)" "sn_initialized n'"
      "cons_open (se_crypto env) (fst st) (Some ?k) = Ok (dk_cons d, c)"
      using node_new_consensus [OF n'(1)] params_at_open [OF p(1)] own d1 by (cases "sn_consensus n'") auto
    have "cons_params_schedule (dk_cons d) = cons_params_schedule (fst st) \<and> cons_params (dk_cons d) = cons_params (fst st)"
      using c(3) open_internal_progress [where 'e = open_error] by (fastforce simp: cons_open_def open_tx_def res_simps progress_def)
    then have "params_at (dk_cons d) 0 = Some p" using p(1) d1 by (auto simp: params_at_def split: option.splits)
    then show ?thesis using True n'(2) own c(1,2) open_node_inv [OF n c(3)] by auto
  qed
  then show ?thesis using sf(1-3) p(2,3) by (intro exI [of _ str] exI [of _ bytes] exI [of _ ?k] exI [of _ p]) blast
qed

subsection \<open>A run of the program\<close>

definition test_env :: start_env where
  "test_env = \<lparr>se_crypto = test_crypto, se_hkdf = (\<lambda>h bs. 7), se_pubkey = (\<lambda>k. k), se_entropy = (\<lambda>t. Ok (replicate 32 0)),
     se_mnemonic = (\<lambda>bs. []), se_now = 0, se_random_secret = 0, se_random_pass = [], se_node_id = 0, se_addr_enc = (\<lambda>a. []),
     se_dial = (\<lambda>a. Err ''offline''), se_logging = None, se_secret_file = Ok [], se_make_dir = None, se_open_db = None,
     se_endpoint = None\<rparr>"

definition test_opts :: "commands \<Rightarrow> opts" where
  "test_opts cmd = \<lparr>opt_data_dir = True, opt_force_ui_password = None, opt_secret_path = True, opt_command = cmd\<rparr>"

lemma test_prepare:
  "\<exists>v. prepare test_env (test_opts cmd) tbl_empty = Ok (Some \<lparr>secret_bytes = from_be_bytes (replicate 32 0), level = 0\<rparr>, Some 7, v)"
proof -
  have "latest_version ctrl_module_init = (Ok (ConsensusVersion CTRL_VERSION_MAJOR CTRL_VERSION_MINOR) :: (whatever, _) res)"
    by (simp add: latest_version_correct ctrl_module_init_def ctrl_supported_versions_def)
  then show ?thesis
    by (simp add: prepare_def insert_ctrl_init_def opt_ctx_def read_secret_def secret_pubkey_def whatever_context_def
      secret_from_str_def get_peer_seckey_def ensure_level_def derive_def test_env_def test_opts_def init_data_def)
qed

theorem oversized_init_ruins_data_dir_witness:
  "\<exists>m d. bfte_build test_env (test_opts (InitCmd False (replicate 255 1))) tbl_empty empty_disk = (Panic m, d) \<and>
     (\<forall>n. fst (bfte_build test_env (test_opts RunCmd) tbl_empty d) \<noteq> Ok (NodeStarted n))"
proof -
  obtain v where "prepare test_env (test_opts (InitCmd False (replicate 255 1))) tbl_empty =
      Ok (Some \<lparr>secret_bytes = from_be_bytes (replicate 32 0), level = 0\<rparr>, Some 7, v)"
    using test_prepare by blast
  from oversized_init_ruins_data_dir [OF this] show ?thesis
    by (fastforce simp: test_opts_def test_env_def)
qed

lemma new_federation_starts:
  assumes "params_ok cr p"
  shows "\<exists>s. cons_init cr p cons_db_empty our None = Ok s"
proof -
  let ?d = "cons_db_empty\<lparr>cons_params_schedule := tbl_insert 0 (params_hash cr p) tbl_empty,
    cons_params := tbl_insert (params_hash cr p) p tbl_empty\<rparr>"
  have i: "init_tx cr p None cons_db_empty = Ok (0, ?d)"
    by (simp add: init_tx_def insert_consensus_params_def Let_def cons_db_empty_def get_current_round_def)
  have "\<exists>s. open_internal cr our 0 ?d = (Ok s :: (init_error, _) res)"
    using cons_inv_init [OF i assms] by (intro open_internal_ok) (simp_all add: cons_db_empty_def)
  then show ?thesis using i by (simp add: cons_init_def)
qed

lemma test_env_key: "se_pubkey test_env (se_hkdf test_env h bs) = 7"
  by (simp add: test_env_def)

theorem init_command_creates_federation_witness:
  "\<exists>d p. bfte_build test_env (test_opts (InitCmd False [5])) tbl_empty empty_disk = (Ok CommandDone, d) \<and>
     params_at (dk_cons d) 0 = Some p \<and> mset (peers p) = {#7, 5#}"
proof -
  let ?s = "\<lparr>secret_bytes = from_be_bytes (replicate 32 0), level = 0\<rparr>"
  obtain v where v: "prepare test_env (test_opts (InitCmd False [5])) tbl_empty = Ok (Some ?s, Some 7, v)"
    using test_prepare by blast
  obtain k p where p: "consensus_init_params (se_hkdf test_env) (se_pubkey test_env) ?s [5] v (se_now test_env) =
      (Ok (k, p) :: (level_error, _) res)"
    by (simp add: consensus_init_params_def get_peer_seckey_def ensure_level_def derive_def)
  have "params_ok test_crypto p" using consensus_init_peers [OF p] by (auto simp: params_ok_def)
  then obtain st where "cons_init test_crypto p cons_db_empty (Some k) None = Ok st" using new_federation_starts by blast
  then have "\<exists>d. bfte_build test_env (test_opts (InitCmd False [5])) tbl_empty empty_disk = (Ok CommandDone, d)"
    using p v by (simp add: bfte_build_def bfte_work_def run_command_def test_opts_def open_db_def opt_ctx_def
      consensus_init_static_def ends_unless_def whatever_context_def empty_disk_def test_env_def)
  then obtain d where b: "bfte_build test_env (test_opts (InitCmd False [5])) tbl_empty empty_disk = (Ok CommandDone, d)" ..
  have "\<forall>p. length (enc_params (se_crypto test_env) p) < 2 ^ 32" by (simp add: test_env_def)
  from init_command_creates_federation [OF _ _ b _ this, of False "[5]"] show ?thesis
    using b test_env_key by (auto simp: test_opts_def)
qed

end
