(* ===== verification/Encodings.thy ===== *)
theory Encodings
  imports Array_Types
begin

section \<open>Texts and encodings\<close>

text \<open>
  \<open>util-array-type/src/lib.rs\<close>, the text and serde forms that its macros give an array type;
  \<open>util-bincode\<close>, \<open>util-fmt-opt\<close>, \<open>util-error/src/fmt.rs\<close> and \<open>util-core\<close>; the short form of a public key
  (\<open>consensus-core/src/peer.rs\<close>) and dates (\<open>timestamp.rs\<close>). The \<open>base32\<close>, \<open>base64\<close>, \<open>bincode\<close> and serde formats are third-party code: arguments.
  An array of \<open>n\<close> bytes is the word of its width.
\<close>

subsection \<open>Array types\<close>

text \<open>\<open>data_encoding::DecodeError\<close>; the kinds other than \<open>Length\<close> come from the decoder.\<close>

datatype decode_kind = LengthKind | OtherKind string

record text_error =
  te_position :: nat
  te_kind :: decode_kind

definition arr_zero :: "'a::len word" where
  "arr_zero = 0"

definition arr_min :: "'a::len word" where
  "arr_min = from_be_bytes (replicate (LENGTH('a) div 8) 0)"

definition arr_max :: "'a::len word" where
  "arr_max = from_be_bytes (replicate (LENGTH('a) div 8) 255)"

definition as_slice :: "'a::len word \<Rightarrow> byte list" where
  "as_slice x = to_be_bytes (LENGTH('a) div 8) x"

text \<open>\<open>try_into\<close> from a vector to an array.\<close>

definition try_into_array :: "byte list \<Rightarrow> 'a::len word option" where
  "try_into_array v = (if length v = LENGTH('a) div 8 then Some (from_be_bytes v) else None)"

definition arr_display :: "(byte list \<Rightarrow> string) \<Rightarrow> 'a::len word \<Rightarrow> string" where
  "arr_display encode x = encode (as_slice x)"

definition arr_from_str ::
  "(string \<Rightarrow> (text_error, byte list) res) \<Rightarrow> string \<Rightarrow> (text_error, 'a::len word) res" where
  "arr_from_str decode s =
     res_bind (decode s) (\<lambda>v.
     case try_into_array v of Some a \<Rightarrow> Ok a | None \<Rightarrow> Err \<lparr>te_position = 0, te_kind = LengthKind\<rparr>)"

text \<open>What serde hands to a format: a text for a human, bytes or a number otherwise.\<close>

datatype 'n serde_value = SerStr string | SerBytes "byte list" | SerNum 'n

definition arr_serialize :: "(byte list \<Rightarrow> string) \<Rightarrow> bool \<Rightarrow> 'a::len word \<Rightarrow> 'a word serde_value" where
  "arr_serialize encode human_readable x =
     (if human_readable then SerStr (arr_display encode x) else SerBytes (as_slice x))"

definition arr_deserialize ::
  "(string \<Rightarrow> (text_error, byte list) res) \<Rightarrow> bool \<Rightarrow> 'a::len word serde_value \<Rightarrow> (string, 'a word) res" where
  "arr_deserialize decode human_readable v =
     (if human_readable then
        (case v of SerStr s \<Rightarrow> map_err (\<lambda>_. ''Deserialization error'') (arr_from_str decode s) | _ \<Rightarrow> Err ''invalid type'')
      else
        (case v of
           SerBytes bs \<Rightarrow> (case try_into_array bs of Some a \<Rightarrow> Ok a | None \<Rightarrow> Err ''invalid length'')
         | _ \<Rightarrow> Err ''invalid type''))"

text \<open>The types that wrap a number go as the number.\<close>

definition num_serialize :: "'a::len word \<Rightarrow> 'a word serde_value" where
  "num_serialize x = SerNum (from_be_bytes (as_slice x))"

definition num_deserialize :: "'a::len word serde_value \<Rightarrow> (string, 'a word) res" where
  "num_deserialize v = (case v of SerNum n \<Rightarrow> Ok (from_be_bytes (as_slice n)) | _ \<Rightarrow> Err ''invalid type'')"

text \<open>\<open>PeerPubkeyShort\<close>\<close>

definition peer_pubkey_short :: "(byte list \<Rightarrow> string) \<Rightarrow> 256 word \<Rightarrow> string" where
  "peer_pubkey_short encode k =
     encode (take 4 (as_slice k)) @ ''...'' @ encode (take 4 (drop 28 (as_slice k)))"

subsection \<open>Timestamps\<close>

text \<open>
  \<open>consensus-core/src/timestamp.rs\<close>: microseconds; \<open>nanos\<close> is the clock, \<open>from_nanos\<close> is
  \<open>UtcDateTime::from_unix_timestamp_nanos\<close>. The product is one of 64-bit numbers, taken before the conversion.
\<close>

definition timestamp_now :: "int \<Rightarrow> ('e, 64 word) res" where
  "timestamp_now nanos =
     (let micros = (if nanos < 0 then - (- nanos div 1000) else nanos div 1000) in
      if 0 \<le> micros \<and> micros < 2 ^ 64 then Ok (of_int micros) else Panic ''Can't fail'')"

definition to_datetime :: "(int \<Rightarrow> 'd option) \<Rightarrow> 64 word \<Rightarrow> 'd option" where
  "to_datetime from_nanos t = from_nanos (uint (t * 1000))"

subsection \<open>Helper crates\<close>

text \<open>\<open>bincode::decode_from_slice\<close> answers a value and the number of bytes that it took.\<close>

datatype bincode_error = LeftoverBytes | OtherDecodeError string

definition decode_whole :: "(byte list \<Rightarrow> (bincode_error, 'a \<times> nat) res) \<Rightarrow> byte list \<Rightarrow> (bincode_error, 'a) res" where
  "decode_whole decode_from_slice src =
     res_bind (decode_from_slice src) (\<lambda>(t, consumed).
     if consumed \<noteq> length src then Err LeftoverBytes else Ok t)"

definition fmt_option :: "('a \<Rightarrow> string) \<Rightarrow> 'a option \<Rightarrow> string" where
  "fmt_option fmt o1 = (case o1 of Some x \<Rightarrow> fmt x | None \<Rightarrow> ''-'')"

text \<open>An error with its chain of sources.\<close>

datatype std_error = StdError (error_message: string) (error_source: "std_error option")

primrec fmt_compact_error :: "std_error \<Rightarrow> string"
  and fmt_compact_source :: "std_error option \<Rightarrow> string" where
  "fmt_compact_error (StdError m src) = m @ fmt_compact_source src"
| "fmt_compact_source None = []"
| "fmt_compact_source (Some e) = '': '' @ fmt_compact_error e"

definition fmt_compact_result :: "('a \<Rightarrow> string) \<Rightarrow> std_error + 'a \<Rightarrow> string" where
  "fmt_compact_result fmt r = (case r of Inr x \<Rightarrow> fmt x | Inl e \<Rightarrow> fmt_compact_error e)"

definition is_env_var_set :: "(string \<Rightarrow> string option) \<Rightarrow> string \<Rightarrow> bool" where
  "is_env_var_set env var = (case env var of Some v \<Rightarrow> v \<noteq> ''0'' \<and> v \<noteq> ''false'' | None \<Rightarrow> False)"

subsection \<open>Bytes and arrays\<close>

lemma be_value_inj:
  assumes "length bs = length cs" "be_value 0 bs = be_value 0 cs"
  shows "bs = cs"
proof (rule ccontr)
  assume "bs \<noteq> cs"
  then have "ord_class.lexordp bs cs \<or> ord_class.lexordp cs bs" using lexordp_linear [of bs cs] by blast
  then show False using assms lex_bytes_value [of bs cs] lex_bytes_value [of cs bs] by auto
qed

lemma length_as_slice [simp]: "length (as_slice (x :: 'a::len word)) = LENGTH('a) div 8"
  by (simp add: as_slice_def)

lemma try_into_as_slice [simp]:
  "8 dvd LENGTH('a) \<Longrightarrow> try_into_array (as_slice x) = Some (x :: 'a::len word)"
  by (simp add: try_into_array_def) (simp add: as_slice_def be_bytes_roundtrip)

lemma as_slice_try_into:
  assumes "8 dvd LENGTH('a)" "try_into_array bs = Some (x :: 'a::len word)"
  shows "as_slice x = bs"
proof (rule be_value_inj)
  have l: "length bs = LENGTH('a) div 8" and x: "x = of_nat (be_value 0 bs)"
    using assms(2) by (auto simp: try_into_array_def from_be_bytes_value split: if_splits)
  then show "length (as_slice x) = length bs" by simp
  have e: "(2::nat) ^ LENGTH('a) = 256 ^ length bs"
    using assms(1) l power_mult [of "2::nat" 8 "LENGTH('a) div 8"] by simp
  have "unat x = be_value 0 bs mod 2 ^ LENGTH('a)" by (simp add: x unsigned_of_nat take_bit_eq_mod)
  then have "unat x = be_value 0 bs" using be_value_less [of bs] e by simp
  then show "be_value 0 (as_slice x) = be_value 0 bs"
    using be_value_less [of bs] l by (simp add: as_slice_def be_value_to_be_bytes)
qed

text \<open>An array is its slice: \<open>from_str\<close> accepts exactly the texts whose bytes are those of an array, and gives that array.\<close>

lemma arr_from_str_iff:
  "8 dvd LENGTH('a) \<Longrightarrow> arr_from_str decode s = Ok (x :: 'a::len word) \<longleftrightarrow> decode s = Ok (as_slice x)"
  by (cases "decode s") (auto simp: arr_from_str_def dest: as_slice_try_into split: option.splits)

lemma arr_from_str_wrong_length:
  "decode s = Ok v \<Longrightarrow> length v \<noteq> LENGTH('a) div 8 \<Longrightarrow>
     arr_from_str decode s = (Err \<lparr>te_position = 0, te_kind = LengthKind\<rparr> :: (text_error, 'a::len word) res)"
  by (simp add: arr_from_str_def try_into_array_def)

lemma arr_serde_roundtrip:
  fixes x :: "'a::len word"
  assumes "8 dvd LENGTH('a)" "decode (encode (as_slice x)) = Ok (as_slice x)"
  shows "arr_deserialize decode human_readable (arr_serialize encode human_readable x) = Ok x"
proof -
  have "arr_from_str decode (encode (as_slice x)) = Ok x" using assms by (simp add: arr_from_str_iff)
  then show ?thesis using assms(1) by (simp add: arr_deserialize_def arr_serialize_def arr_display_def)
qed

lemma num_serde_roundtrip: "8 dvd LENGTH('a) \<Longrightarrow> num_deserialize (num_serialize x) = Ok (x :: 'a::len word)"
  by (simp add: num_deserialize_def num_serialize_def as_slice_def be_bytes_roundtrip)

lemma arr_bounds:
  assumes "8 dvd LENGTH('a)"
  shows "arr_min = (arr_zero :: 'a::len word)" "arr_max = (- 1 :: 'a::len word)"
proof -
  have "be_value 0 (replicate n 0) = 0" for n by (induction n) simp_all
  then show "arr_min = (arr_zero :: 'a word)" by (simp add: arr_min_def arr_zero_def from_be_bytes_value)
  have v: "be_value 0 (replicate n 255) = 256 ^ n - 1" for n
  proof (induction n)
    case (Suc n)
    have "(256 :: nat) ^ n \<ge> 1" by simp
    then show ?case using Suc be_value_acc [of 255 "replicate n 255"] by simp
  qed simp
  have "(256 :: nat) ^ (LENGTH('a) div 8) = 2 ^ LENGTH('a)"
    using assms power_mult [of "2::nat" 8 "LENGTH('a) div 8"] by simp
  then show "arr_max = (- 1 :: 'a word)" by (simp add: arr_max_def from_be_bytes_value v of_nat_diff)
qed

subsection \<open>Dates\<close>

text \<open>A timestamp that the clock gave reads back as the time it was taken at, to the microsecond, up to the year 2554.\<close>

lemma timestamp_roundtrip:
  assumes "timestamp_now nanos = (Ok t :: ('e, _) res)" "0 \<le> nanos" "nanos < 2 ^ 64"
  shows "to_datetime from_nanos t = from_nanos (nanos - nanos mod 1000)"
proof -
  have t: "t = of_int (nanos div 1000)" using assms(1,2) by (simp add: timestamp_now_def Let_def split: if_splits)
  have e: "nanos div 1000 * 1000 = nanos - nanos mod 1000" by (simp add: minus_mod_eq_div_mult)
  have p: "t * 1000 = word_of_int (nanos - nanos mod 1000)" unfolding e [symmetric] by (simp add: t)
  have "0 \<le> nanos - nanos mod 1000" "nanos - nanos mod 1000 < 2 ^ 64"
    using assms(2,3) pos_mod_sign [of 1000 nanos] by (simp_all add: zmod_le_nonneg_dividend)
  then have "uint (word_of_int (nanos - nanos mod 1000) :: 64 word) = nanos - nanos mod 1000"
    by (simp add: unsigned_of_int take_bit_int_eq_self del: of_int_diff)
  with p show ?thesis by (simp only: to_datetime_def)
qed

text \<open>A later timestamp is not out of range, as it is meant to be, but shown as another time: two timestamps whose
  difference is a multiple of \<open>2 ^ 61\<close> microseconds are the same date, and every timestamp has one.\<close>

lemma to_datetime_wraps:
  "to_datetime from_nanos (t + 2 ^ 61) = to_datetime from_nanos t"
  "(\<And>n. 0 \<le> n \<Longrightarrow> n < 2 ^ 64 \<Longrightarrow> from_nanos n \<noteq> None) \<Longrightarrow> to_datetime from_nanos t \<noteq> None"
proof -
  have "(2 ^ 61 * 1000 :: 64 word) = 0" by simp
  then have "(t + 2 ^ 61) * 1000 = t * 1000" by (simp only: distrib_right add_0_right)
  then show "to_datetime from_nanos (t + 2 ^ 61) = to_datetime from_nanos t" by (simp only: to_datetime_def)
  show "to_datetime from_nanos t \<noteq> None" if "\<And>n. 0 \<le> n \<Longrightarrow> n < 2 ^ 64 \<Longrightarrow> from_nanos n \<noteq> None"
    using that [of "uint (t * 1000)"] uint_bounded [of "t * 1000"] by (simp add: to_datetime_def)
qed

subsection \<open>Whole decodings and messages\<close>

text \<open>A decoder that takes a prefix does not accept it with anything after it.\<close>

lemma decode_whole_unextended:
  assumes "decode_whole dec src = Ok t" "\<And>rest. dec (src @ rest) = dec src" "rest \<noteq> []"
  shows "decode_whole dec (src @ rest) = Err LeftoverBytes"
  using assms by (auto simp: decode_whole_def res_simps split: if_splits)

primrec error_chain :: "std_error \<Rightarrow> string list"
  and error_chain_source :: "std_error option \<Rightarrow> string list" where
  "error_chain (StdError m src) = m # error_chain_source src"
| "error_chain_source None = []"
| "error_chain_source (Some e) = error_chain e"

fun join_with :: "string \<Rightarrow> string list \<Rightarrow> string" where
  "join_with sep [] = []"
| "join_with sep [x] = x"
| "join_with sep (x # y # xs) = x @ sep @ join_with sep (y # xs)"

lemma fmt_compact_chain: "fmt_compact_error e = join_with '': '' (error_chain e)"
proof (induction e)
  case (StdError m src)
  show ?case
  proof (cases src)
    case (Some e)
    obtain x xs where "error_chain e = x # xs" by (cases e) auto
    with StdError Some show ?thesis by simp
  qed simp
qed

end
