(* ===== verification/Ui_Pages.thy ===== *)
theory Ui_Pages
  imports Bfte_Main Encodings Shared_Modules Meta_Theorems
begin

section \<open>The pages of the web interface and the calls behind them\<close>

text \<open>
  \<open>node/src/ui_api.rs\<close>, what the web interface asks a node, and the requests that only read
  (\<open>node-ui-axum/src/routes/{module,consensus_status,explorer}.rs\<close>, \<open>routes/module/{consensus_ctrl,meta}.rs\<close>,
  \<open>page.rs\<close>). A page is the data that it shows; its markup is not modelled, and keys stand for the text
  of a third-party encoder. A channel that a page watches stands for the value that it holds.
\<close>

subsection \<open>Texts\<close>


definition is_digit :: "char \<Rightarrow> bool" where
  "is_digit c \<longleftrightarrow> (48 :: nat) \<le> of_char c \<and> of_char c \<le> (57 :: nat)"

definition parse_uint :: "string \<Rightarrow> 'a::len word option" where
  "parse_uint s =
     (let digits = (case s of [] \<Rightarrow> [] | c # cs \<Rightarrow> if c = CHR ''+'' then cs else s) in
      if digits = [] \<or> \<not> list_all is_digit digits then None
      else if dec_value digits < 2 ^ LENGTH('a) then Some (of_nat (dec_value digits)) else None)"

definition display_uint :: "'a::len word \<Rightarrow> string" where
  "display_uint x = dec_digits (unat x)"

definition display_version :: "consensus_version \<Rightarrow> string" where
  "display_version v = display_uint (major v) @ ''.'' @ display_uint (minor v)"

subsection \<open>The choice of a module\<close>


definition get_module_kind_name :: "module_kind \<Rightarrow> string option" where
  "get_module_kind_name k =
     (if k = MODULE_KIND_CONSENSUS_CTRL then Some ''Consensus Control''
      else if k = MODULE_KIND_META then Some ''Meta'' else None)"

text \<open>\<open>Iterator::max\<close>\<close>

definition iter_max :: "'a::linorder list \<Rightarrow> 'a option" where
  "iter_max xs = (case xs of [] \<Rightarrow> None | y # ys \<Rightarrow> Some (fold max ys y))"

text \<open>One step of the \<open>filter_map\<close>: the numbers take a way over their texts.\<close>

definition available_kind ::
  "module_kind set \<Rightarrow> module_kind \<times> module_init \<Rightarrow> (module_kind \<times> string \<times> 16 word \<times> 16 word) option" where
  "available_kind existing e = (case e of (kind, init) \<Rightarrow>
     if init_singleton init \<and> kind \<in> existing then None
     else
       (let display_name = (case get_module_kind_name kind of Some n \<Rightarrow> n | None \<Rightarrow> ''Unknown'') in
        case iter_max (entries (init_supported_versions init)) of
          Some (ma, mi) \<Rightarrow>
            Some (kind, display_name,
              case parse_uint (display_uint ma) of Some v \<Rightarrow> v | None \<Rightarrow> 0,
              case parse_uint (display_uint mi) of Some v \<Rightarrow> v | None \<Rightarrow> 0)
        | None \<Rightarrow> None))"

definition available_kinds :: "modules_inits \<Rightarrow> (module_id \<times> module_config) list \<Rightarrow> (module_kind \<times> string \<times> 16 word \<times> 16 word) list" where
  "available_kinds inits cfgs =
     List.map_filter (available_kind (set (map (\<lambda>e. mc_kind (snd e)) cfgs))) (entries inits)"

text \<open>The options of the form, if there is one: the value that is sent and the label that is shown. The first is the prompt;
  its value is empty and the browser does not send it, since the field is \<open>required\<close>. Without an available kind the page has
  a line of text in place of the form.\<close>

definition render_add_module_form :: "modules_inits \<Rightarrow> (module_id \<times> module_config) list \<Rightarrow> (string \<times> string) list option" where
  "render_add_module_form inits cfgs =
     (case available_kinds inits cfgs of
       [] \<Rightarrow> None
     | kinds \<Rightarrow> Some (('''', ''Select module to add...'') # map (\<lambda>(kind, name, ma, mi).
         (display_uint kind @ '':'' @ display_uint ma @ ''.'' @ display_uint mi,
          name @ '' (v'' @ display_uint ma @ ''.'' @ display_uint mi @ '')'')) kinds))"

record ctrl_page =
  pg_peers :: peer_set
  pg_add_votes :: "(peer_pubkey \<times> peer_pubkey) list"
  pg_remove_votes :: "(peer_pubkey \<times> peer_pubkey) list"
  pg_modules :: "(string \<times> string \<times> string) list"
  pg_module_votes :: "(peer_pubkey \<times> string) list"
  pg_choices :: "(string \<times> string) list option"

text \<open>A row of the table of modules and the text of a vote for a module.\<close>

definition module_row :: "module_id \<times> module_config \<Rightarrow> string \<times> string \<times> string" where
  "module_row = (\<lambda>(i, cfg). (display_uint i,
     case get_module_kind_name (mc_kind cfg) of Some n \<Rightarrow> n | None \<Rightarrow> display_uint (mc_kind cfg),
     display_version (mc_version cfg)))"

definition module_vote_text :: "peer_pubkey \<times> module_kind \<times> consensus_version \<Rightarrow> peer_pubkey \<times> string" where
  "module_vote_text = (\<lambda>(voter, kind, v). (voter,
     (case get_module_kind_name kind of Some n \<Rightarrow> n | None \<Rightarrow> ''Unknown'') @ '' (v'' @ display_version v @ '')''))"

definition render_consensus_module_page :: "modules_inits \<Rightarrow> ctrl_db \<Rightarrow> ctrl_page" where
  "render_consensus_module_page inits d =
     \<lparr>pg_peers = get_peer_set d, pg_add_votes = get_add_peer_votes d, pg_remove_votes = get_remove_peer_votes d,
      pg_modules = map module_row (get_modules_configs d),
      pg_module_votes = map module_vote_text (get_add_module_votes d),
      pg_choices = render_add_module_form inits (get_modules_configs d)\<rparr>"

subsection \<open>Pages of modules\<close>

text \<open>The pages of the meta module: values as text or hexadecimal digits, the keys that can be voted on, and for each vote the
  voter, the value that \<open>Approve\<close> sends and the value that is shown. \<open>hex\<close> is the third-party encoder.\<close>

record meta_page =
  mp_values :: "(meta_key \<times> byte list) list"
  mp_keys :: "meta_key list"

record meta_key_page =
  kp_key :: meta_key
  kp_current :: "byte list option"
  kp_votes :: "(peer_pubkey \<times> byte list \<times> byte list) list"

definition render_meta_module_page :: "(byte list \<Rightarrow> byte list) \<Rightarrow> meta_db \<Rightarrow> meta_page" where
  "render_meta_module_page hex d =
     \<lparr>mp_values = map (\<lambda>(key, value). (key, render_meta_value hex value)) (get_consensus_values d),
      mp_keys = map of_nat [0..<256]\<rparr>"

definition render_meta_key_voting_page :: "(byte list \<Rightarrow> byte list) \<Rightarrow> meta_db \<Rightarrow> meta_key \<Rightarrow> meta_key_page" where
  "render_meta_key_voting_page hex d key =
     \<lparr>kp_key = key,
      kp_current = map_option (render_meta_value hex) (map_of (get_consensus_values d) key),
      kp_votes = map (\<lambda>(voter, value). (voter, render_meta_value hex value, render_meta_value hex value))
        (get_votes_for_key d key)\<rparr>"

datatype page =
    Markup string
  | CtrlPage ctrl_page
  | MetaPage module_id meta_page
  | MetaKeyPage module_id meta_key_page

definition render_module_page :: "modules_inits \<Rightarrow> (byte list \<Rightarrow> byte list) \<Rightarrow> module_id \<Rightarrow> app_state \<Rightarrow> page" where
  "render_module_page inits hex i a = (case tbl_get (as_modules a) i of
      None \<Rightarrow> Markup ''Module instance does not exist''
    | Some m \<Rightarrow>
        if mc_kind (dm_config m) = MODULE_KIND_CONSENSUS_CTRL then
          (case dm_inner m of
             CtrlInst _ \<Rightarrow> CtrlPage (render_consensus_module_page inits (app_ctrl (as_db a) i))
           | _ \<Rightarrow> Markup ''Module instance is not a recognized consensus module'')
        else if mc_kind (dm_config m) = MODULE_KIND_META then
          (case dm_inner m of
             MetaInst _ \<Rightarrow> MetaPage i (render_meta_module_page hex (app_meta (as_db a) i))
           | _ \<Rightarrow> Markup ''Module instance is not a recognized meta module'')
        else Markup (''TBD. Generic handling of module '' @ display_uint i @ '' of kind '' @
          display_uint (mc_kind (dm_config m))))"

datatype answer = ShowPage page | GoTo string

definition get_meta_key :: "(byte list \<Rightarrow> byte list) \<Rightarrow> module_id \<Rightarrow> meta_key \<Rightarrow> app_state \<Rightarrow> answer" where
  "get_meta_key hex i key a = (case tbl_get (as_modules a) i of
      None \<Rightarrow> GoTo (module_path i)
    | Some m \<Rightarrow>
        if mc_kind (dm_config m) = MODULE_KIND_META then
          (case dm_inner m of MetaInst _ \<Rightarrow> ShowPage (MetaKeyPage i (render_meta_key_voting_page hex (app_meta (as_db a) i) key))
           | _ \<Rightarrow> GoTo (module_path i))
        else GoTo (module_path i))"

definition get_meta_key_redirect :: "module_id \<Rightarrow> meta_key \<Rightarrow> answer" where
  "get_meta_key_redirect i key = GoTo (meta_key_path i key)"

datatype navbar_selector = General | Explorer | ModuleSel module_id

fun is_general :: "navbar_selector \<Rightarrow> bool" where
  "is_general General = True" | "is_general _ = False"

fun is_explorer :: "navbar_selector \<Rightarrow> bool" where
  "is_explorer Explorer = True" | "is_explorer _ = False"

fun is_module :: "navbar_selector \<Rightarrow> bool" where
  "is_module (ModuleSel _) = True" | "is_module _ = False"

definition is_module_id :: "module_id \<Rightarrow> navbar_selector \<Rightarrow> bool" where
  "is_module_id i s \<longleftrightarrow> s = ModuleSel i"

definition init_display_name :: "dyn_module_init \<Rightarrow> string" where
  "init_display_name i = (case i of CtrlModuleInit \<Rightarrow> ''Consensus Ctrl'' | MetaModuleInit \<Rightarrow> ''Meta'')"

text \<open>The navigation: which entry is current, and the modules with their path, name and mark.\<close>

definition navbar_module ::
  "inits \<Rightarrow> navbar_selector \<Rightarrow> module_id \<times> module_kind \<Rightarrow> ('e, string \<times> string \<times> bool) res" where
  "navbar_module t active = (\<lambda>(i, kind).
     res_bind (expect ''Missing module init for the module?!'' (tbl_get t kind)) (\<lambda>init.
     Ok (module_path i, display_uint i @ ''. '' @ init_display_name init, is_module_id i active)))"

record navbar =
  nb_overview :: bool
  nb_explorer :: bool
  nb_in_modules :: bool
  nb_modules :: "(string \<times> string \<times> bool) list"

definition render_page_navbar :: "inits \<Rightarrow> navbar_selector \<Rightarrow> modules \<Rightarrow> ('e, navbar) res" where
  "render_page_navbar t active ms =
     res_bind (res_fold (\<lambda>e acc. res_bind (navbar_module t active e) (\<lambda>x. Ok (acc @ [x]))) (get_modules_kinds ms) []) (\<lambda>rows.
     Ok \<lparr>nb_overview = is_general active, nb_explorer = is_explorer active, nb_in_modules = is_module active,
         nb_modules = rows\<rparr>)"

subsection \<open>What the web interface asks a node\<close>

text \<open>The node behind the weak handle, \<open>None\<close> when it is shutting down; \<open>eph\<close> tells whether its database is in memory.\<close>

type_synonym node_handle = "started_node option"

definition node_ref :: "node_handle \<Rightarrow> (whatever, started_node) res" where
  "node_ref h = (case h of Some n \<Rightarrow> Ok n | None \<Rightarrow> Err ''Node shutting down'')"

definition api_consensus :: "node_handle \<Rightarrow> (whatever, cons_state) res" where
  "api_consensus h = res_bind (node_ref h) (\<lambda>n.
     case node_consensus n of Some s \<Rightarrow> Ok s | None \<Rightarrow> Err ''Consensus not initialized'')"

definition get_ui_password_hash :: "node_handle \<Rightarrow> (whatever, hash) res" where
  "get_ui_password_hash h = res_bind (node_ref h) (\<lambda>n. Ok (ui_pass_hash (sn_pass n)))"

definition change_ui_password :: "crypto \<Rightarrow> utext \<Rightarrow> node_handle \<Rightarrow> (whatever, node_handle) res" where
  "change_ui_password cr pass h = res_bind (node_ref h) (\<lambda>n. Ok (Some (n\<lparr>sn_pass := change_ui_pass cr pass (sn_pass n)\<rparr>)))"

definition has_root_secret :: "node_handle \<Rightarrow> (whatever, bool) res" where
  "has_root_secret h = res_bind (node_ref h) (\<lambda>n. Ok (root_secret (sn_keys n) \<noteq> None))"

definition is_ui_password_temporary :: "node_handle \<Rightarrow> (whatever, bool) res" where
  "is_ui_password_temporary h = res_bind (node_ref h) (\<lambda>n. Ok (ui_pass_is_temporary (sn_pass n)))"

definition is_consensus_initialized :: "node_handle \<Rightarrow> (whatever, bool) res" where
  "is_consensus_initialized h = res_bind (node_ref h) (\<lambda>n. Ok (node_consensus n \<noteq> None))"

definition get_round_and_timeout_rx :: "node_handle \<Rightarrow> (whatever, block_round \<times> bool) res" where
  "get_round_and_timeout_rx h = res_bind (api_consensus h) (\<lambda>s. Ok (current_round_with_timeout (snd s)))"

definition get_finality_consensus_rx :: "node_handle \<Rightarrow> (whatever, block_round) res" where
  "get_finality_consensus_rx h = res_bind (api_consensus h) (\<lambda>s. Ok (finality_consensus (snd s)))"

definition get_finality_self_vote_rx :: "node_handle \<Rightarrow> (whatever, block_round) res" where
  "get_finality_self_vote_rx h = res_bind (api_consensus h) (\<lambda>s. Ok (finality_self_vote (snd s)))"

definition get_node_app_ack_rx :: "node_handle \<Rightarrow> (whatever, block_round) res" where
  "get_node_app_ack_rx h = res_bind (node_ref h) (\<lambda>n. Ok (sn_app_ack n))"

definition get_peer_pubkey :: "node_handle \<Rightarrow> (whatever, peer_pubkey option) res" where
  "get_peer_pubkey h = res_bind (node_ref h) (\<lambda>n. Ok (own_pubkey (sn_keys n)))"

definition is_database_ephemeral :: "bool \<Rightarrow> node_handle \<Rightarrow> (whatever, bool) res" where
  "is_database_ephemeral eph h = res_bind (node_ref h) (\<lambda>n. Ok eph)"

definition api_generate_invite_code :: "start_env \<Rightarrow> node_handle \<Rightarrow> (whatever, invite) res" where
  "api_generate_invite_code env h = res_bind (node_ref h) (\<lambda>n.
     generate_invite_code (se_crypto env) (se_node_id env) (node_consensus n))"

record consensus_history_entry =
  he_round :: block_round
  he_is_dummy :: bool
  he_block_header :: "block_header option"
  he_signatory_peers :: "peer_pubkey list"

definition api_get_consensus_history ::
  "64 word \<Rightarrow> node_handle \<Rightarrow> (whatever, consensus_history_entry list) res" where
  "api_get_consensus_history limit h =
     res_bind (api_consensus h) (\<lambda>s.
     res_bind (get_consensus_history limit (fst s)) (\<lambda>history_data.
     Ok (map (\<lambda>(r, block_header, signatory_peers). \<lparr>he_round = r, he_is_dummy = (block_header = None),
         he_block_header = block_header, he_signatory_peers = signatory_peers\<rparr>) history_data)))"

subsection \<open>The overview\<close>

definition status_peer_set :: "app_state \<Rightarrow> (whatever, peer_set) res" where
  "status_peer_set a = (case tbl_get (as_modules a) 0 of
      None \<Rightarrow> Err ''Missing ConsensusCtrl module''
    | Some m \<Rightarrow> (case dm_inner m of
        CtrlInst _ \<Rightarrow> Ok (get_peer_set (app_ctrl (as_db a) 0))
      | MetaInst _ \<Rightarrow> Err ''ConsensusCtrl module of the wrong kind''))"

definition status_database :: "bool \<Rightarrow> node_handle \<Rightarrow> (whatever, string \<times> bool) res" where
  "status_database eph h = res_bind (is_database_ephemeral eph h) (\<lambda>is_ephemeral.
     Ok (if is_ephemeral then ''In-memory (ephemeral)'' else ''Persistent'', is_ephemeral))"

record overview =
  ov_peers :: peer_set
  ov_pubkey :: "peer_pubkey option"
  ov_database :: "string \<times> bool"

text \<open>\<open>unwrap_or\<close>; a missing key and a failed call both show \<open>Not available\<close>.\<close>

definition unwrap_or :: "'a \<Rightarrow> ('e, 'a) res \<Rightarrow> ('e, 'a) res" where
  "unwrap_or d r = (case r of Ok a \<Rightarrow> Ok a | Err _ \<Rightarrow> Ok d | Panic m \<Rightarrow> Panic m)"

definition status_get :: "bool \<Rightarrow> node_handle \<Rightarrow> app_state \<Rightarrow> (whatever, overview) res" where
  "status_get eph h a =
     res_bind (unwrap_or [] (status_peer_set a)) (\<lambda>ps.
     res_bind (unwrap_or None (get_peer_pubkey h)) (\<lambda>k.
     res_bind (unwrap_or (''Unknown'', False) (status_database eph h)) (\<lambda>db.
     Ok \<lparr>ov_peers = ps, ov_pubkey = k, ov_database = db\<rparr>)))"

record signals =
  sig_round_and_timeout :: "block_round \<times> bool"
  sig_finality_consensus :: block_round
  sig_finality_self :: block_round
  sig_node_app_ack :: block_round

text \<open>What \<open>updates\<close> sends: the channels as they are, each time twice.\<close>

definition status_signals :: "node_handle \<Rightarrow> (whatever, signals list) res" where
  "status_signals h =
     res_bind (get_round_and_timeout_rx h) (\<lambda>rt.
     res_bind (get_finality_consensus_rx h) (\<lambda>fc.
     res_bind (get_finality_self_vote_rx h) (\<lambda>fs.
     res_bind (get_node_app_ack_rx h) (\<lambda>ack.
     let out = \<lparr>sig_round_and_timeout = rt, sig_finality_consensus = fc, sig_finality_self = fs, sig_node_app_ack = ack\<rparr> in
     Ok [out, out]))))"

text \<open>A row of the explorer: the round, the hash of the header, its date, the length of the payload of a block that is no
  dummy, and who signed. \<open>from_nanos\<close> and \<open>rfc3339\<close> are those of the third-party crate \<open>time\<close>.\<close>

record explorer_row =
  er_round :: block_round
  er_hash :: "hash option"
  er_date :: string
  er_payload :: string
  er_signers :: "peer_pubkey list"

definition explorer_date :: "(int \<Rightarrow> 'd option) \<Rightarrow> ('d \<Rightarrow> string option) \<Rightarrow> timestamp \<Rightarrow> string" where
  "explorer_date from_nanos rfc3339 t = (case to_datetime from_nanos t of
      Some d \<Rightarrow> (case rfc3339 d of Some s \<Rightarrow> s | None \<Rightarrow> ''Invalid'')
    | None \<Rightarrow> ''Invalid timestamp'')"

definition explorer_row ::
  "crypto \<Rightarrow> (int \<Rightarrow> 'd option) \<Rightarrow> ('d \<Rightarrow> string option) \<Rightarrow> consensus_history_entry \<Rightarrow> explorer_row" where
  "explorer_row cr from_nanos rfc3339 e =
     \<lparr>er_round = he_round e,
      er_hash = map_option (header_hash cr) (he_block_header e),
      er_date = (case he_block_header e of Some h \<Rightarrow> explorer_date from_nanos rfc3339 (bh_timestamp h) | None \<Rightarrow> []),
      er_payload = (case he_block_header e of
          Some h \<Rightarrow> if \<not> is_dummy h then display_uint (bh_payload_len h) @ '' bytes'' else []
        | None \<Rightarrow> []),
      er_signers = he_signatory_peers e\<rparr>"

definition explorer_get ::
  "crypto \<Rightarrow> (int \<Rightarrow> 'd option) \<Rightarrow> ('d \<Rightarrow> string option) \<Rightarrow> node_handle \<Rightarrow> (whatever, explorer_row list) res" where
  "explorer_get cr from_nanos rfc3339 h =
     res_bind (api_get_consensus_history 1000 h) (\<lambda>history. Ok (map (explorer_row cr from_nanos rfc3339) history))"

subsection \<open>What the pages show\<close>

lemma get_votes_for_key_mem:
  "(voter, v) \<in> set (get_votes_for_key d key) \<longleftrightarrow> tbl_get (key_value_votes d) (key, voter) = Some v"
proof
  assume "(voter, v) \<in> set (get_votes_for_key d key)"
  then obtain e where "e \<in> set (votes_range d key)" "voter = snd (fst e)" "v = snd e"
    by (auto simp: get_votes_for_key_def)
  then show "tbl_get (key_value_votes d) (key, voter) = Some v" using votes_range_mem [of e d key] by (metis prod.collapse)
next
  assume "tbl_get (key_value_votes d) (key, voter) = Some v"
  then have "((key, voter), v) \<in> set (votes_range d key)" by (simp add: votes_range_mem)
  then show "(voter, v) \<in> set (get_votes_for_key d key)"
    unfolding get_votes_for_key_def by (force intro: rev_image_eqI)
qed

text \<open>The page of a key shows exactly the recorded votes for it, each with its voter, and the value in force.\<close>

lemma meta_key_page_complete:
  "(voter, sent, shown) \<in> set (kp_votes (render_meta_key_voting_page hex d key)) \<longleftrightarrow>
     (\<exists>v. tbl_get (key_value_votes d) (key, voter) = Some v \<and> sent = render_meta_value hex v \<and> shown = sent)"
  "kp_current (render_meta_key_voting_page hex d key) = map_option (render_meta_value hex) (tbl_get (consensus_values d) key)"
proof -
  show "(voter, sent, shown) \<in> set (kp_votes (render_meta_key_voting_page hex d key)) \<longleftrightarrow>
     (\<exists>v. tbl_get (key_value_votes d) (key, voter) = Some v \<and> sent = render_meta_value hex v \<and> shown = sent)"
    unfolding get_votes_for_key_mem [symmetric]
    by (auto simp: render_meta_key_voting_page_def intro: rev_image_eqI)
  show "kp_current (render_meta_key_voting_page hex d key) = map_option (render_meta_value hex) (tbl_get (consensus_values d) key)"
    by (simp add: render_meta_key_voting_page_def get_consensus_values_def tbl_get_def)
qed

lemma meta_keys_all: "set (mp_keys (render_meta_module_page hex d)) = UNIV"
proof -
  have "k \<in> of_nat ` {0..<256}" for k :: meta_key
    by (rule image_eqI [of _ _ "unat k"]) (use unsigned_less [of k] in simp_all)
  then show ?thesis by (auto simp: render_meta_module_page_def)
qed

text \<open>The navigation lists every module, and panics only for one whose kind has no set-up.\<close>

lemma navbar_lists_modules:
  assumes "\<forall>(i, kind) \<in> set (get_modules_kinds ms). tbl_get t kind \<noteq> None"
  shows "\<exists>n. render_page_navbar t active ms = (Ok n :: (whatever, _) res) \<and>
    map fst (nb_modules n) = map (\<lambda>(i, _). module_path i) (get_modules_kinds ms)"
proof -
  let ?row = "\<lambda>(i, kind). (module_path i, display_uint i @ ''. '' @ init_display_name (the (tbl_get t kind)), is_module_id i active)"
  have "res_fold (\<lambda>e acc. res_bind (navbar_module t active e) (\<lambda>x. Ok (acc @ [x]))) (get_modules_kinds ms) [] =
      (Ok ([] @ concat (map (\<lambda>e. [?row e]) (get_modules_kinds ms))) :: (whatever, _) res)"
    using assms by (intro res_fold_append) (fastforce simp: navbar_module_def expect_def)
  moreover have "concat (map (\<lambda>e. [?row e]) xs) = map ?row xs" for xs by (induction xs) simp_all
  ultimately show ?thesis by (auto simp: render_page_navbar_def)
qed

subsection \<open>Printing and parsing\<close>





















end
