(* ===== verification/Spec2Isabelle.thy ===== *)
theory Spec2Isabelle
  imports App_Params Node_Agreement Cons_Dummies Node_Sync Shared_Modules Module_Db Ui_Pages Encodings
begin

text \<open>
  A verification development of BFTE, a Byzantine fault tolerant engine for federations.

  \<^bold>\<open>The program.\<close> A federation of at most 255 peers agrees on a chain of blocks. Time is divided into rounds. In every
  round one leader may propose a block; every peer signs at most one header of the round, the proposal or, after a timeout, a
  \<open>dummy\<close>; a quorum of signatures notarizes it and everybody moves to the next round (\<open>consensus-core\<close>, \<open>consensus\<close>).
  Peers announce up to where they hold notarized blocks, and what a threshold announced is final (\<open>consensus\<close>). Final blocks
  carry items for modules (\<open>node-app\<close>, \<open>module\<close>, \<open>modules\<close>): the control module keeps the peers, modules and versions by
  vote and schedules new parameters of the consensus, the meta module keeps values by vote. \<open>node\<close> runs the rounds against
  the other nodes, keeps their addresses, serves requests and lets new nodes join; \<open>node-ui-axum\<close> is a web interface to it,
  \<open>bfte\<close> the command line that creates or joins a federation and starts a node. All state is in one database (\<open>db\<close>).

  \<^bold>\<open>Conventions.\<close> Sources are under \<open>src/crates\<close>. Definitions carry the names of the source, or that name with the part of the
  program in front where it clashes. Rounds and timestamps are 64-bit words, sequence numbers, lengths and module identifiers
  32-bit, peer indices and numbers of peers 8-bit, hashes and public keys 256-bit, signatures 512-bit; arithmetic that the
  source does with \<open>checked_\<close> or \<open>wrapping_\<close> methods is written out with them. A result is \<open>Ok\<close>, \<open>Err\<close> or \<open>Panic\<close>: every
  \<open>assert!\<close>, \<open>expect\<close>, index and unwrap of the source is a branch that panics, and the build is the release build, so
  \<open>debug_assert!\<close> is not executed and a panic ends the process. A database table is a key-ordered association list. A write transaction
  is a function on a private copy that collects its commit hooks, as data; a watch channel is a field of a record, a channel
  that only wakes somebody is a counter. Failures of the storage engine are in \<open>Db_Layer\<close>, which the transactions that the other
  theories use (\<open>Db\<close>) abstract from; a table that is opened twice, which the code provokes itself, is an argument
  (\<open>excl\<close>, \<open>env_excl\<close>). The hash function, the signature scheme and the
  derived encoders are third-party code: fields of the records \<open>crypto\<close>, \<open>ctrl_codec\<close>, \<open>meta_codec\<close>, \<open>app_env\<close>, or
  arguments. Random choices and clocks are arguments.

  \<^bold>\<open>The theories.\<close>

  \<^item> \<open>Prelude\<close>, \<open>Array_Types\<close> (\<open>util-array-type\<close>), \<open>Tables\<close>, \<open>Db\<close> (\<open>db\<close>, \<open>util-db\<close>): results and their inversion rules
    (\<open>res_simps\<close>), machine numbers, tables with the locale \<open>ordered_table\<close>, transactions with the locale \<open>tx_component\<close>
    (a component whose operations keep an invariant keeps it over every history of transactions, failed ones included).
  \<^item> \<open>Encodings\<close> (\<open>util-array-type\<close>, \<open>util-bincode\<close>, \<open>util-fmt-opt\<close>, \<open>util-error\<close>, \<open>util-core\<close>): texts of arrays and errors, dates, whole
    decodings.
  \<^item> \<open>Db_Layer\<close> (\<open>db\<close>), \<open>Module_Db\<close> (\<open>module/src/module/db.rs\<close>): the errors of the database, what the engine answers, a commit
    hook that panics, and that the layer implements \<open>Db\<close>; named tables, the transactions of a module over them, their isolation.
  \<^item> \<open>Num_Peers\<close>, \<open>Peer_Set\<close>, \<open>Vote_Set\<close>, \<open>Block\<close>, \<open>Signed_Msg\<close> (\<open>consensus-core\<close>, \<open>consensus/src/vote_set.rs\<close>): thresholds with the locale
    \<open>quorum_system\<close>, sets of peers and of voters with the locale \<open>finite_set_impl\<close>, headers, parameters, notarizations.
  \<^item> \<open>Cons_Db\<close>, \<open>Cons_Round\<close>, \<open>Cons_Handlers\<close>, \<open>Cons_Getters\<close> (\<open>consensus/src\<close>): the tables with every read and write of them, the end
    of a round and finality, the handlers of votes, proposals, notarized blocks, finality votes and new parameters, creation and
    opening, what a node answers.
  \<^item> \<open>Cons_Invariant\<close>, \<open>Cons_Safety\<close>, \<open>Cons_Correct\<close>, \<open>Cons_Node\<close>: the invariant of the database (\<open>cons_inv\<close>) and of a node
    (\<open>node_inv\<close>), the relations between the database before and after (\<open>keep\<close>, \<open>progress\<close>, \<open>finality_step\<close>, \<open>advanced\<close>),
    and that every handler respects them. \<open>Cons_Theorems\<close>, \<open>Cons_Liveness\<close>, \<open>Cons_Finality\<close>, \<open>Cons_Params\<close>, \<open>Cons_Pins\<close>,
    \<open>Cons_Dummies\<close> hold the properties of the consensus.
  \<^item> \<open>Module_Core\<close> (\<open>module\<close>), \<open>Ctrl_Module\<close>, \<open>Ctrl_Theorems\<close> (\<open>modules/consensus-ctrl\<close>), \<open>Meta_Module\<close>, \<open>Meta_Theorems\<close>
    (\<open>modules/meta\<close>): the modules, their items, requests, effects and proposals, and their properties.
  \<^item> \<open>Node_App\<close>, \<open>App_Theorems\<close>, \<open>App_Params\<close> (\<open>node-app\<close>, \<open>node/src/app_api.rs\<close>): blocks, items, positions, restarts, set-up of the modules, and
    how the vote for a peer ends in new parameters of the consensus. \<open>Shared_Modules\<close> (\<open>node-shared-modules\<close>): what the modules propose.
  \<^item> \<open>Node_Secret\<close>, \<open>Node_Round\<close>, \<open>Node_Honest\<close>, \<open>Node_Agreement\<close> (\<open>derive-secret\<close>, \<open>node/src/node.rs\<close>, \<open>node/src/run_consensus.rs\<close>): keys, the tasks of a
    round, the loop that joins them, and, over every interleaving of tasks, answers and restarts (\<open>node_step\<close>), what a node signs.
  \<^item> \<open>Peer_Address\<close>, \<open>Node_Rpc\<close>, \<open>Node_Sync\<close>, \<open>Node_Join\<close>, \<open>Node_Ui\<close> (\<open>node/src\<close>, \<open>invite\<close>, \<open>node-ui-axum\<close>): the address book and gossip, requests
    and catching up, invites and joining, the requests of the web interface that change the node.
  \<^item> \<open>Bfte_Main\<close> (\<open>bfte\<close>, \<open>node/src/node.rs\<close>): the commands, the start of a node, creating and joining a federation from the
    command line. \<open>Ui_Pages\<close> (\<open>node-ui-axum\<close>, \<open>node/src/ui_api.rs\<close>): what the pages show, and what the interface asks a node.

  \<^bold>\<open>How the parts correspond.\<close> \<open>cons_state\<close> is \<open>Consensus\<close>: the database and the channels of its \<open>watch\<close> senders. A handler
  \<open>x_tx\<close> is the closure that the source runs in a transaction, \<open>x\<close> the method around it. The loop of \<open>check_round_end\<close> is
  \<open>round_loop\<close>, a total function whose measure is the distance to the last round number. \<open>app_state\<close> is \<open>NodeApp\<close> with the database.
  A task that the source spawns into the \<open>JoinSet\<close> of a round is a \<open>round_task\<close>, running or done with its event; it may yield
  whenever its answer may come. A request that waits is one turn of its loop. The search for a free module identifier has no bound in the
  source and is a \<open>partial_function\<close>; \<open>add_module_by_all_peers\<close> states that it returns. There is no fuel in the development.

  \<^bold>\<open>What is shown.\<close> Safety: with at most \<open>max_faulty\<close> faulty peers and no forged vote in their databases two nodes never hold different notarized
  blocks of a round (\<open>federation_agreement\<close>), because a node signs one header per round over every history, restarts included
  (\<open>honest_node_votes_once\<close>), and two quorums share an honest peer (\<open>quorum_intersection\<close>). The invariant of a node holds over every sequence of messages
  (\<open>consensus_invariant\<close>). Progress: the vote that completes a quorum ends the round, the leader's own proposal is accepted,
  a round starts its tasks, a node that is behind catches up by what another one serves (\<open>served_block_catches_up\<close>). Parameters: a
  vote on the peers ends in exactly the new peer set, in effect from its round on. The modules decide at
  their thresholds, and the copies that the application keeps stay in step with the database. A join holds what its invite names; the
  \<open>init\<close> command creates the federation it was asked for (\<open>init_command_creates_federation\<close>); the web interface needs the
  password and offers only modules that can be voted for. Storage: a transaction that fails has no effect
  (\<open>write_layer_refines\<close>), and a module has tables of its own (\<open>module_tables_private\<close>) that
  the others do not see (\<open>modules_isolated\<close>).

  \<^bold>\<open>What is wrong.\<close> Several properties and lemmas state behaviour that the code hardly means to have: a second change of parameters at one round
  (\<open>second_params_change_panics\<close>), finality that goes back (\<open>finality_channel_goes_back\<close>), an ignored position after a restart
  (\<open>restart_position_ignored\<close>), tables opened twice (\<open>recheck_after_removal_panics\<close>, \<open>proposed_approval_panics\<close>), addresses of keys
  that are no curve points (\<open>foreign_address_update_panics\<close>), votes for dummies with another timestamp, which
  are taken and then served under a header that they do not sign (\<open>odd_dummy_vote_spoils_answer\<close>),
  passwords with spaces around them (\<open>sign_in_after_password_change\<close>), values that start with \<open>0x\<close> (\<open>approved_value_roundtrip\<close>), the
  random choice (\<open>get_random_entry\<close>), too many peers in one \<open>init\<close> (\<open>oversized_init_ruins_data_dir\<close>), a table that is read
  before it exists (\<open>fresh_node_push_gossip_panics\<close>), a hook that panics (\<open>hook_panic_stops_writes\<close>), dates that wrap around
  (\<open>to_datetime_wraps\<close>), payloads that do not decode (\<open>next_block_delivered\<close>). An index from the network that is out of range
  panics (\<open>verify_sigs_unknown_peer_panics\<close>). A pin is enforced when its round is left (\<open>pinned_block_enforced\<close>) but not when a later
  block rewinds over it.

  \<^bold>\<open>Not modelled.\<close> Sockets, streams and the \<open>iroh\<close> transport; the derived encodings and the text formats \<open>base32\<close> and \<open>base64\<close>; the
  storage engine itself and the compaction when a file is opened; logging; handles, task spawning and locks, whose effect is the order of
  steps, but for the lock that a panic poisons; the markup and assets of the web interface, of which the data shown is modelled, and the
  parsing of command lines; the traits \<open>node-app-core\<close> and \<open>node-ui\<close>, whose implementations are modelled; the
  tests. These have no logic of the protocol or call code outside the repository.
\<close>

end
